theory Spec2Isabelle
  imports Main "HOL-Library.Word"
begin

section \<open>Local authentication core of open-gerege: data model\<close>

text \<open>
  The model follows \<^verbatim>\<open>backend/internal/service/auth_service.go\<close>,
  \<^verbatim>\<open>registration_service.go\<close> and the domain structs of \<^verbatim>\<open>auth.go\<close>.
  Go strings are byte sequences and become \<open>string\<close>; a \<^verbatim>\<open>[]byte\<close> is a list of
  8-bit words; Go's \<^verbatim>\<open>int\<close> becomes \<open>int\<close>; a \<^verbatim>\<open>time.Time\<close> and a
  \<^verbatim>\<open>time.Duration\<close> are integers (nanoseconds), and a nullable \<^verbatim>\<open>*time.Time\<close> is an
  option. Every operation receives the instant \<open>now\<close> that \<^verbatim>\<open>time.Now()\<close> returns
  during the call, and the random material it draws (\<^verbatim>\<open>uuid.New()\<close>,
  \<^verbatim>\<open>rand.Reader\<close>) as arguments.
\<close>

type_synonym time = int
type_synonym bytes = "8 word list"

text \<open>The sentinel errors of both services; \<open>ErrWrapped\<close> stands for the
  \<^verbatim>\<open>fmt.Errorf("...: %w", err)\<close> results, with the message prefix,
  \<open>ErrRandRead\<close> for a failed read of \<^verbatim>\<open>rand.Reader\<close>, \<open>ErrDatabase\<close> for an
  error of the database (a violated constraint) and \<open>ErrUnreachable\<close> for an error
  of the fast store (the store cannot be reached).\<close>

datatype error =
    ErrInvalidCredentials
  | ErrAccountLocked
  | ErrAccountNotActive
  | ErrMFARequired
  | ErrInvalidMFACode
  | ErrMFANotEnabled
  | ErrMFAAlreadyEnabled
  | ErrInvalidSession
  | ErrPasswordTooWeak
  | ErrPasswordReused
  | ErrUserNotFound
  | ErrCredentialsNotFound
  | ErrEmailAlreadyExists
  | ErrInvalidVerificationToken
  | ErrInvalidResetToken
  | ErrUserAlreadyVerified
  | ErrPasswordMismatch
  | ErrWrapped string
  | ErrRandRead
  | ErrDatabase
  | ErrUnreachable

record User =
  u_Id :: int
  u_Email :: string
  u_Status :: string
  u_LastLoginAt :: "time option"
  u_LoginCount :: int

record UserCredential =
  uc_ID :: int
  uc_UserID :: int
  uc_PasswordHash :: string
  uc_PasswordChangedAt :: "time option"
  uc_FailedLoginAttempts :: int
  uc_LockedUntil :: "time option"
  uc_MustChangePassword :: bool

record UserMFATotp =
  mfa_ID :: int
  mfa_UserID :: int
  mfa_SecretEncrypted :: string
  mfa_IsEnabled :: bool
  mfa_VerifiedAt :: "time option"

record UserMFABackupCode =
  bc_ID :: int
  bc_UserID :: int
  bc_CodeHash :: string
  bc_Salt :: string
  bc_UsedAt :: "time option"

record Session =
  se_ID :: string
  se_UserID :: int
  se_IPAddress :: string
  se_UserAgent :: string
  se_ExpiresAt :: time
  se_LastActivityAt :: time
  se_RevokedAt :: "time option"
  se_RevokedReason :: string

record LoginHistory =
  lh_UserID :: "int option"
  lh_Email :: string
  lh_IPAddress :: string
  lh_UserAgent :: string
  lh_LoginMethod :: string
  lh_Success :: bool
  lh_FailureReason :: string
  lh_MFAUsed :: bool

text \<open>The values \<^verbatim>\<open>logAudit\<close> marshals to JSON are kept structured: a list of
  key/value pairs instead of the JSON text.\<close>

datatype jval = JTime time | JInt int | JBool bool | JStr string

type_synonym jmap = "(string \<times> jval) list"

record SecurityAuditTrail =
  at_UserID :: "int option"
  at_Action :: string
  at_TargetType :: string
  at_TargetID :: string
  at_OldValue :: "jmap option"
  at_NewValue :: "jmap option"
  at_IPAddress :: string
  at_UserAgent :: string

record PasswordHistory =
  ph_UserID :: int
  ph_PasswordHash :: string

record PasswordResetToken =
  prt_ID :: int
  prt_UserID :: int
  prt_Token :: string
  prt_ExpiresAt :: time
  prt_UsedAt :: "time option"

record SessionData =
  sd_SessionID :: string
  sd_UserID :: int
  sd_Email :: string
  sd_IPAddress :: string
  sd_UserAgent :: string
  sd_CreatedAt :: time
  sd_ExpiresAt :: time
  sd_LastActivityAt :: time

record MFAPendingData =
  mp_UserID :: int
  mp_Email :: string
  mp_IPAddress :: string
  mp_UserAgent :: string
  mp_ExpiresAt :: time

record LoginRequest =
  lreq_Email :: string
  lreq_Password :: string
  lreq_IPAddress :: string
  lreq_UserAgent :: string

record LoginResponse =
  lres_RequiresMFA :: bool
  lres_MFAToken :: string
  lres_Session :: "SessionData option"
  lres_User :: "User option"

record VerifyMFARequest =
  vreq_MFAToken :: string
  vreq_Code :: string
  vreq_IPAddress :: string
  vreq_UserAgent :: string

text \<open>\<^verbatim>\<open>config.LocalAuthConfig\<close>: the fields the two services read.\<close>

record LocalAuthConfig =
  LockoutThreshold :: int
  LockoutDuration :: int
  MFATokenTTL :: int
  SessionTTL :: int
  PasswordMinLength :: int
  PasswordHistoryCount :: int

text \<open>
  The libraries outside the repository are parameters of the model:
  \<open>IDKey\<close> is \<^verbatim>\<open>argon2.IDKey(password, salt, time, memory, threads, keyLen)\<close>,
  \<open>totp_Validate now code secret\<close> is \<^verbatim>\<open>totp.Validate(code, secret)\<close> evaluated at
  the instant \<open>now\<close>, and \<open>aesgcm_Open\<close> is the AES-256-GCM secret box that
  \<^verbatim>\<open>decryptTOTPSecret\<close> opens with the configured key (its result on the stored
  ciphertext: the secret, or an error). So is the reachability of the fast store in
  the two calls after which a service returns early on the error:
  \<open>kv_Create_error session\<close> is the error, if any, with which
  \<^verbatim>\<open>SessionStore.Create\<close> answers for this session, and
  \<open>kv_DeleteAll_error now userID\<close> the error, if any, with which
  \<^verbatim>\<open>SessionStore.DeleteAllUserSessions\<close> answers the call made at the instant
  \<open>now\<close> for this user (\<open>None\<close>: the call succeeds).
\<close>

record deps =
  IDKey :: "bytes \<Rightarrow> bytes \<Rightarrow> nat \<Rightarrow> nat \<Rightarrow> nat \<Rightarrow> nat \<Rightarrow> bytes"
  totp_Validate :: "time \<Rightarrow> string \<Rightarrow> string \<Rightarrow> bool"
  aesgcm_Open :: "string \<Rightarrow> error + string"
  kv_Create_error :: "SessionData \<Rightarrow> error option"
  kv_DeleteAll_error :: "time \<Rightarrow> int \<Rightarrow> error option"

text \<open>The relational store (one list of rows per table, oldest row first), the
  sequence of the backup-code and reset-token primary keys, and the fast key-value
  store (sessions and pending MFA tokens).\<close>

record store =
  users :: "User list"
  user_credentials :: "UserCredential list"
  user_mfa_totp :: "UserMFATotp list"
  user_mfa_backup_codes :: "UserMFABackupCode list"
  backup_code_seq :: int
  password_history :: "PasswordHistory list"
  password_reset_tokens :: "PasswordResetToken list"
  reset_token_seq :: int
  sessions :: "Session list"
  login_history :: "LoginHistory list"
  security_audit_trail :: "SecurityAuditTrail list"
  kv_sessions :: "SessionData list"
  kv_mfa_tokens :: "(string \<times> MFAPendingData) list"

section \<open>The repository and the session store\<close>

text \<open>
  The services reach the database through \<^verbatim>\<open>repository.AuthRepository\<close> and the
  fast store through \<^verbatim>\<open>SessionStore\<close>. The sources hold the interfaces' callers
  only, so each operation below is modelled from the specification (sections 3, 4
  and 6 of the specification: simple CRUD operations, no core logic in the store) on
  the tables of \<open>store\<close>. A lookup that finds no row is the
  \<^verbatim>\<open>gorm.ErrRecordNotFound\<close> case (\<open>None\<close>). A failure of the transport is
  modelled for \<^verbatim>\<open>SessionStore.Create\<close> and
  \<^verbatim>\<open>SessionStore.DeleteAllUserSessions\<close>, the two calls of the fast store after
  which \<^verbatim>\<open>createSession\<close> and \<^verbatim>\<open>LogoutAll\<close> return early; a call that fails
  writes nothing. The other calls are modelled on a store that answers.
\<close>

text \<open>Modelled from the spec: \<^verbatim>\<open>AuthRepository.GetUserByEmail\<close>, the Identity
  looked up by email.\<close>

definition GetUserByEmail :: "store \<Rightarrow> string \<Rightarrow> User option" where
  "GetUserByEmail s email = find (\<lambda>u. u_Email u = email) (users s)"

text \<open>Modelled from the spec: \<^verbatim>\<open>AuthRepository.GetCredentialByUserID\<close>, the
  Credential that is one-to-one with the Identity.\<close>

definition GetCredentialByUserID :: "store \<Rightarrow> int \<Rightarrow> UserCredential option" where
  "GetCredentialByUserID s uid = find (\<lambda>c. uc_UserID c = uid) (user_credentials s)"

text \<open>Modelled from the spec: \<^verbatim>\<open>AuthRepository.IncrementFailedAttempts\<close>, which
  increments the Credential's failed-attempt counter.\<close>

definition IncrementFailedAttempts :: "int \<Rightarrow> store \<Rightarrow> store" where
  "IncrementFailedAttempts uid s =
     s\<lparr>user_credentials :=
         map (\<lambda>c. if uc_UserID c = uid
                   then c\<lparr>uc_FailedLoginAttempts := uc_FailedLoginAttempts c + 1\<rparr> else c)
           (user_credentials s)\<rparr>"

text \<open>Modelled from the spec: \<^verbatim>\<open>AuthRepository.LockAccount\<close>, which sets the
  Credential's lock-until timestamp.\<close>

definition LockAccount :: "int \<Rightarrow> time \<Rightarrow> store \<Rightarrow> store" where
  "LockAccount uid lockUntil s =
     s\<lparr>user_credentials :=
         map (\<lambda>c. if uc_UserID c = uid then c\<lparr>uc_LockedUntil := Some lockUntil\<rparr> else c)
           (user_credentials s)\<rparr>"

text \<open>Modelled from the spec: \<^verbatim>\<open>AuthRepository.ResetFailedAttempts\<close>, which resets
  the failed-attempt counter to zero.\<close>

definition ResetFailedAttempts :: "int \<Rightarrow> store \<Rightarrow> store" where
  "ResetFailedAttempts uid s =
     s\<lparr>user_credentials :=
         map (\<lambda>c. if uc_UserID c = uid then c\<lparr>uc_FailedLoginAttempts := 0\<rparr> else c)
           (user_credentials s)\<rparr>"

text \<open>Modelled from the spec: \<^verbatim>\<open>AuthRepository.GetMFAByUserID\<close>, the MFAConfig
  that is one-to-one with the Identity.\<close>

definition GetMFAByUserID :: "store \<Rightarrow> int \<Rightarrow> UserMFATotp option" where
  "GetMFAByUserID s uid = find (\<lambda>m. mfa_UserID m = uid) (user_mfa_totp s)"

text \<open>Modelled from the spec: \<^verbatim>\<open>AuthRepository.EnableMFA\<close>, which flips the
  MFAConfig to enabled and stamps verified-at.\<close>

definition EnableMFA :: "time \<Rightarrow> int \<Rightarrow> store \<Rightarrow> store" where
  "EnableMFA now uid s =
     s\<lparr>user_mfa_totp :=
         map (\<lambda>m. if mfa_UserID m = uid
                   then m\<lparr>mfa_IsEnabled := True, mfa_VerifiedAt := Some now\<rparr> else m)
           (user_mfa_totp s)\<rparr>"

text \<open>Modelled from the spec: \<^verbatim>\<open>AuthRepository.DisableMFA\<close>, which clears the
  enabled flag of the MFAConfig.\<close>

definition DisableMFA :: "int \<Rightarrow> store \<Rightarrow> store" where
  "DisableMFA uid s =
     s\<lparr>user_mfa_totp :=
         map (\<lambda>m. if mfa_UserID m = uid then m\<lparr>mfa_IsEnabled := False\<rparr> else m)
           (user_mfa_totp s)\<rparr>"

text \<open>Modelled from the spec: \<^verbatim>\<open>AuthRepository.UpdateUserLoginStats\<close>, the login
  statistics (last login, login count) of the Identity.\<close>

definition UpdateUserLoginStats :: "time \<Rightarrow> int \<Rightarrow> store \<Rightarrow> store" where
  "UpdateUserLoginStats now uid s =
     s\<lparr>users :=
         map (\<lambda>u. if u_Id u = uid
                   then u\<lparr>u_LastLoginAt := Some now, u_LoginCount := u_LoginCount u + 1\<rparr> else u)
           (users s)\<rparr>"

text \<open>Modelled from the spec: \<^verbatim>\<open>AuthRepository.CreateLoginHistory\<close>, an append to
  the append-only login history.\<close>

definition CreateLoginHistory :: "LoginHistory \<Rightarrow> store \<Rightarrow> store" where
  "CreateLoginHistory h s = s\<lparr>login_history := login_history s @ [h]\<rparr>"

text \<open>Modelled from the spec: \<^verbatim>\<open>AuthRepository.CreateAuditTrail\<close>, an append to
  the append-only audit trail.\<close>

definition CreateAuditTrail :: "SecurityAuditTrail \<Rightarrow> store \<Rightarrow> store" where
  "CreateAuditTrail a s = s\<lparr>security_audit_trail := security_audit_trail s @ [a]\<rparr>"

text \<open>Modelled from the spec: \<^verbatim>\<open>AuthRepository.GetUnusedBackupCodes\<close>, the
  BackupCodes of the Identity whose used-at is null.\<close>

definition GetUnusedBackupCodes :: "store \<Rightarrow> int \<Rightarrow> UserMFABackupCode list" where
  "GetUnusedBackupCodes s uid =
     filter (\<lambda>b. bc_UserID b = uid \<and> bc_UsedAt b = None) (user_mfa_backup_codes s)"

text \<open>Modelled from the spec: \<^verbatim>\<open>AuthRepository.UseBackupCode\<close>, which sets the
  used-at timestamp of the BackupCode with the given primary key.\<close>

definition UseBackupCode :: "time \<Rightarrow> int \<Rightarrow> store \<Rightarrow> store" where
  "UseBackupCode now cid s =
     s\<lparr>user_mfa_backup_codes :=
         map (\<lambda>b. if bc_ID b = cid then b\<lparr>bc_UsedAt := Some now\<rparr> else b)
           (user_mfa_backup_codes s)\<rparr>"

text \<open>Modelled from the spec: the primary keys that the \<^verbatim>\<open>SERIAL\<close> column of
  \<^verbatim>\<open>user_mfa_backup_codes\<close> gives to inserted rows, in order.\<close>

fun assign_ids :: "int \<Rightarrow> UserMFABackupCode list \<Rightarrow> UserMFABackupCode list" where
  "assign_ids n [] = []"
| "assign_ids n (b # bs) = b\<lparr>bc_ID := n\<rparr> # assign_ids (n + 1) bs"

text \<open>Modelled from the spec: \<^verbatim>\<open>AuthRepository.CreateBackupCodes\<close>, the insert of
  the given BackupCode rows.\<close>

definition CreateBackupCodes :: "UserMFABackupCode list \<Rightarrow> store \<Rightarrow> store" where
  "CreateBackupCodes rows s =
     s\<lparr>user_mfa_backup_codes :=
         user_mfa_backup_codes s @ assign_ids (backup_code_seq s + 1) rows,
       backup_code_seq := backup_code_seq s + int (length rows)\<rparr>"

text \<open>Modelled from the spec: \<^verbatim>\<open>AuthRepository.DeleteBackupCodes\<close>, which deletes
  all BackupCodes of the Identity.\<close>

definition DeleteBackupCodes :: "int \<Rightarrow> store \<Rightarrow> store" where
  "DeleteBackupCodes uid s =
     s\<lparr>user_mfa_backup_codes := filter (\<lambda>b. bc_UserID b \<noteq> uid) (user_mfa_backup_codes s)\<rparr>"

text \<open>Modelled from the spec: \<^verbatim>\<open>AuthRepository.CreatePasswordHistory\<close>, an append
  to the append-only PasswordHistory of the Identity.\<close>

definition CreatePasswordHistory :: "PasswordHistory \<Rightarrow> store \<Rightarrow> store" where
  "CreatePasswordHistory h s = s\<lparr>password_history := password_history s @ [h]\<rparr>"

text \<open>Modelled from the spec: \<^verbatim>\<open>AuthRepository.GetPasswordHistory\<close>, the last
  \<open>n\<close> PasswordHistory entries of the Identity, newest first.\<close>

definition GetPasswordHistory :: "store \<Rightarrow> int \<Rightarrow> int \<Rightarrow> PasswordHistory list" where
  "GetPasswordHistory s uid n =
     take (nat n) (rev (filter (\<lambda>h. ph_UserID h = uid) (password_history s)))"

text \<open>Modelled from the spec: \<^verbatim>\<open>AuthRepository.UpdateCredential\<close>, which replaces
  the Credential row that has the primary key of the given one.\<close>

definition UpdateCredential :: "UserCredential \<Rightarrow> store \<Rightarrow> store" where
  "UpdateCredential c s =
     s\<lparr>user_credentials := map (\<lambda>c0. if uc_ID c0 = uc_ID c then c else c0) (user_credentials s)\<rparr>"

text \<open>Modelled from the spec: \<^verbatim>\<open>AuthRepository.CreateCredential\<close>, the insert of a
  Credential row (Credentials are never deleted, so the next primary key is the
  number of rows plus one).\<close>

definition CreateCredential :: "UserCredential \<Rightarrow> store \<Rightarrow> store" where
  "CreateCredential c s =
     s\<lparr>user_credentials :=
         user_credentials s @ [c\<lparr>uc_ID := int (length (user_credentials s)) + 1\<rparr>]\<rparr>"

text \<open>Modelled from the spec: \<^verbatim>\<open>AuthRepository.CreateSession\<close>, the insert of the
  durable mirror row of a session.\<close>

definition CreateSession :: "Session \<Rightarrow> store \<Rightarrow> store" where
  "CreateSession row s = s\<lparr>sessions := sessions s @ [row]\<rparr>"

text \<open>Modelled from the spec: \<^verbatim>\<open>AuthRepository.RevokeAllUserSessions\<close>, which
  marks all durable mirror rows of the Identity revoked, with the reason.\<close>

definition RevokeAllUserSessions :: "time \<Rightarrow> int \<Rightarrow> string \<Rightarrow> store \<Rightarrow> store" where
  "RevokeAllUserSessions now uid reason s =
     s\<lparr>sessions :=
         map (\<lambda>r. if se_UserID r = uid
                   then r\<lparr>se_RevokedAt := Some now, se_RevokedReason := reason\<rparr> else r)
           (sessions s)\<rparr>"

text \<open>Modelled from the spec: \<^verbatim>\<open>SessionStore.StoreMFAToken\<close>, which sets the
  MFAPendingAuth record under the one-time token with a time to live (the record
  carries its expiry, now plus the time to live).\<close>

definition StoreMFAToken :: "string \<Rightarrow> MFAPendingData \<Rightarrow> store \<Rightarrow> store" where
  "StoreMFAToken token pending s =
     s\<lparr>kv_mfa_tokens := (token, pending) # filter (\<lambda>kv. fst kv \<noteq> token) (kv_mfa_tokens s)\<rparr>"

text \<open>Modelled from the spec: \<^verbatim>\<open>SessionStore.GetMFAToken\<close>, the MFAPendingAuth
  record under the token, nil when it is missing or its time to live has run out.\<close>

definition GetMFAToken :: "time \<Rightarrow> store \<Rightarrow> string \<Rightarrow> MFAPendingData option" where
  "GetMFAToken now s token =
     (case map_of (kv_mfa_tokens s) token of
        None \<Rightarrow> None
      | Some pending \<Rightarrow> if now < mp_ExpiresAt pending then Some pending else None)"

text \<open>Modelled from the spec: \<^verbatim>\<open>SessionStore.DeleteMFAToken\<close>, which deletes the
  MFAPendingAuth record under the token.\<close>

definition DeleteMFAToken :: "string \<Rightarrow> store \<Rightarrow> store" where
  "DeleteMFAToken token s =
     s\<lparr>kv_mfa_tokens := filter (\<lambda>kv. fst kv \<noteq> token) (kv_mfa_tokens s)\<rparr>"

text \<open>Modelled from the spec: \<^verbatim>\<open>SessionStore.Create\<close>, which sets the session
  record in the fast store, or returns the error of a store that cannot be
  reached.\<close>

definition SessionStore_Create :: "deps \<Rightarrow> SessionData \<Rightarrow> store \<Rightarrow> error option \<times> store" where
  "SessionStore_Create d session s =
     (case kv_Create_error d session of
        Some err \<Rightarrow> (Some err, s)
      | None \<Rightarrow> (None, s\<lparr>kv_sessions := kv_sessions s @ [session]\<rparr>))"

text \<open>Modelled from the spec: \<^verbatim>\<open>SessionStore.DeleteAllUserSessions\<close>, which
  enumerates and deletes every session of the Identity from the fast store, or
  returns the error of a store that cannot be reached.\<close>

definition DeleteAllUserSessions :: "deps \<Rightarrow> time \<Rightarrow> int \<Rightarrow> store \<Rightarrow> error option \<times> store" where
  "DeleteAllUserSessions d now uid s =
     (case kv_DeleteAll_error d now uid of
        Some err \<Rightarrow> (Some err, s)
      | None \<Rightarrow> (None, s\<lparr>kv_sessions := filter (\<lambda>sd. sd_UserID sd \<noteq> uid) (kv_sessions s)\<rparr>))"

section \<open>Library functions the services call\<close>

text \<open>
  \<^verbatim>\<open>strconv.Itoa\<close> and the \<^verbatim>\<open>%d\<close> verb of \<^verbatim>\<open>fmt.Sprintf\<close>: the decimal
  digits of an integer, with a minus sign for a negative one.
\<close>

definition digit_chars :: string where
  "digit_chars = ''0123456789''"

fun nat_dec :: "nat \<Rightarrow> string" where
  "nat_dec n = (if n < 10 then [digit_chars ! n] else nat_dec (n div 10) @ [digit_chars ! (n mod 10)])"

definition Itoa :: "int \<Rightarrow> string" where
  "Itoa i = (if i < 0 then CHR ''-'' # nat_dec (nat (- i)) else nat_dec (nat i))"

text \<open>
  \<^verbatim>\<open>strings.Split(s, sep)\<close> for a separator of one byte: the pieces between the
  separators, \<^verbatim>\<open>[""]\<close> for the empty string.
\<close>

fun Split :: "string \<Rightarrow> char \<Rightarrow> string list" where
  "Split [] sep = [[]]"
| "Split (c # cs) sep =
     (if c = sep then [] # Split cs sep
      else (case Split cs sep of [] \<Rightarrow> [[c]] | p # ps \<Rightarrow> (c # p) # ps))"

text \<open>
  \<^verbatim>\<open>fmt.Sscanf\<close> for the two formats of \<^verbatim>\<open>verifyPassword\<close>: literal text of the
  format must be next in the input; \<^verbatim>\<open>%d\<close> reads a run of decimal digits (after an
  optional sign for a signed target) and fails on an empty run or on a value
  outside the target type. Input after the last verb is left unread. (The white
  space that \<^verbatim>\<open>Sscanf\<close> skips before a number and the underscores it accepts
  between digits are not modelled: \<^verbatim>\<open>hashPassword\<close> writes neither.)
\<close>

fun index_of :: "'a \<Rightarrow> 'a list \<Rightarrow> nat option" where
  "index_of x [] = None"
| "index_of x (y # ys) = (if x = y then Some 0 else map_option Suc (index_of x ys))"

fun scan_lit :: "string \<Rightarrow> string \<Rightarrow> string option" where
  "scan_lit [] inp = Some inp"
| "scan_lit (c # cs) [] = None"
| "scan_lit (c # cs) (x # xs) = (if c = x then scan_lit cs xs else None)"

definition is_digit :: "char \<Rightarrow> bool" where
  "is_digit c = (index_of c digit_chars \<noteq> None)"

definition dec_value :: "string \<Rightarrow> nat" where
  "dec_value ds = foldl (\<lambda>acc c. acc * 10 + (case index_of c digit_chars of None \<Rightarrow> 0 | Some v \<Rightarrow> v)) 0 ds"

definition scan_uint :: "nat \<Rightarrow> string \<Rightarrow> (nat \<times> string) option" where
  "scan_uint maxv inp =
     (let ds = takeWhile is_digit inp; rest = dropWhile is_digit inp
      in if ds = [] then None
         else if maxv < dec_value ds then None
         else Some (dec_value ds, rest))"

definition scan_int :: "string \<Rightarrow> (int \<times> string) option" where
  "scan_int inp =
     (case inp of
        [] \<Rightarrow> None
      | c # cs \<Rightarrow>
          if c = CHR ''-'' then map_option (\<lambda>(v, rest). (- int v, rest)) (scan_uint (2 ^ 63) cs)
          else if c = CHR ''+'' then map_option (\<lambda>(v, rest). (int v, rest)) (scan_uint (2 ^ 63 - 1) cs)
          else map_option (\<lambda>(v, rest). (int v, rest)) (scan_uint (2 ^ 63 - 1) inp))"

text \<open>\<^verbatim>\<open>fmt.Sscanf(parts[2], "v=%d", &version)\<close> with \<^verbatim>\<open>version int\<close>.\<close>

definition Sscanf_version :: "string \<Rightarrow> int option" where
  "Sscanf_version inp =
     (case scan_lit ''v='' inp of
        None \<Rightarrow> None
      | Some r \<Rightarrow> map_option fst (scan_int r))"

text \<open>\<^verbatim>\<open>fmt.Sscanf(parts[3], "m=%d,t=%d,p=%d", &memory, &time, &threads)\<close> with
  \<^verbatim>\<open>memory, time uint32\<close> and \<^verbatim>\<open>threads uint8\<close>.\<close>

definition Sscanf_params :: "string \<Rightarrow> (nat \<times> nat \<times> nat) option" where
  "Sscanf_params inp =
     (case scan_lit ''m='' inp of
        None \<Rightarrow> None
      | Some r1 \<Rightarrow>
     (case scan_uint (2 ^ 32 - 1) r1 of
        None \<Rightarrow> None
      | Some (memory, r2) \<Rightarrow>
     (case scan_lit '',t='' r2 of
        None \<Rightarrow> None
      | Some r3 \<Rightarrow>
     (case scan_uint (2 ^ 32 - 1) r3 of
        None \<Rightarrow> None
      | Some (time, r4) \<Rightarrow>
     (case scan_lit '',p='' r4 of
        None \<Rightarrow> None
      | Some r5 \<Rightarrow>
     (case scan_uint 255 r5 of
        None \<Rightarrow> None
      | Some (threads, r6) \<Rightarrow> Some (memory, time, threads)))))))"

text \<open>
  \<^verbatim>\<open>base64.RawStdEncoding\<close> (RFC 4648, standard alphabet, no padding). The encoder
  writes four characters for every three bytes and two or three characters for a
  last group of one or two bytes. The decoder skips carriage returns and line
  feeds, rejects every other byte outside the alphabet (the padding character
  too) and a last group of one character, and ignores the unused low bits of a
  last group.
\<close>

definition b64chars :: string where
  "b64chars = ''ABCDEFGHIJKLMNOPQRSTUVWXYZabcdefghijklmnopqrstuvwxyz0123456789+/''"

fun encode_quanta :: "bytes \<Rightarrow> nat list" where
  "encode_quanta [] = []"
| "encode_quanta [a] = [unat a div 4, unat a mod 4 * 16]"
| "encode_quanta [a, b] =
     [unat a div 4, unat a mod 4 * 16 + unat b div 16, unat b mod 16 * 4]"
| "encode_quanta (a # b # c # rest) =
     unat a div 4 # (unat a mod 4 * 16 + unat b div 16) #
     (unat b mod 16 * 4 + unat c div 64) # unat c mod 64 # encode_quanta rest"

definition EncodeToString :: "bytes \<Rightarrow> string" where
  "EncodeToString src = map (\<lambda>i. b64chars ! i) (encode_quanta src)"

fun decode_quanta :: "nat list \<Rightarrow> bytes option" where
  "decode_quanta [] = Some []"
| "decode_quanta [i0] = None"
| "decode_quanta [i0, i1] = Some [of_nat (i0 * 4 + i1 div 16)]"
| "decode_quanta [i0, i1, i2] =
     Some [of_nat (i0 * 4 + i1 div 16), of_nat (i1 mod 16 * 16 + i2 div 4)]"
| "decode_quanta (i0 # i1 # i2 # i3 # rest) =
     map_option
       (\<lambda>bs. of_nat (i0 * 4 + i1 div 16) # of_nat (i1 mod 16 * 16 + i2 div 4) #
              of_nat (i2 mod 4 * 64 + i3) # bs)
       (decode_quanta rest)"

definition DecodeString :: "string \<Rightarrow> bytes option" where
  "DecodeString s =
     (case those (map (\<lambda>c. index_of c b64chars)
                   (filter (\<lambda>c. c \<noteq> CHR 0x0D \<and> c \<noteq> CHR 0x0A) s)) of
        None \<Rightarrow> None
      | Some qs \<Rightarrow> decode_quanta qs)"

text \<open>The conversion \<^verbatim>\<open>[]byte(s)\<close>.\<close>

definition bytes_of :: "string \<Rightarrow> bytes" where
  "bytes_of s = map of_char s"

section \<open>Password hashing\<close>

text \<open>The Argon2id parameters of \<^verbatim>\<open>auth_service.go\<close> and \<^verbatim>\<open>argon2.Version\<close>.\<close>

definition argon2Time :: nat where "argon2Time = 1"
definition argon2Memory :: nat where "argon2Memory = 64 * 1024"
definition argon2Threads :: nat where "argon2Threads = 4"
definition argon2KeyLen :: nat where "argon2KeyLen = 32"
definition argon2SaltLen :: nat where "argon2SaltLen = 16"
definition argon2_Version :: nat where "argon2_Version = 19"

text \<open>
  \<^verbatim>\<open>hashPassword\<close>: \<open>salt\<close> is what \<^verbatim>\<open>io.ReadFull(rand.Reader, salt)\<close> delivered
  (\<open>Inl\<close> when the reader failed). The result is the self-describing string
  \<^verbatim>\<open>$argon2id$v=19$m=65536,t=1,p=4$salt$hash\<close>.
\<close>

definition hashPassword :: "deps \<Rightarrow> error + bytes \<Rightarrow> string \<Rightarrow> error + string" where
  "hashPassword d salt password =
     (case salt of
        Inl err \<Rightarrow> Inl err
      | Inr salt \<Rightarrow>
          (let hash = IDKey d (bytes_of password) salt argon2Time argon2Memory argon2Threads argon2KeyLen;
               b64Salt = EncodeToString salt;
               b64Hash = EncodeToString hash
           in Inr (''$argon2id$v='' @ Itoa (int argon2_Version) @ ''$m='' @ Itoa (int argon2Memory)
                   @ '',t='' @ Itoa (int argon2Time) @ '',p='' @ Itoa (int argon2Threads)
                   @ ''$'' @ b64Salt @ ''$'' @ b64Hash)))"

text \<open>
  \<^verbatim>\<open>verifyPassword\<close>: the cost parameters, the salt and the digest are read back
  from the encoded string; \<^verbatim>\<open>subtle.ConstantTimeCompare(x, y) == 1\<close> holds exactly
  when the two slices are equal.
\<close>

definition verifyPassword :: "deps \<Rightarrow> string \<Rightarrow> string \<Rightarrow> bool" where
  "verifyPassword d password encodedHash =
     (let parts = Split encodedHash CHR ''$'' in
      if length parts \<noteq> 6 then False
      else (case Sscanf_version (parts ! 2) of
        None \<Rightarrow> False
      | Some version \<Rightarrow>
     (case Sscanf_params (parts ! 3) of
        None \<Rightarrow> False
      | Some (memory, time, threads) \<Rightarrow>
     (case DecodeString (parts ! 4) of
        None \<Rightarrow> False
      | Some salt \<Rightarrow>
     (case DecodeString (parts ! 5) of
        None \<Rightarrow> False
      | Some hash \<Rightarrow>
          (let comparisonHash =
                 IDKey d (bytes_of password) salt time memory threads (length hash mod 2 ^ 32)
           in hash = comparisonHash))))))"

text \<open>\<^verbatim>\<open>hashBackupCodeWithSalt\<close>: Argon2id of the code under the given salt, in
  base64.\<close>

definition hashBackupCodeWithSalt :: "deps \<Rightarrow> string \<Rightarrow> bytes \<Rightarrow> string" where
  "hashBackupCodeWithSalt d code salt =
     EncodeToString (IDKey d (bytes_of code) salt 1 (64 * 1024) 4 32)"

text \<open>\<^verbatim>\<open>generateBackupCodeSalt\<close>: \<open>salt\<close> is what
  \<^verbatim>\<open>io.ReadFull(rand.Reader, salt)\<close> delivered for the 16-byte buffer.\<close>

definition generateBackupCodeSalt :: "error + bytes \<Rightarrow> error + (bytes \<times> string)" where
  "generateBackupCodeSalt salt =
     (case salt of
        Inl err \<Rightarrow> Inl err
      | Inr salt \<Rightarrow> Inr (salt, EncodeToString salt))"

text \<open>
  \<^verbatim>\<open>base32.StdEncoding.EncodeToString\<close> (RFC 4648): the bits of the input, most
  significant first, in groups of five (the last group filled with zero bits), each
  group a character of the alphabet, padded with \<^verbatim>\<open>=\<close> to a multiple of eight
  characters. \<^verbatim>\<open>strings.ToUpper\<close> on ASCII text.
\<close>

definition b32chars :: string where
  "b32chars = ''ABCDEFGHIJKLMNOPQRSTUVWXYZ234567''"

definition bits_of_byte :: "8 word \<Rightarrow> bool list" where
  "bits_of_byte a = map (\<lambda>i. bit a (7 - i)) [0..<8]"

definition bits_value :: "bool list \<Rightarrow> nat" where
  "bits_value bs = foldl (\<lambda>acc b. 2 * acc + (if b then 1 else 0)) 0 bs"

fun quanta5 :: "bool list \<Rightarrow> nat list" where
  "quanta5 (b0 # b1 # b2 # b3 # b4 # rest) = bits_value [b0, b1, b2, b3, b4] # quanta5 rest"
| "quanta5 [] = []"
| "quanta5 bs = [bits_value (take 5 (bs @ replicate 5 False))]"

definition base32_EncodeToString :: "bytes \<Rightarrow> string" where
  "base32_EncodeToString src =
     (let qs = quanta5 (concat (map bits_of_byte src))
      in map (\<lambda>i. b32chars ! i) qs @ replicate ((8 - length qs mod 8) mod 8) CHR ''='')"

definition ToUpper :: "string \<Rightarrow> string" where
  "ToUpper s =
     map (\<lambda>c. if (97 :: nat) \<le> of_char c \<and> of_char c \<le> (122 :: nat)
               then char_of (of_char c - (32 :: nat)) else c) s"

text \<open>\<^verbatim>\<open>generateRandomCode\<close>: \<open>b\<close> is the 5-byte buffer after
  \<^verbatim>\<open>rand.Read(b)\<close>; the code is the first eight characters of its base32 text.\<close>

definition generateRandomCode :: "bytes \<Rightarrow> string" where
  "generateRandomCode b = ToUpper (take 8 (base32_EncodeToString b))"

text \<open>
  \<^verbatim>\<open>decryptTOTPSecret\<close> (the check of the key length, the base64 decoding and the
  AES-GCM opening of the stored ciphertext) is represented by its result on the
  stored string.
\<close>

definition decryptTOTPSecret :: "deps \<Rightarrow> string \<Rightarrow> error + string" where
  "decryptTOTPSecret d encrypted = aesgcm_Open d encrypted"

section \<open>Domain methods\<close>

text \<open>\<^verbatim>\<open>UserCredential.IsLocked\<close>: lock-until is set and \<^verbatim>\<open>time.Now()\<close> is before
  it.\<close>

definition IsLocked :: "time \<Rightarrow> UserCredential \<Rightarrow> bool" where
  "IsLocked now uc =
     (case uc_LockedUntil uc of None \<Rightarrow> False | Some lockedUntil \<Rightarrow> now < lockedUntil)"

text \<open>\<^verbatim>\<open>PasswordResetToken.IsExpired\<close> and \<^verbatim>\<open>PasswordResetToken.IsUsed\<close>.\<close>

definition prt_IsExpired :: "time \<Rightarrow> PasswordResetToken \<Rightarrow> bool" where
  "prt_IsExpired now t = (prt_ExpiresAt t < now)"

definition prt_IsUsed :: "PasswordResetToken \<Rightarrow> bool" where
  "prt_IsUsed t = (prt_UsedAt t \<noteq> None)"

definition UserStatusActive :: string where
  "UserStatusActive = ''active''"

section \<open>Audit and login history\<close>

definition logFailedLogin ::
  "int option \<Rightarrow> string \<Rightarrow> string \<Rightarrow> string \<Rightarrow> string \<Rightarrow> store \<Rightarrow> store" where
  "logFailedLogin userID email ip userAgent reason s =
     CreateLoginHistory
       \<lparr>lh_UserID = userID, lh_Email = email, lh_IPAddress = ip, lh_UserAgent = userAgent,
        lh_LoginMethod = ''local'', lh_Success = False, lh_FailureReason = reason,
        lh_MFAUsed = False\<rparr> s"

definition logAudit ::
  "int option \<Rightarrow> string \<Rightarrow> string \<Rightarrow> string \<Rightarrow> jmap option \<Rightarrow> jmap option \<Rightarrow> string \<Rightarrow> string
     \<Rightarrow> store \<Rightarrow> store" where
  "logAudit userID action targetType targetID oldValue newValue ip userAgent s =
     CreateAuditTrail
       \<lparr>at_UserID = userID, at_Action = action, at_TargetType = targetType,
        at_TargetID = targetID, at_OldValue = oldValue, at_NewValue = newValue,
        at_IPAddress = ip, at_UserAgent = userAgent\<rparr> s"

definition logSuccessfulLogin ::
  "int \<Rightarrow> string \<Rightarrow> string \<Rightarrow> string \<Rightarrow> bool \<Rightarrow> store \<Rightarrow> store" where
  "logSuccessfulLogin userID email ip userAgent mfaUsed s =
     logAudit (Some userID) ''login_success'' ''user'' (Itoa userID) None
       (Some [(''mfa_used'', JBool mfaUsed)]) ip userAgent
       (CreateLoginHistory
          \<lparr>lh_UserID = Some userID, lh_Email = email, lh_IPAddress = ip,
           lh_UserAgent = userAgent, lh_LoginMethod = ''local'', lh_Success = True,
           lh_FailureReason = [], lh_MFAUsed = mfaUsed\<rparr> s)"

section \<open>AuthService\<close>

text \<open>
  Each operation takes the store and returns its result with the new store. A Go
  result \<^verbatim>\<open>(value, error)\<close> is a sum (\<open>Inl\<close> the error), a Go result \<^verbatim>\<open>error\<close> is
  an option (\<open>None\<close> for \<^verbatim>\<open>nil\<close>). Calls whose error the source drops
  (\<^verbatim>\<open>s.repo.IncrementFailedAttempts(ctx, user.Id)\<close> and the like) are plain state
  updates. The structured logger (\<^verbatim>\<open>s.logger\<close>) is outside the model.
\<close>

text \<open>\<^verbatim>\<open>createSession\<close>: \<open>sessionID\<close> is the fresh \<^verbatim>\<open>uuid.New().String()\<close>.
  When the fast store does not take the session the call returns the wrapped
  error, before the durable mirror row is written.\<close>

definition createSession ::
  "deps \<Rightarrow> LocalAuthConfig \<Rightarrow> time \<Rightarrow> string \<Rightarrow> User \<Rightarrow> string \<Rightarrow> string \<Rightarrow> store
     \<Rightarrow> (error + SessionData) \<times> store" where
  "createSession d cfg now sessionID user ip userAgent s =
     (let session =
            \<lparr>sd_SessionID = sessionID, sd_UserID = u_Id user, sd_Email = u_Email user,
             sd_IPAddress = ip, sd_UserAgent = userAgent, sd_CreatedAt = now,
             sd_ExpiresAt = now + SessionTTL cfg, sd_LastActivityAt = now\<rparr>
      in case SessionStore_Create d session s of
           (Some err, s1) \<Rightarrow> (Inl (ErrWrapped ''failed to create session''), s1)
         | (None, s1) \<Rightarrow>
             (let dbSession =
                    \<lparr>se_ID = sessionID, se_UserID = u_Id user, se_IPAddress = ip,
                     se_UserAgent = userAgent, se_ExpiresAt = sd_ExpiresAt session,
                     se_LastActivityAt = now, se_RevokedAt = None, se_RevokedReason = []\<rparr>
              in (Inr session, CreateSession dbSession s1)))"

text \<open>\<^verbatim>\<open>Login\<close>: \<open>uuid\<close> is the fresh identifier the call draws (the MFA token, or
  the session id).\<close>

definition Login ::
  "deps \<Rightarrow> LocalAuthConfig \<Rightarrow> time \<Rightarrow> string \<Rightarrow> LoginRequest \<Rightarrow> store
     \<Rightarrow> (error + LoginResponse) \<times> store" where
  "Login d cfg now uuid req s =
     (case GetUserByEmail s (lreq_Email req) of
        None \<Rightarrow>
          (Inl ErrInvalidCredentials,
           logFailedLogin None (lreq_Email req) (lreq_IPAddress req) (lreq_UserAgent req)
             ''user not found'' s)
      | Some user \<Rightarrow>
          if u_Status user \<noteq> UserStatusActive then
            (Inl ErrAccountNotActive,
             logFailedLogin (Some (u_Id user)) (lreq_Email req) (lreq_IPAddress req)
               (lreq_UserAgent req) ''account not active'' s)
          else
     (case GetCredentialByUserID s (u_Id user) of
        None \<Rightarrow>
          (Inl ErrCredentialsNotFound,
           logFailedLogin (Some (u_Id user)) (lreq_Email req) (lreq_IPAddress req)
             (lreq_UserAgent req) ''no credentials'' s)
      | Some cred \<Rightarrow>
          if IsLocked now cred then
            (Inl ErrAccountLocked,
             logFailedLogin (Some (u_Id user)) (lreq_Email req) (lreq_IPAddress req)
               (lreq_UserAgent req) ''account locked'' s)
          else if \<not> verifyPassword d (lreq_Password req) (uc_PasswordHash cred) then
            (let s1 = IncrementFailedAttempts (u_Id user) s;
                 s2 = (case GetCredentialByUserID s1 (u_Id user) of
                         None \<Rightarrow> s1
                       | Some newCred \<Rightarrow>
                           if LockoutThreshold cfg \<le> uc_FailedLoginAttempts newCred then
                             (let lockUntil = now + LockoutDuration cfg
                              in logAudit (Some (u_Id user)) ''account_lock'' ''user''
                                   (Itoa (u_Id user)) None
                                   (Some [(''locked_until'', JTime lockUntil)])
                                   (lreq_IPAddress req) (lreq_UserAgent req)
                                   (LockAccount (u_Id user) lockUntil s1))
                           else s1)
             in (Inl ErrInvalidCredentials,
                 logFailedLogin (Some (u_Id user)) (lreq_Email req) (lreq_IPAddress req)
                   (lreq_UserAgent req) ''invalid password'' s2))
          else
            (let s1 = ResetFailedAttempts (u_Id user) s in
             if (case GetMFAByUserID s1 (u_Id user) of
                   None \<Rightarrow> False
                 | Some mfa \<Rightarrow> mfa_IsEnabled mfa) then
               (let pendingData =
                      \<lparr>mp_UserID = u_Id user, mp_Email = u_Email user,
                       mp_IPAddress = lreq_IPAddress req, mp_UserAgent = lreq_UserAgent req,
                       mp_ExpiresAt = now + MFATokenTTL cfg\<rparr>
                in (Inr \<lparr>lres_RequiresMFA = True, lres_MFAToken = uuid,
                          lres_Session = None, lres_User = None\<rparr>,
                    StoreMFAToken uuid pendingData s1))
             else
               (case createSession d cfg now uuid user (lreq_IPAddress req) (lreq_UserAgent req) s1 of
                  (Inl err, s2) \<Rightarrow> (Inl err, s2)
                | (Inr session, s2) \<Rightarrow>
                    (let s3 = UpdateUserLoginStats now (u_Id user) s2;
                         s4 = logSuccessfulLogin (u_Id user) (lreq_Email req) (lreq_IPAddress req)
                                (lreq_UserAgent req) False s3
                     in (Inr \<lparr>lres_RequiresMFA = False, lres_MFAToken = [],
                               lres_Session = Some session, lres_User = Some user\<rparr>, s4))))))"

text \<open>\<^verbatim>\<open>VerifyMFA\<close>: \<open>uuid\<close> is the fresh session id.\<close>

definition VerifyMFA ::
  "deps \<Rightarrow> LocalAuthConfig \<Rightarrow> time \<Rightarrow> string \<Rightarrow> VerifyMFARequest \<Rightarrow> store
     \<Rightarrow> (error + LoginResponse) \<times> store" where
  "VerifyMFA d cfg now uuid req s =
     (case GetMFAToken now s (vreq_MFAToken req) of
        None \<Rightarrow> (Inl ErrInvalidSession, s)
      | Some pending \<Rightarrow>
     (case GetMFAByUserID s (mp_UserID pending) of
        None \<Rightarrow> (Inl ErrMFANotEnabled, s)
      | Some mfa \<Rightarrow>
          if \<not> mfa_IsEnabled mfa then (Inl ErrMFANotEnabled, s)
          else
     (case decryptTOTPSecret d (mfa_SecretEncrypted mfa) of
        Inl err \<Rightarrow> (Inl (ErrWrapped ''failed to decrypt MFA secret''), s)
      | Inr secret \<Rightarrow>
          if \<not> totp_Validate d now (vreq_Code req) secret then
            (Inl ErrInvalidMFACode,
             logFailedLogin (Some (mp_UserID pending)) (mp_Email pending) (vreq_IPAddress req)
               (vreq_UserAgent req) ''invalid MFA code'' s)
          else
            (let s1 = DeleteMFAToken (vreq_MFAToken req) s in
             case GetUserByEmail s1 (mp_Email pending) of
               None \<Rightarrow> (Inl ErrUserNotFound, s1)
             | Some user \<Rightarrow>
                 (case createSession d cfg now uuid user (vreq_IPAddress req) (vreq_UserAgent req) s1 of
                    (Inl err, s2) \<Rightarrow> (Inl err, s2)
                  | (Inr session, s2) \<Rightarrow>
                      (let s3 = UpdateUserLoginStats now (u_Id user) s2;
                           s4 = logSuccessfulLogin (u_Id user) (mp_Email pending) (vreq_IPAddress req)
                                  (vreq_UserAgent req) True s3
                       in (Inr \<lparr>lres_RequiresMFA = False, lres_MFAToken = [],
                                 lres_Session = Some session, lres_User = Some user\<rparr>, s4)))))))"

text \<open>The body of the loop of \<^verbatim>\<open>VerifyBackupCode\<close>: a code whose stored salt does
  not decode is skipped; otherwise the presented code is hashed with the stored
  salt of this code and compared with its stored hash.\<close>

definition backupCodeMatches :: "deps \<Rightarrow> string \<Rightarrow> UserMFABackupCode \<Rightarrow> bool" where
  "backupCodeMatches d code c =
     (case DecodeString (bc_Salt c) of
        None \<Rightarrow> False
      | Some salt \<Rightarrow> bc_CodeHash c = hashBackupCodeWithSalt d code salt)"

text \<open>The loop over the unused codes: the first code that matches is the
  \<^verbatim>\<open>matchedCode\<close>.\<close>

fun matchBackupCode :: "deps \<Rightarrow> string \<Rightarrow> UserMFABackupCode list \<Rightarrow> UserMFABackupCode option" where
  "matchBackupCode d code [] = None"
| "matchBackupCode d code (c # codes) =
     (if backupCodeMatches d code c then Some c else matchBackupCode d code codes)"

text \<open>\<^verbatim>\<open>VerifyBackupCode\<close>: \<open>uuid\<close> is the fresh session id.\<close>

definition VerifyBackupCode ::
  "deps \<Rightarrow> LocalAuthConfig \<Rightarrow> time \<Rightarrow> string \<Rightarrow> string \<Rightarrow> string \<Rightarrow> string \<Rightarrow> string \<Rightarrow> store
     \<Rightarrow> (error + LoginResponse) \<times> store" where
  "VerifyBackupCode d cfg now uuid mfaToken code ip userAgent s =
     (case GetMFAToken now s mfaToken of
        None \<Rightarrow> (Inl ErrInvalidSession, s)
      | Some pending \<Rightarrow>
     (case matchBackupCode d code (GetUnusedBackupCodes s (mp_UserID pending)) of
        None \<Rightarrow>
          (Inl ErrInvalidMFACode,
           logFailedLogin (Some (mp_UserID pending)) (mp_Email pending) ip userAgent
             ''invalid backup code'' s)
      | Some matchedCode \<Rightarrow>
          (let s1 = UseBackupCode now (bc_ID matchedCode) s;
               s2 = logAudit (Some (mp_UserID pending)) ''mfa_backup_used'' ''backup_code''
                      (Itoa (bc_ID matchedCode)) None None ip userAgent s1;
               s3 = DeleteMFAToken mfaToken s2
           in case GetUserByEmail s3 (mp_Email pending) of
                None \<Rightarrow> (Inl ErrUserNotFound, s3)
              | Some user \<Rightarrow>
                  (case createSession d cfg now uuid user ip userAgent s3 of
                     (Inl err, s4) \<Rightarrow> (Inl err, s4)
                   | (Inr session, s4) \<Rightarrow>
                       (let s5 = UpdateUserLoginStats now (u_Id user) s4;
                            s6 = logSuccessfulLogin (u_Id user) (mp_Email pending) ip userAgent True s5
                        in (Inr \<lparr>lres_RequiresMFA = False, lres_MFAToken = [],
                                  lres_Session = Some session, lres_User = Some user\<rparr>, s6))))))"

text \<open>
  \<^verbatim>\<open>generateBackupCodes\<close>: the loop runs ten times; \<open>draws i\<close> is the random
  material of iteration \<open>i\<close>, the code buffer and the result of reading the salt.
  \<open>backupCodeRows\<close> is the loop over a list of draws: it stops with the error at
  the first salt that could not be read.
\<close>

fun backupCodeRows ::
  "deps \<Rightarrow> int \<Rightarrow> (bytes \<times> (error + bytes)) list
     \<Rightarrow> error + (string list \<times> UserMFABackupCode list)" where
  "backupCodeRows d userID [] = Inr ([], [])"
| "backupCodeRows d userID ((b, saltRead) # rest) =
     (let code = generateRandomCode b in
      case generateBackupCodeSalt saltRead of
        Inl err \<Rightarrow> Inl (ErrWrapped ''failed to generate salt'')
      | Inr (salt, saltBase64) \<Rightarrow>
          (case backupCodeRows d userID rest of
             Inl err \<Rightarrow> Inl err
           | Inr (codes, dbCodes) \<Rightarrow>
               Inr (code # codes,
                    \<lparr>bc_ID = 0, bc_UserID = userID,
                     bc_CodeHash = hashBackupCodeWithSalt d code salt,
                     bc_Salt = saltBase64, bc_UsedAt = None\<rparr> # dbCodes)))"

definition generateBackupCodes ::
  "deps \<Rightarrow> int \<Rightarrow> (nat \<Rightarrow> bytes \<times> (error + bytes)) \<Rightarrow> store \<Rightarrow> (error + string list) \<times> store" where
  "generateBackupCodes d userID draws s =
     (case backupCodeRows d userID (map draws [0..<10]) of
        Inl err \<Rightarrow> (Inl err, s)
      | Inr (codes, dbCodes) \<Rightarrow> (Inr codes, CreateBackupCodes dbCodes s))"

text \<open>\<^verbatim>\<open>GenerateBackupCodes\<close> (the regeneration endpoint).\<close>

definition GenerateBackupCodes ::
  "deps \<Rightarrow> int \<Rightarrow> string \<Rightarrow> string \<Rightarrow> (nat \<Rightarrow> bytes \<times> (error + bytes)) \<Rightarrow> store
     \<Rightarrow> (error + string list) \<times> store" where
  "GenerateBackupCodes d userID ip userAgent draws s =
     (case GetMFAByUserID s userID of
        None \<Rightarrow> (Inl ErrMFANotEnabled, s)
      | Some mfa \<Rightarrow>
          if \<not> mfa_IsEnabled mfa then (Inl ErrMFANotEnabled, s)
          else
            (let s1 = DeleteBackupCodes userID s in
             case generateBackupCodes d userID draws s1 of
               (Inl err, s2) \<Rightarrow> (Inl err, s2)
             | (Inr codes, s2) \<Rightarrow>
                 (Inr codes,
                  logAudit (Some userID) ''mfa_backup_regenerate'' ''user'' (Itoa userID) None
                    (Some [(''codes_generated'', JInt (int (length codes)))]) ip userAgent s2)))"

text \<open>\<^verbatim>\<open>ConfirmTOTP\<close>: the result is the Go \<^verbatim>\<open>error\<close> alone. An error of
  \<^verbatim>\<open>generateBackupCodes\<close> is logged and dropped; the codes it returns are counted
  for the audit entry.\<close>

definition ConfirmTOTP ::
  "deps \<Rightarrow> time \<Rightarrow> int \<Rightarrow> string \<Rightarrow> string \<Rightarrow> string \<Rightarrow> (nat \<Rightarrow> bytes \<times> (error + bytes)) \<Rightarrow> store
     \<Rightarrow> error option \<times> store" where
  "ConfirmTOTP d now userID code ip userAgent draws s =
     (case GetMFAByUserID s userID of
        None \<Rightarrow> (Some (ErrWrapped ''MFA not set up''), s)
      | Some mfa \<Rightarrow>
          if mfa_IsEnabled mfa then (Some ErrMFAAlreadyEnabled, s)
          else
     (case decryptTOTPSecret d (mfa_SecretEncrypted mfa) of
        Inl err \<Rightarrow> (Some (ErrWrapped ''failed to decrypt secret''), s)
      | Inr secret \<Rightarrow>
          if \<not> totp_Validate d now code secret then (Some ErrInvalidMFACode, s)
          else
            (let s1 = EnableMFA now userID s;
                 (r, s2) = generateBackupCodes d userID draws s1;
                 backupCodes = (case r of Inl err \<Rightarrow> [] | Inr codes \<Rightarrow> codes)
             in (None,
                 logAudit (Some userID) ''mfa_enable'' ''user'' (Itoa userID) None
                   (Some [(''backup_codes_generated'', JInt (int (length backupCodes)))])
                   ip userAgent s2))))"

text \<open>\<^verbatim>\<open>DisableTOTP\<close>.\<close>

definition DisableTOTP ::
  "deps \<Rightarrow> time \<Rightarrow> int \<Rightarrow> string \<Rightarrow> string \<Rightarrow> string \<Rightarrow> store \<Rightarrow> error option \<times> store" where
  "DisableTOTP d now userID code ip userAgent s =
     (case GetMFAByUserID s userID of
        None \<Rightarrow> (Some ErrMFANotEnabled, s)
      | Some mfa \<Rightarrow>
          if \<not> mfa_IsEnabled mfa then (Some ErrMFANotEnabled, s)
          else
     (case decryptTOTPSecret d (mfa_SecretEncrypted mfa) of
        Inl err \<Rightarrow> (Some (ErrWrapped ''failed to decrypt secret''), s)
      | Inr secret \<Rightarrow>
          if \<not> totp_Validate d now code secret then (Some ErrInvalidMFACode, s)
          else
            (let s1 = DisableMFA userID s;
                 s2 = DeleteBackupCodes userID s1
             in (None,
                 logAudit (Some userID) ''mfa_disable'' ''user'' (Itoa userID) None None
                   ip userAgent s2))))"

text \<open>\<^verbatim>\<open>checkPasswordHistory\<close>: the new password is verified against each of
  the last \<^verbatim>\<open>PasswordHistoryCount\<close> stored hashes.\<close>

definition checkPasswordHistory ::
  "deps \<Rightarrow> LocalAuthConfig \<Rightarrow> store \<Rightarrow> int \<Rightarrow> string \<Rightarrow> error option" where
  "checkPasswordHistory d cfg s userID newPassword =
     (case find (\<lambda>h. verifyPassword d newPassword (ph_PasswordHash h))
             (GetPasswordHistory s userID (PasswordHistoryCount cfg)) of
        None \<Rightarrow> None
      | Some h \<Rightarrow> Some ErrPasswordReused)"

text \<open>\<^verbatim>\<open>ChangePassword\<close>: \<open>salt\<close> is the result of reading the fresh salt.\<close>

definition ChangePassword ::
  "deps \<Rightarrow> LocalAuthConfig \<Rightarrow> time \<Rightarrow> error + bytes \<Rightarrow> int \<Rightarrow> string \<Rightarrow> string \<Rightarrow> string \<Rightarrow> string
     \<Rightarrow> store \<Rightarrow> error option \<times> store" where
  "ChangePassword d cfg now salt userID currentPass newPass ip userAgent s =
     (case GetCredentialByUserID s userID of
        None \<Rightarrow> (Some ErrCredentialsNotFound, s)
      | Some cred \<Rightarrow>
          if \<not> verifyPassword d currentPass (uc_PasswordHash cred) then
            (Some ErrInvalidCredentials, s)
          else if int (length newPass) < PasswordMinLength cfg then (Some ErrPasswordTooWeak, s)
          else
     (case checkPasswordHistory d cfg s userID newPass of
        Some err \<Rightarrow> (Some err, s)
      | None \<Rightarrow>
     (case hashPassword d salt newPass of
        Inl err \<Rightarrow> (Some (ErrWrapped ''failed to hash password''), s)
      | Inr newHash \<Rightarrow>
          (let s1 = CreatePasswordHistory
                      \<lparr>ph_UserID = userID, ph_PasswordHash = uc_PasswordHash cred\<rparr> s;
               cred' = cred\<lparr>uc_PasswordHash := newHash, uc_PasswordChangedAt := Some now,
                            uc_MustChangePassword := False\<rparr>;
               s2 = UpdateCredential cred' s1
           in (None,
               logAudit (Some userID) ''password_change'' ''user'' (Itoa userID) None None
                 ip userAgent s2)))))"

text \<open>\<^verbatim>\<open>SetPassword\<close>: \<open>salt\<close> is the result of reading the fresh salt.\<close>

definition SetPassword ::
  "deps \<Rightarrow> LocalAuthConfig \<Rightarrow> time \<Rightarrow> error + bytes \<Rightarrow> int \<Rightarrow> string \<Rightarrow> store
     \<Rightarrow> error option \<times> store" where
  "SetPassword d cfg now salt userID password s =
     (if int (length password) < PasswordMinLength cfg then (Some ErrPasswordTooWeak, s)
      else
     (case hashPassword d salt password of
        Inl err \<Rightarrow> (Some (ErrWrapped ''failed to hash password''), s)
      | Inr hash \<Rightarrow>
     (case GetCredentialByUserID s userID of
        Some existing \<Rightarrow>
          (None,
           UpdateCredential
             (existing\<lparr>uc_PasswordHash := hash, uc_PasswordChangedAt := Some now,
                       uc_MustChangePassword := True\<rparr>) s)
      | None \<Rightarrow>
          (None,
           CreateCredential
             \<lparr>uc_ID = 0, uc_UserID = userID, uc_PasswordHash = hash,
              uc_PasswordChangedAt = Some now, uc_FailedLoginAttempts = 0,
              uc_LockedUntil = None, uc_MustChangePassword = True\<rparr> s))))"

text \<open>\<^verbatim>\<open>LogoutAll\<close>: when the fast store does not delete the sessions the call
  returns the wrapped error, before the durable mirror rows are revoked and the
  audit entry is written.\<close>

definition LogoutAll ::
  "deps \<Rightarrow> time \<Rightarrow> int \<Rightarrow> string \<Rightarrow> string \<Rightarrow> store \<Rightarrow> error option \<times> store" where
  "LogoutAll d now userID ip userAgent s =
     (case DeleteAllUserSessions d now userID s of
        (Some err, s1) \<Rightarrow> (Some (ErrWrapped ''failed to delete sessions''), s1)
      | (None, s1) \<Rightarrow>
          (let s2 = RevokeAllUserSessions now userID ''logout all'' s1
           in (None,
               logAudit (Some userID) ''logout_all'' ''user'' (Itoa userID) None None ip userAgent
                 s2)))"

section \<open>RegistrationRepository and RegistrationService\<close>

text \<open>
  The password-reset part of \<^verbatim>\<open>registration_repo.go\<close>: the first row with the
  token, the update of \<^verbatim>\<open>used_at\<close> by primary key, the delete by user id, and the
  insert. The table declares \<^verbatim>\<open>token\<close> unique (migration 013), so an insert of a
  token that is already there is a database error; the primary key comes from the
  table's sequence.
\<close>

definition GetPasswordResetToken :: "store \<Rightarrow> string \<Rightarrow> PasswordResetToken option" where
  "GetPasswordResetToken s tokenStr =
     find (\<lambda>t. prt_Token t = tokenStr) (password_reset_tokens s)"

definition MarkPasswordResetTokenUsed :: "time \<Rightarrow> int \<Rightarrow> store \<Rightarrow> store" where
  "MarkPasswordResetTokenUsed now tokenID s =
     s\<lparr>password_reset_tokens :=
         map (\<lambda>t. if prt_ID t = tokenID then t\<lparr>prt_UsedAt := Some now\<rparr> else t)
           (password_reset_tokens s)\<rparr>"

definition DeleteUserPasswordResetTokens :: "int \<Rightarrow> store \<Rightarrow> store" where
  "DeleteUserPasswordResetTokens userID s =
     s\<lparr>password_reset_tokens := filter (\<lambda>t. prt_UserID t \<noteq> userID) (password_reset_tokens s)\<rparr>"

definition CreatePasswordResetToken :: "PasswordResetToken \<Rightarrow> store \<Rightarrow> error option \<times> store" where
  "CreatePasswordResetToken token s =
     (if find (\<lambda>t. prt_Token t = prt_Token token) (password_reset_tokens s) \<noteq> None
      then (Some ErrDatabase, s)
      else (None,
            s\<lparr>password_reset_tokens :=
                password_reset_tokens s @ [token\<lparr>prt_ID := reset_token_seq s + 1\<rparr>],
              reset_token_seq := reset_token_seq s + 1\<rparr>))"

text \<open>\<^verbatim>\<open>base64.URLEncoding.EncodeToString\<close>: the URL-safe alphabet, padded with
  \<^verbatim>\<open>=\<close> to a multiple of four characters.\<close>

definition b64urlchars :: string where
  "b64urlchars = ''ABCDEFGHIJKLMNOPQRSTUVWXYZabcdefghijklmnopqrstuvwxyz0123456789-_''"

definition URLEncoding_EncodeToString :: "bytes \<Rightarrow> string" where
  "URLEncoding_EncodeToString src =
     map (\<lambda>i. b64urlchars ! i) (encode_quanta src)
     @ replicate ((3 - length src mod 3) mod 3) CHR ''=''"

text \<open>\<^verbatim>\<open>generateSecureToken\<close>: \<open>b\<close> is what \<^verbatim>\<open>io.ReadFull(rand.Reader, b)\<close>
  delivered for the 32-byte buffer.\<close>

definition generateSecureToken :: "error + bytes \<Rightarrow> error + string" where
  "generateSecureToken b =
     (case b of
        Inl err \<Rightarrow> Inl err
      | Inr b \<Rightarrow> Inr (URLEncoding_EncodeToString b))"

definition Hour :: int where
  "Hour = 3600 * 1000000000"

text \<open>\<^verbatim>\<open>ForgotPassword\<close>.\<close>

definition ForgotPassword :: "time \<Rightarrow> error + bytes \<Rightarrow> string \<Rightarrow> store \<Rightarrow> error option \<times> store" where
  "ForgotPassword now b email s =
     (case GetUserByEmail s email of
        None \<Rightarrow> (None, s)
      | Some user \<Rightarrow>
          (let s1 = DeleteUserPasswordResetTokens (u_Id user) s in
           case generateSecureToken b of
             Inl err \<Rightarrow> (Some (ErrWrapped ''failed to generate token''), s1)
           | Inr token \<Rightarrow>
               (case CreatePasswordResetToken
                       \<lparr>prt_ID = 0, prt_UserID = u_Id user, prt_Token = token,
                        prt_ExpiresAt = now + 1 * Hour, prt_UsedAt = None\<rparr> s1 of
                  (Some err, s2) \<Rightarrow> (Some (ErrWrapped ''failed to create reset token''), s2)
                | (None, s2) \<Rightarrow> (None, s2))))"

text \<open>\<^verbatim>\<open>ResetPassword\<close>: \<open>salt\<close> is the result of reading the fresh salt in
  \<^verbatim>\<open>SetPassword\<close>. The result of \<^verbatim>\<open>LogoutAll\<close> is dropped.\<close>

definition ResetPassword ::
  "deps \<Rightarrow> LocalAuthConfig \<Rightarrow> time \<Rightarrow> error + bytes \<Rightarrow> string \<Rightarrow> string \<Rightarrow> string \<Rightarrow> store
     \<Rightarrow> error option \<times> store" where
  "ResetPassword d cfg now salt tokenStr newPassword confirmPassword s =
     (if newPassword \<noteq> confirmPassword then (Some ErrPasswordMismatch, s)
      else if int (length newPassword) < PasswordMinLength cfg then (Some ErrPasswordTooWeak, s)
      else
     (case GetPasswordResetToken s tokenStr of
        None \<Rightarrow> (Some ErrInvalidResetToken, s)
      | Some token \<Rightarrow>
          if prt_IsExpired now token \<or> prt_IsUsed token then (Some ErrInvalidResetToken, s)
          else
            (let s1 = MarkPasswordResetTokenUsed now (prt_ID token) s in
             case SetPassword d cfg now salt (prt_UserID token) newPassword s1 of
               (Some err, s2) \<Rightarrow> (Some (ErrWrapped ''failed to set password''), s2)
             | (None, s2) \<Rightarrow>
                 (let s3 = DeleteUserPasswordResetTokens (prt_UserID token) s2;
                      (r, s4) = LogoutAll d now (prt_UserID token) [] ''password reset'' s3
                  in (None, s4)))))"

section \<open>Runs of operations\<close>

text \<open>Consecutive \<^verbatim>\<open>Login\<close> calls against one store: each attempt has its instant,
  its fresh identifier and its request; the results are dropped.\<close>

fun Login_attempts ::
  "deps \<Rightarrow> LocalAuthConfig \<Rightarrow> (time \<times> string \<times> LoginRequest) list \<Rightarrow> store \<Rightarrow> store" where
  "Login_attempts d cfg [] s = s"
| "Login_attempts d cfg ((now, uuid, req) # rest) s =
     Login_attempts d cfg rest (snd (Login d cfg now uuid req s))"



text \<open>One step of the service on the store: any of the modelled operations, with
  any arguments. Among them VerifyBackupCode, ConfirmTOTP, GenerateBackupCodes and
  DisableTOTP are the operations of the sources that write the backup-code table.\<close>

inductive service_step :: "deps \<Rightarrow> LocalAuthConfig \<Rightarrow> store \<Rightarrow> store \<Rightarrow> bool"
  for d :: deps and cfg :: LocalAuthConfig where
  step_Login: "service_step d cfg s (snd (Login d cfg now uuid req s))"
| step_VerifyMFA: "service_step d cfg s (snd (VerifyMFA d cfg now uuid vreq s))"
| step_VerifyBackupCode:
    "service_step d cfg s (snd (VerifyBackupCode d cfg now uuid mfaToken code ip userAgent s))"
| step_ConfirmTOTP:
    "service_step d cfg s (snd (ConfirmTOTP d now userID code ip userAgent draws s))"
| step_DisableTOTP:
    "service_step d cfg s (snd (DisableTOTP d now userID code ip userAgent s))"
| step_GenerateBackupCodes:
    "service_step d cfg s (snd (GenerateBackupCodes d userID ip userAgent draws s))"
| step_ChangePassword:
    "service_step d cfg s
       (snd (ChangePassword d cfg now salt userID currentPass newPass ip userAgent s))"
| step_SetPassword: "service_step d cfg s (snd (SetPassword d cfg now salt userID password s))"
| step_LogoutAll: "service_step d cfg s (snd (LogoutAll d now userID ip userAgent s))"
| step_ForgotPassword: "service_step d cfg s (snd (ForgotPassword now b email s))"
| step_ResetPassword:
    "service_step d cfg s
       (snd (ResetPassword d cfg now salt tokenStr newPassword confirmPassword s))"

text \<open>The integrity of the backup-code table that the database maintains: the
  primary keys are distinct and were drawn from the table's sequence.\<close>

definition codes_ok :: "UserMFABackupCode list \<times> int \<Rightarrow> bool" where
  "codes_ok p = (distinct (map bc_ID (fst p)) \<and> list_all (\<lambda>b. bc_ID b \<le> snd p) (fst p))"

definition backup_codes_wf :: "store \<Rightarrow> bool" where
  "backup_codes_wf s = codes_ok (user_mfa_backup_codes s, backup_code_seq s)"

text \<open>The writes to the backup-code table and its sequence, as a relation on the
  pair of both: marking the row of a primary key used, deleting the rows of a user,
  inserting rows, and sequences of these.\<close>

inductive codes_change ::
  "UserMFABackupCode list \<times> int \<Rightarrow> UserMFABackupCode list \<times> int \<Rightarrow> bool" where
  change_none: "codes_change p p"
| change_use:
    "codes_change (cs, n) (map (\<lambda>b. if bc_ID b = i then b\<lparr>bc_UsedAt := Some t\<rparr> else b) cs, n)"
| change_delete: "codes_change (cs, n) (filter (\<lambda>b. bc_UserID b \<noteq> u) cs, n)"
| change_create: "codes_change (cs, n) (cs @ assign_ids (n + 1) rows, n + int (length rows))"
| change_trans: "codes_change p q \<Longrightarrow> codes_change q r \<Longrightarrow> codes_change p r"

text \<open>A later state of the table descends from an earlier one when the sequence has
  not gone back and every row that carries a primary key of the earlier sequence
  is the successor of the earlier row with that key, still used if that one was.\<close>

definition descends ::
  "UserMFABackupCode list \<times> int \<Rightarrow> UserMFABackupCode list \<times> int \<Rightarrow> bool" where
  "descends p q =
     (snd p \<le> snd q \<and>
      list_all (\<lambda>b'. bc_ID b' \<le> snd p \<longrightarrow>
                  list_ex (\<lambda>b. bc_ID b = bc_ID b' \<and> (bc_UsedAt b \<noteq> None \<longrightarrow> bc_UsedAt b' \<noteq> None))
                    (fst p))
        (fst q))"

section \<open>An example installation\<close>

text \<open>
  A concrete instance on which the theorems below are exercised: a toy key
  derivation (\<open>keyLen\<close> copies of the byte sum of password and salt), a
  TOTP validator that accepts the secret itself as the code, a secret box that
  stores secrets in the clear, and a fast store that answers every call; the configuration of the README (five attempts, a
  lockout of fifteen minutes, passwords of eight bytes or more); and a store with
  one active user, \<^verbatim>\<open>bat@gerege.mn\<close>.
\<close>

definition example_deps :: deps where
  "example_deps =
     \<lparr>IDKey = (\<lambda>password salt t m p keyLen. replicate keyLen (sum_list (password @ salt))),
      totp_Validate = (\<lambda>now code secret. code = secret),
      aesgcm_Open = (\<lambda>encrypted. Inr encrypted),
      kv_Create_error = (\<lambda>session. None),
      kv_DeleteAll_error = (\<lambda>now userID. None)\<rparr>"

text \<open>The same installation while the fast store cannot be reached.\<close>

definition example_deps_unreachable :: deps where
  "example_deps_unreachable =
     example_deps\<lparr>kv_Create_error := (\<lambda>session. Some ErrUnreachable),
                  kv_DeleteAll_error := (\<lambda>now userID. Some ErrUnreachable)\<rparr>"

definition example_cfg :: LocalAuthConfig where
  "example_cfg =
     \<lparr>LockoutThreshold = 5, LockoutDuration = 900000000000, MFATokenTTL = 300000000000,
      SessionTTL = 86400000000000, PasswordMinLength = 8, PasswordHistoryCount = 5\<rparr>"

definition example_salt :: bytes where
  "example_salt = [1, 2, 3, 4, 5, 6, 7, 8, 9, 10, 11, 12, 13, 14, 15, 16]"

definition example_hash :: string where
  "example_hash =
     (case hashPassword example_deps (Inr example_salt) ''correct horse'' of
        Inl err \<Rightarrow> []
      | Inr h \<Rightarrow> h)"

definition example_user :: User where
  "example_user =
     \<lparr>u_Id = 1, u_Email = ''bat@gerege.mn'', u_Status = ''active'', u_LastLoginAt = None,
      u_LoginCount = 0\<rparr>"

definition example_cred :: UserCredential where
  "example_cred =
     \<lparr>uc_ID = 1, uc_UserID = 1, uc_PasswordHash = example_hash, uc_PasswordChangedAt = Some 0,
      uc_FailedLoginAttempts = 0, uc_LockedUntil = None, uc_MustChangePassword = False\<rparr>"

definition example_store :: store where
  "example_store =
     \<lparr>users = [example_user], user_credentials = [example_cred], user_mfa_totp = [],
      user_mfa_backup_codes = [], backup_code_seq = 0, password_history = [],
      password_reset_tokens = [], reset_token_seq = 0, sessions = [], login_history = [],
      security_audit_trail = [], kv_sessions = [], kv_mfa_tokens = []\<rparr>"

definition example_request :: "string \<Rightarrow> LoginRequest" where
  "example_request password =
     \<lparr>lreq_Email = ''bat@gerege.mn'', lreq_Password = password, lreq_IPAddress = ''10.0.0.7'',
      lreq_UserAgent = ''curl''\<rparr>"

text \<open>A second active user, \<^verbatim>\<open>dorj@gerege.mn\<close>, who has no Credential row.\<close>

definition example_user2 :: User where
  "example_user2 =
     \<lparr>u_Id = 2, u_Email = ''dorj@gerege.mn'', u_Status = ''active'', u_LastLoginAt = None,
      u_LoginCount = 0\<rparr>"

definition example_store2 :: store where
  "example_store2 = example_store\<lparr>users := [example_user, example_user2]\<rparr>"

text \<open>Five attempts with a wrong password, ten seconds apart.\<close>

definition example_failures :: "(time \<times> string \<times> LoginRequest) list" where
  "example_failures =
     [(10000000000, ''uuid-1'', example_request ''wrong''),
      (20000000000, ''uuid-2'', example_request ''wrong''),
      (30000000000, ''uuid-3'', example_request ''wrong''),
      (40000000000, ''uuid-4'', example_request ''wrong''),
      (50000000000, ''uuid-5'', example_request ''wrong'')]"

text \<open>The example store after the user has enabled TOTP and passed the password
  step of a login: an enabled MFAConfig and a pending MFA token.\<close>

definition example_pending :: MFAPendingData where
  "example_pending =
     \<lparr>mp_UserID = 1, mp_Email = ''bat@gerege.mn'', mp_IPAddress = ''10.0.0.7'',
      mp_UserAgent = ''curl'', mp_ExpiresAt = 300000000000\<rparr>"

definition example_mfa :: UserMFATotp where
  "example_mfa =
     \<lparr>mfa_ID = 1, mfa_UserID = 1, mfa_SecretEncrypted = ''JBSWY3DPEHPK3PXP'',
      mfa_IsEnabled = True, mfa_VerifiedAt = Some 0\<rparr>"

definition example_mfa_store :: store where
  "example_mfa_store =
     example_store\<lparr>user_mfa_totp := [example_mfa],
                   kv_mfa_tokens := [(''mfa-token-1'', example_pending)]\<rparr>"

definition example_mfa_request :: "string \<Rightarrow> VerifyMFARequest" where
  "example_mfa_request code =
     \<lparr>vreq_MFAToken = ''mfa-token-1'', vreq_Code = code, vreq_IPAddress = ''10.0.0.7'',
      vreq_UserAgent = ''curl''\<rparr>"

text \<open>The example store with an outstanding password-reset token of the user, one
  open session in both stores, and the 32 random bytes of the next token.\<close>

definition example_reset_token :: PasswordResetToken where
  "example_reset_token =
     \<lparr>prt_ID = 1, prt_UserID = 1, prt_Token = ''b2xkLXRva2Vu'', prt_ExpiresAt = 3600000000000,
      prt_UsedAt = None\<rparr>"

definition example_session :: SessionData where
  "example_session =
     \<lparr>sd_SessionID = ''session-1'', sd_UserID = 1, sd_Email = ''bat@gerege.mn'',
      sd_IPAddress = ''10.0.0.7'', sd_UserAgent = ''curl'', sd_CreatedAt = 0,
      sd_ExpiresAt = 86400000000000, sd_LastActivityAt = 0\<rparr>"

definition example_session_row :: Session where
  "example_session_row =
     \<lparr>se_ID = ''session-1'', se_UserID = 1, se_IPAddress = ''10.0.0.7'', se_UserAgent = ''curl'',
      se_ExpiresAt = 86400000000000, se_LastActivityAt = 0, se_RevokedAt = None,
      se_RevokedReason = []\<rparr>"

definition example_reset_store :: store where
  "example_reset_store =
     example_store\<lparr>password_reset_tokens := [example_reset_token], reset_token_seq := 1,
                   sessions := [example_session_row], kv_sessions := [example_session]\<rparr>"

definition example_token_bytes :: bytes where
  "example_token_bytes = replicate 32 7"

text \<open>The same store with the second user and a reset token of the second user
  that carries the encoding of these 32 bytes.\<close>

definition example_collision_store :: store where
  "example_collision_store =
     example_reset_store
       \<lparr>users := [example_user, example_user2],
        password_reset_tokens :=
          [example_reset_token,
           \<lparr>prt_ID = 2, prt_UserID = 2,
            prt_Token = URLEncoding_EncodeToString example_token_bytes,
            prt_ExpiresAt = 3600000000000, prt_UsedAt = None\<rparr>],
        reset_token_seq := 2\<rparr>"

definition example_new_hash :: string where
  "example_new_hash =
     (case hashPassword example_deps (Inr example_salt) ''new password'' of
        Inl err \<Rightarrow> []
      | Inr h \<Rightarrow> h)"

text \<open>The example store after SetupTOTP (an MFAConfig that is not enabled yet), the
  random material of ten backup codes, and a random source whose salt reads fail.\<close>

definition example_totp_pending_store :: store where
  "example_totp_pending_store =
     example_store\<lparr>user_mfa_totp := [example_mfa\<lparr>mfa_IsEnabled := False, mfa_VerifiedAt := None\<rparr>]\<rparr>"

definition example_draws :: "nat \<Rightarrow> bytes \<times> (error + bytes)" where
  "example_draws i = (replicate 5 (of_nat i), Inr (replicate 16 (of_nat (i + 100))))"

definition example_failing_draws :: "nat \<Rightarrow> bytes \<times> (error + bytes)" where
  "example_failing_draws i = (replicate 5 (of_nat i), Inl ErrRandRead)"

text \<open>The example store with two unused backup codes of the user, \<^verbatim>\<open>AAAAAAAA\<close> and
  \<^verbatim>\<open>BBBBBBBB\<close>, each hashed under its own salt, and two pending MFA tokens of the
  user (the password step of two logins).\<close>

definition example_backup_code :: "int \<Rightarrow> string \<Rightarrow> bytes \<Rightarrow> UserMFABackupCode" where
  "example_backup_code i code salt =
     \<lparr>bc_ID = i, bc_UserID = 1, bc_CodeHash = hashBackupCodeWithSalt example_deps code salt,
      bc_Salt = EncodeToString salt, bc_UsedAt = None\<rparr>"

definition example_backup_store :: store where
  "example_backup_store =
     example_mfa_store
       \<lparr>user_mfa_backup_codes :=
          [example_backup_code 1 ''AAAAAAAA'' (replicate 16 1),
           example_backup_code 2 ''BBBBBBBB'' (replicate 16 2)],
        backup_code_seq := 2,
        kv_mfa_tokens := [(''mfa-token-1'', example_pending), (''mfa-token-2'', example_pending)]\<rparr>"

text \<open>The same store when the code \<^verbatim>\<open>AAAAAAAA\<close> was issued twice (two draws of the
  same five random bytes), each time under its own salt.\<close>

definition example_twice_store :: store where
  "example_twice_store =
     example_backup_store
       \<lparr>user_mfa_backup_codes :=
          [example_backup_code 1 ''AAAAAAAA'' (replicate 16 1),
           example_backup_code 2 ''AAAAAAAA'' (replicate 16 2)]\<rparr>"

section \<open>Auxiliary facts: encodings\<close>

declare nat_dec.simps [simp del]

lemma index_of_nth: "distinct xs \<Longrightarrow> n < length xs \<Longrightarrow> index_of (xs ! n) xs = Some n"
proof (induction xs arbitrary: n)
  case Nil then show ?case by simp
next
  case (Cons y ys)
  show ?case
  proof (cases n)
    case 0 then show ?thesis by simp
  next
    case (Suc m)
    with Cons.prems have "ys ! m \<in> set ys" "y \<notin> set ys" by auto
    then have "ys ! m \<noteq> y" by auto
    with Cons Suc show ?thesis by simp
  qed
qed

lemma index_of_Some_mem: "index_of x xs = Some n \<Longrightarrow> x \<in> set xs"
  by (induction xs arbitrary: n) (auto split: if_splits)

lemma length_b64chars: "length b64chars = 64"
  by (simp add: b64chars_def)

lemma distinct_b64chars: "distinct b64chars"
  by (simp add: b64chars_def)

lemma unat_byte: "unat (a :: 8 word) < 256"
  using unsigned_less[of a, where 'a=nat] by simp

lemma encode_quanta_lt: "q \<in> set (encode_quanta bs) \<Longrightarrow> q < 64"
proof (induction bs arbitrary: q rule: encode_quanta.induct)
  case 1 then show ?case by simp
next
  case (2 a)
  have "unat a < 256" using unat_byte[of a] by simp
  with 2 show ?case by auto
next
  case (3 a b)
  have "unat a < 256" "unat b < 256" using unat_byte[of a] unat_byte[of b] by simp_all
  with 3 show ?case by auto
next
  case (4 a b c rest)
  have "unat a < 256" "unat b < 256" "unat c < 256" using unat_byte[of a] unat_byte[of b] unat_byte[of c] by simp_all
  with 4 show ?case by auto
qed

lemma decode_encode_quanta: "decode_quanta (encode_quanta bs) = Some bs"
proof (induction bs rule: encode_quanta.induct)
  case 1 then show ?case by simp
next
  case (2 a)
  have "unat a div 4 * 4 + unat a mod 4 * 16 div 16 = unat a" by presburger
  then show ?case by simp
next
  case (3 a b)
  have "unat a div 4 * 4 + (unat a mod 4 * 16 + unat b div 16) div 16 = unat a" 
   "(unat a mod 4 * 16 + unat b div 16) mod 16 * 16 + unat b mod 16 * 4 div 4 = unat b"
    using unat_byte[of b] by simp_all
  then show ?case by simp
next
  case (4 a b c rest)
  have "unat a div 4 * 4 + (unat a mod 4 * 16 + unat b div 16) div 16 = unat a" 
   "(unat a mod 4 * 16 + unat b div 16) mod 16 * 16 + (unat b mod 16 * 4 + unat c div 64) div 4 = unat b"
   "(unat b mod 16 * 4 + unat c div 64) mod 4 * 64 + unat c mod 64 = unat c"
    using unat_byte[of b] unat_byte[of c] by simp_all
  with 4 show ?case by simp
qed

lemma those_index_nth:
  "distinct xs \<Longrightarrow> \<forall>q\<in>set qs. q < length xs \<Longrightarrow>
   those (map (\<lambda>c. index_of c xs) (map (\<lambda>i. xs ! i) qs)) = Some qs"
  by (induction qs) (simp_all add: index_of_nth)

lemma EncodeToString_alphabet: "set (EncodeToString bs) \<subseteq> set b64chars"
  using encode_quanta_lt by (fastforce simp: EncodeToString_def length_b64chars)

lemma b64chars_no_special:
  "CHR 0x0D \<notin> set b64chars" "CHR 0x0A \<notin> set b64chars" "CHR ''$'' \<notin> set b64chars"
  by (simp_all add: b64chars_def)

lemma DecodeString_EncodeToString: "DecodeString (EncodeToString bs) = Some bs"
proof -
  have "filter (\<lambda>c. c \<noteq> CHR 0x0D \<and> c \<noteq> CHR 0x0A) (EncodeToString bs) = EncodeToString bs"
    using EncodeToString_alphabet[of bs] b64chars_no_special by (auto simp: filter_id_conv)
  moreover have "those (map (\<lambda>c. index_of c b64chars) (EncodeToString bs)) = Some (encode_quanta bs)"
    unfolding EncodeToString_def
    by (rule those_index_nth) (auto simp: distinct_b64chars length_b64chars dest: encode_quanta_lt)
  ultimately show ?thesis
    by (simp add: DecodeString_def decode_encode_quanta)
qed

lemma EncodeToString_no_dollar: "CHR ''$'' \<notin> set (EncodeToString bs)"
  using EncodeToString_alphabet[of bs] b64chars_no_special by auto

lemma Split_no_sep: "sep \<notin> set a \<Longrightarrow> Split a sep = [a]"
  by (induction a) auto

lemma Split_append: "sep \<notin> set a \<Longrightarrow> Split (a @ sep # b) sep = a # Split b sep"
  by (induction a) auto

lemma Sscanf_version_19: "Sscanf_version ''v=19'' = Some 19"
  by (simp add: Sscanf_version_def scan_int_def scan_uint_def is_digit_def dec_value_def digit_chars_def)

lemma Sscanf_params_default: "Sscanf_params ''m=65536,t=1,p=4'' = Some (65536, 1, 4)"
  by (simp add: Sscanf_params_def scan_uint_def is_digit_def dec_value_def digit_chars_def)

lemma Itoa_consts:
  "Itoa (int argon2_Version) = ''19''" "Itoa (int argon2Memory) = ''65536''"
  "Itoa (int argon2Time) = ''1''" "Itoa (int argon2Threads) = ''4''"
  by (simp_all add: Itoa_def nat_dec.simps argon2_Version_def argon2Memory_def argon2Time_def argon2Threads_def digit_chars_def)

lemma Split_hash:
  "Split (''$argon2id$v=19$m=65536,t=1,p=4$'' @ EncodeToString salt @ ''$'' @ EncodeToString hash) CHR ''$''
   = ['''', ''argon2id'', ''v=19'', ''m=65536,t=1,p=4'', EncodeToString salt, EncodeToString hash]"
proof -
  have "Split (EncodeToString salt @ CHR ''$'' # EncodeToString hash) CHR ''$''
        = [EncodeToString salt, EncodeToString hash]"
    by (simp add: Split_append Split_no_sep EncodeToString_no_dollar)
  then show ?thesis by simp 
qed


lemma verifyPassword_encoded:
  assumes "hashPassword d (Inr salt) p = Inr h"
  shows "verifyPassword d p' h \<longleftrightarrow>
         IDKey d (bytes_of p) salt argon2Time argon2Memory argon2Threads argon2KeyLen
         = IDKey d (bytes_of p') salt 1 65536 4
             (length (IDKey d (bytes_of p) salt argon2Time argon2Memory argon2Threads argon2KeyLen) mod 2 ^ 32)"
proof -
  let ?hash = "IDKey d (bytes_of p) salt argon2Time argon2Memory argon2Threads argon2KeyLen"
  have h: "h = ''$argon2id$v=19$m=65536,t=1,p=4$'' @ EncodeToString salt @ ''$'' @ EncodeToString ?hash"
    using assms by (simp add: hashPassword_def Let_def Itoa_consts)
  show ?thesis
    unfolding verifyPassword_def h Split_hash Let_def
    by (simp add: Sscanf_version_19 Sscanf_params_default DecodeString_EncodeToString)
qed

lemma infinite_long_strings: "infinite {p :: string. n \<le> length p}"
proof
  assume fin: "finite {p :: string. n \<le> length p}"
  have "finite {p :: string. set p \<subseteq> UNIV \<and> length p \<le> n}"
    by (rule finite_lists_length_le) simp
  with fin have "finite ({p :: string. n \<le> length p} \<union> {p :: string. set p \<subseteq> UNIV \<and> length p \<le> n})"
    by (rule finite_UnI)
  moreover have "{p :: string. n \<le> length p} \<union> {p :: string. set p \<subseteq> UNIV \<and> length p \<le> n} = UNIV"
    by auto
  ultimately have "finite (UNIV :: string set)" by (simp only:)
  then show False using infinite_UNIV_listI by blast
qed

lemma digest_collision:
  fixes f :: "string \<Rightarrow> bytes"
  assumes "\<forall>p. length (f p) = k"
  shows "\<exists>p p'. p \<noteq> p' \<and> n \<le> length p \<and> n \<le> length p' \<and> f p = f p'"
proof -
  let ?A = "{p :: string. n \<le> length p}"
  have "finite {bs :: bytes. set bs \<subseteq> UNIV \<and> length bs = k}"
    by (rule finite_lists_length_eq) simp
  moreover have "f ` ?A \<subseteq> {bs :: bytes. set bs \<subseteq> UNIV \<and> length bs = k}"
    using assms by auto
  ultimately have "finite (f ` ?A)" by (rule rev_finite_subset)
  with infinite_long_strings[of n] obtain a0 where a0: "a0 \<in> ?A" "infinite {a \<in> ?A. f a = f a0}"
    using pigeonhole_infinite[of ?A f] by blast
  then have "infinite ({a \<in> ?A. f a = f a0} - {a0})" by simp
  then have "{a \<in> ?A. f a = f a0} - {a0} \<noteq> {}"
    by (rule infinite_imp_nonempty)
  then obtain a1 where "a1 \<in> {a \<in> ?A. f a = f a0} - {a0}"
    by blast
  with a0 show ?thesis by (intro exI[of _ a1] exI[of _ a0]) auto
qed

section \<open>Auxiliary facts: the store under Login\<close>

lemma find_map_if:
  "(\<And>x. P x \<Longrightarrow> P (f x)) \<Longrightarrow> find P (map (\<lambda>x. if P x then f x else x) xs) = map_option f (find P xs)"
  by (induction xs) auto

lemma users_frame [simp]:
  "users (IncrementFailedAttempts uid s) = users s"
  "users (LockAccount uid t s) = users s"
  "users (ResetFailedAttempts uid s) = users s"
  "users (CreateLoginHistory h s) = users s"
  "users (CreateAuditTrail au s) = users s"
  "users (logFailedLogin u e i a r s) = users s"
  "users (logAudit u ac tt ti ov nv i a s) = users s"
  by (simp_all add: IncrementFailedAttempts_def LockAccount_def ResetFailedAttempts_def
      CreateLoginHistory_def CreateAuditTrail_def logFailedLogin_def logAudit_def)

lemma credentials_frame [simp]:
  "user_credentials (CreateLoginHistory h s) = user_credentials s"
  "user_credentials (CreateAuditTrail au s) = user_credentials s"
  "user_credentials (logFailedLogin u e i a r s) = user_credentials s"
  "user_credentials (logAudit u ac tt ti ov nv i a s) = user_credentials s"
  by (simp_all add: CreateLoginHistory_def CreateAuditTrail_def logFailedLogin_def logAudit_def)

lemma GetCredential_Increment:
  "GetCredentialByUserID (IncrementFailedAttempts uid s) uid =
   map_option (\<lambda>c. c\<lparr>uc_FailedLoginAttempts := uc_FailedLoginAttempts c + 1\<rparr>) (GetCredentialByUserID s uid)"
  by (simp add: GetCredentialByUserID_def IncrementFailedAttempts_def find_map_if)

lemma GetCredential_Lock:
  "GetCredentialByUserID (LockAccount uid t s) uid =
   map_option (\<lambda>c. c\<lparr>uc_LockedUntil := Some t\<rparr>) (GetCredentialByUserID s uid)"
  by (simp add: GetCredentialByUserID_def LockAccount_def find_map_if)

lemma GetCredential_Reset:
  "GetCredentialByUserID (ResetFailedAttempts uid s) uid =
   map_option (\<lambda>c. c\<lparr>uc_FailedLoginAttempts := 0\<rparr>) (GetCredentialByUserID s uid)"
  by (simp add: GetCredentialByUserID_def ResetFailedAttempts_def find_map_if)

lemma GetCredential_log [simp]:
  "GetCredentialByUserID (logFailedLogin u e i a r s) uid = GetCredentialByUserID s uid"
  "GetCredentialByUserID (logAudit u ac tt ti ov nv i a s) uid = GetCredentialByUserID s uid"
  by (simp_all add: GetCredentialByUserID_def)

lemma GetUser_frame [simp]:
  "GetUserByEmail (IncrementFailedAttempts uid s) e = GetUserByEmail s e"
  "GetUserByEmail (LockAccount uid t s) e = GetUserByEmail s e"
  "GetUserByEmail (ResetFailedAttempts uid s) e = GetUserByEmail s e"
  "GetUserByEmail (logFailedLogin u em i a r s) e = GetUserByEmail s e"
  "GetUserByEmail (logAudit u ac tt ti ov nv i a s) e = GetUserByEmail s e"
  by (simp_all add: GetUserByEmail_def)

lemma Login_wrong_password:
  assumes "GetUserByEmail s (lreq_Email req) = Some user"
    and "u_Status user = UserStatusActive"
    and "GetCredentialByUserID s (u_Id user) = Some cred"
    and "\<not> IsLocked now cred"
    and "\<not> verifyPassword d (lreq_Password req) (uc_PasswordHash cred)"
  shows "fst (Login d cfg now uuid req s) = Inl ErrInvalidCredentials"
    and "GetUserByEmail (snd (Login d cfg now uuid req s)) e = GetUserByEmail s e"
    and "GetCredentialByUserID (snd (Login d cfg now uuid req s)) (u_Id user) =
         Some (cred\<lparr>uc_FailedLoginAttempts := uc_FailedLoginAttempts cred + 1,
                    uc_LockedUntil :=
                      (if LockoutThreshold cfg \<le> uc_FailedLoginAttempts cred + 1
                       then Some (now + LockoutDuration cfg) else uc_LockedUntil cred)\<rparr>)"
  using assms
  by (simp_all add: Login_def Let_def GetCredential_Increment GetCredential_Lock)

lemma credentials_frame2 [simp]:
  "user_credentials (StoreMFAToken tok p s) = user_credentials s"
  "user_credentials (snd (SessionStore_Create d sd s)) = user_credentials s"
  "user_credentials (CreateSession row s) = user_credentials s"
  "user_credentials (UpdateUserLoginStats now uid s) = user_credentials s"
  "user_credentials (logSuccessfulLogin uid e i a m s) = user_credentials s"
  "user_credentials (snd (createSession d cfg now sid user i a s)) = user_credentials s"
  by (simp_all add: StoreMFAToken_def SessionStore_Create_def CreateSession_def
      UpdateUserLoginStats_def logSuccessfulLogin_def createSession_def Let_def
      split: option.splits)

lemma GetCredential_cong: "user_credentials s' = user_credentials s \<Longrightarrow>
   GetCredentialByUserID s' uid = GetCredentialByUserID s uid"
  by (simp add: GetCredentialByUserID_def)

lemma createSession_credentials:
  "createSession d cfg now sid user i a s = (x1, x2) \<Longrightarrow> user_credentials x2 = user_credentials s"
  using credentials_frame2(6)[of d cfg now sid user i a s] by simp

lemma Login_right_password:
  assumes "GetUserByEmail s (lreq_Email req) = Some user"
    and "u_Status user = UserStatusActive"
    and "GetCredentialByUserID s (u_Id user) = Some cred"
    and "\<not> IsLocked now cred"
    and "verifyPassword d (lreq_Password req) (uc_PasswordHash cred)"
  shows "GetCredentialByUserID (snd (Login d cfg now uuid req s)) (u_Id user) =
         Some (cred\<lparr>uc_FailedLoginAttempts := 0\<rparr>)"
proof -
  let ?s1 = "ResetFailedAttempts (u_Id user) s"
  obtain r s2 where cs:
    "createSession d cfg now uuid user (lreq_IPAddress req) (lreq_UserAgent req) ?s1 = (r, s2)"
    by (cases "createSession d cfg now uuid user (lreq_IPAddress req) (lreq_UserAgent req) ?s1")
  have "user_credentials s2 = user_credentials ?s1"
    using cs by (rule createSession_credentials)
  then have "user_credentials (snd (Login d cfg now uuid req s)) = user_credentials ?s1"
    using assms cs by (cases r) (simp_all add: Login_def Let_def)
  then have "GetCredentialByUserID (snd (Login d cfg now uuid req s)) (u_Id user) =
             GetCredentialByUserID ?s1 (u_Id user)"
    by (rule GetCredential_cong)
  then show ?thesis
    using assms(3) by (simp add: GetCredential_Reset)
qed

lemma Login_attempts_append:
  "Login_attempts d cfg (xs @ ys) s = Login_attempts d cfg ys (Login_attempts d cfg xs s)"
  by (induction xs arbitrary: s) auto

lemma Login_attempts_failures:
  assumes "GetUserByEmail s email = Some user"
    and "u_Status user = UserStatusActive"
    and "GetCredentialByUserID s (u_Id user) = Some cred"
    and "uc_LockedUntil cred = None"
    and "uc_FailedLoginAttempts cred + int (length attempts) < LockoutThreshold cfg"
    and "\<forall>a \<in> set attempts. lreq_Email (snd (snd a)) = email \<and>
           \<not> verifyPassword d (lreq_Password (snd (snd a))) (uc_PasswordHash cred)"
  shows "GetUserByEmail (Login_attempts d cfg attempts s) email = Some user \<and>
         GetCredentialByUserID (Login_attempts d cfg attempts s) (u_Id user) =
           Some (cred\<lparr>uc_FailedLoginAttempts := uc_FailedLoginAttempts cred + int (length attempts)\<rparr>)"
  using assms
proof (induction attempts arbitrary: s cred)
  case Nil
  then show ?case by simp
next
  case (Cons a attempts)
  obtain now uuid req where a: "a = (now, uuid, req)" by (cases a) auto
  let ?s1 = "snd (Login d cfg now uuid req s)"
  let ?c1 = "cred\<lparr>uc_FailedLoginAttempts := uc_FailedLoginAttempts cred + 1\<rparr>"
  from Cons.prems a have req: "lreq_Email req = email"
    "\<not> verifyPassword d (lreq_Password req) (uc_PasswordHash cred)" by auto
  have nl: "\<not> IsLocked now cred" using Cons.prems(4) by (simp add: IsLocked_def)
  have u1: "GetUserByEmail ?s1 email = Some user"
    using Login_wrong_password(2)[of s req user cred now d cfg uuid email] Cons.prems req nl by simp
  have c1: "GetCredentialByUserID ?s1 (u_Id user) = Some ?c1"
    using Login_wrong_password(3)[of s req user cred now d cfg uuid] Cons.prems req nl by simp
  have "GetUserByEmail (Login_attempts d cfg attempts ?s1) email = Some user \<and>
        GetCredentialByUserID (Login_attempts d cfg attempts ?s1) (u_Id user) =
          Some (?c1\<lparr>uc_FailedLoginAttempts := uc_FailedLoginAttempts ?c1 + int (length attempts)\<rparr>)"
    using Cons.prems by (intro Cons.IH[OF u1 _ c1]) auto
  then show ?case by (simp add: a add.assoc)
qed

section \<open>Auxiliary facts: the example installation\<close>

lemma example_hash_eq: "hashPassword example_deps (Inr example_salt) ''correct horse'' = Inr example_hash"
  by (simp add: example_hash_def hashPassword_def Let_def)

lemma example_verify:
  "verifyPassword example_deps pw example_hash \<longleftrightarrow>
   sum_list (bytes_of ''correct horse'' @ example_salt) = sum_list (bytes_of pw @ example_salt)"
  using verifyPassword_encoded[OF example_hash_eq, of pw]
  by (simp add: example_deps_def argon2KeyLen_def argon2Time_def argon2Memory_def argon2Threads_def)

lemma example_wrong: "\<not> verifyPassword example_deps ''wrong'' example_hash"
  by (simp add: example_verify bytes_of_def)

lemma example_right: "verifyPassword example_deps ''correct horse'' example_hash"
  by (simp add: example_verify)

section \<open>Lockout and the outcomes of Login\<close>

text \<open>
  C1. From a credential whose failed-attempt counter is 0 and whose lock-until is
  unset, consecutive Login attempts with a wrong password: while fewer than
  LockoutThreshold attempts were made the counter is their number and lock-until
  stays unset (so after threshold-1 attempts the account is not locked), and a
  Login with the right password then resets the counter to 0; after exactly
  LockoutThreshold attempts lock-until is the instant of the last attempt plus
  LockoutDuration.
\<close>

theorem Login_lockout_threshold:
  assumes "GetUserByEmail s email = Some user"
    and "u_Status user = UserStatusActive"
    and "GetCredentialByUserID s (u_Id user) = Some cred"
    and "uc_FailedLoginAttempts cred = 0"
    and "uc_LockedUntil cred = None"
    and "0 < LockoutThreshold cfg"
    and "\<forall>a \<in> set attempts. lreq_Email (snd (snd a)) = email \<and>
           \<not> verifyPassword d (lreq_Password (snd (snd a))) (uc_PasswordHash cred)"
  shows "(int (length attempts) < LockoutThreshold cfg \<longrightarrow>
            map_option uc_FailedLoginAttempts
              (GetCredentialByUserID (Login_attempts d cfg attempts s) (u_Id user))
              = Some (int (length attempts)) \<and>
            map_option uc_LockedUntil
              (GetCredentialByUserID (Login_attempts d cfg attempts s) (u_Id user)) = Some None \<and>
            (\<forall>now uuid req.
               lreq_Email req = email \<and> verifyPassword d (lreq_Password req) (uc_PasswordHash cred) \<longrightarrow>
               map_option uc_FailedLoginAttempts
                 (GetCredentialByUserID
                    (snd (Login d cfg now uuid req (Login_attempts d cfg attempts s))) (u_Id user))
                 = Some 0)) \<and>
         (int (length attempts) = LockoutThreshold cfg \<longrightarrow>
            map_option uc_FailedLoginAttempts
              (GetCredentialByUserID (Login_attempts d cfg attempts s) (u_Id user))
              = Some (LockoutThreshold cfg) \<and>
            map_option uc_LockedUntil
              (GetCredentialByUserID (Login_attempts d cfg attempts s) (u_Id user))
              = Some (Some (fst (last attempts) + LockoutDuration cfg)))"
proof (intro conjI impI)
  assume len: "int (length attempts) < LockoutThreshold cfg"
  let ?s' = "Login_attempts d cfg attempts s"
  let ?c' = "cred\<lparr>uc_FailedLoginAttempts := uc_FailedLoginAttempts cred + int (length attempts)\<rparr>"
  have run: "GetUserByEmail ?s' email = Some user \<and> GetCredentialByUserID ?s' (u_Id user) = Some ?c'"
    using assms len by (intro Login_attempts_failures) auto
  show "map_option uc_FailedLoginAttempts (GetCredentialByUserID ?s' (u_Id user))
          = Some (int (length attempts))"
    using run assms(4) by simp
  show "map_option uc_LockedUntil (GetCredentialByUserID ?s' (u_Id user)) = Some None"
    using run assms(5) by simp
  show "\<forall>now uuid req.
          lreq_Email req = email \<and> verifyPassword d (lreq_Password req) (uc_PasswordHash cred) \<longrightarrow>
          map_option uc_FailedLoginAttempts
            (GetCredentialByUserID (snd (Login d cfg now uuid req ?s')) (u_Id user)) = Some 0"
  proof (intro allI impI)
    fix now uuid and req :: LoginRequest
    assume r: "lreq_Email req = email \<and> verifyPassword d (lreq_Password req) (uc_PasswordHash cred)"
    have "\<not> IsLocked now ?c'" using assms(5) by (simp add: IsLocked_def)
    then have "GetCredentialByUserID (snd (Login d cfg now uuid req ?s')) (u_Id user)
               = Some (?c'\<lparr>uc_FailedLoginAttempts := 0\<rparr>)"
      using run r assms(2) by (intro Login_right_password) auto
    then show "map_option uc_FailedLoginAttempts
            (GetCredentialByUserID (snd (Login d cfg now uuid req ?s')) (u_Id user)) = Some 0"
      by simp
  qed
next
  assume len: "int (length attempts) = LockoutThreshold cfg"
  with assms(6) have ne: "attempts \<noteq> []" by auto
  define pre where "pre = butlast attempts"
  obtain now uuid req where l: "last attempts = (now, uuid, req)" by (cases "last attempts") auto
  have att: "attempts = pre @ [(now, uuid, req)]"
    using ne l by (simp add: pre_def flip: l)
  let ?s1 = "Login_attempts d cfg pre s"
  let ?c1 = "cred\<lparr>uc_FailedLoginAttempts := uc_FailedLoginAttempts cred + int (length pre)\<rparr>"
  have lp: "int (length pre) = LockoutThreshold cfg - 1" using len att by simp
  have run: "GetUserByEmail ?s1 email = Some user \<and> GetCredentialByUserID ?s1 (u_Id user) = Some ?c1"
    using assms lp att by (intro Login_attempts_failures) auto
  have r: "lreq_Email req = email" "\<not> verifyPassword d (lreq_Password req) (uc_PasswordHash cred)"
    using assms(7) att by auto
  have nl: "\<not> IsLocked now ?c1" using assms(5) by (simp add: IsLocked_def)
  have fin: "GetCredentialByUserID (snd (Login d cfg now uuid req ?s1)) (u_Id user) =
         Some (?c1\<lparr>uc_FailedLoginAttempts := uc_FailedLoginAttempts ?c1 + 1,
                    uc_LockedUntil :=
                      (if LockoutThreshold cfg \<le> uc_FailedLoginAttempts ?c1 + 1
                       then Some (now + LockoutDuration cfg) else uc_LockedUntil ?c1)\<rparr>)"
    using run r assms(2) nl by (intro Login_wrong_password(3)) auto
  have eq: "Login_attempts d cfg attempts s = snd (Login d cfg now uuid req ?s1)"
    by (simp add: att Login_attempts_append)
  show "map_option uc_FailedLoginAttempts
          (GetCredentialByUserID (Login_attempts d cfg attempts s) (u_Id user))
          = Some (LockoutThreshold cfg)"
    unfolding eq fin using lp assms(4) by simp
  show "map_option uc_LockedUntil
          (GetCredentialByUserID (Login_attempts d cfg attempts s) (u_Id user))
          = Some (Some (fst (last attempts) + LockoutDuration cfg))"
    unfolding eq fin using lp assms(4) l by simp
qed

theorem Login_lockout_threshold_witness:
  "GetUserByEmail example_store ''bat@gerege.mn'' = Some example_user \<and>
   u_Status example_user = UserStatusActive \<and>
   GetCredentialByUserID example_store (u_Id example_user) = Some example_cred \<and>
   uc_FailedLoginAttempts example_cred = 0 \<and> uc_LockedUntil example_cred = None \<and>
   0 < LockoutThreshold example_cfg \<and>
   list_all (\<lambda>a. lreq_Email (snd (snd a)) = ''bat@gerege.mn'' \<and>
                  \<not> verifyPassword example_deps (lreq_Password (snd (snd a)))
                      (uc_PasswordHash example_cred)) example_failures \<and>
   map_option uc_LockedUntil
     (GetCredentialByUserID
        (Login_attempts example_deps example_cfg (take 4 example_failures) example_store)
        (u_Id example_user)) = Some None \<and>
   map_option uc_FailedLoginAttempts
     (GetCredentialByUserID
        (snd (Login example_deps example_cfg 45000000000 ''uuid-9'' (example_request ''correct horse'')
               (Login_attempts example_deps example_cfg (take 4 example_failures) example_store)))
        (u_Id example_user)) = Some 0 \<and>
   map_option uc_LockedUntil
     (GetCredentialByUserID
        (Login_attempts example_deps example_cfg example_failures example_store)
        (u_Id example_user)) = Some (Some 950000000000)"
proof -
  have h1: "GetUserByEmail example_store ''bat@gerege.mn'' = Some example_user"
    by (simp add: GetUserByEmail_def example_store_def example_user_def)
  have h2: "u_Status example_user = UserStatusActive"
    by (simp add: example_user_def UserStatusActive_def)
  have h3: "GetCredentialByUserID example_store (u_Id example_user) = Some example_cred"
    by (simp add: GetCredentialByUserID_def example_store_def example_user_def example_cred_def)
  have h4: "uc_FailedLoginAttempts example_cred = 0" and h5: "uc_LockedUntil example_cred = None"
    by (simp_all add: example_cred_def)
  have h6: "0 < LockoutThreshold example_cfg"
    by (simp add: example_cfg_def)
  have h7: "\<forall>a \<in> set example_failures. lreq_Email (snd (snd a)) = ''bat@gerege.mn'' \<and>
              \<not> verifyPassword example_deps (lreq_Password (snd (snd a))) (uc_PasswordHash example_cred)"
    using example_wrong by (simp add: example_failures_def example_request_def example_cred_def)
  then have h7': "\<forall>a \<in> set (take 4 example_failures). lreq_Email (snd (snd a)) = ''bat@gerege.mn'' \<and>
              \<not> verifyPassword example_deps (lreq_Password (snd (snd a))) (uc_PasswordHash example_cred)"
    by (meson in_set_takeD)
  have l5: "int (length example_failures) = LockoutThreshold example_cfg"
    and l4: "int (length (take 4 example_failures)) < LockoutThreshold example_cfg"
    and last5: "fst (last example_failures) + LockoutDuration example_cfg = 950000000000"
    by (simp_all add: example_failures_def example_cfg_def)
  have ok: "lreq_Email (example_request ''correct horse'') = ''bat@gerege.mn'' \<and>
            verifyPassword example_deps (lreq_Password (example_request ''correct horse''))
              (uc_PasswordHash example_cred)"
    using example_right by (simp add: example_request_def example_cred_def)
  note full = Login_lockout_threshold[OF h1 h2 h3 h4 h5 h6 h7]
  note part = Login_lockout_threshold[OF h1 h2 h3 h4 h5 h6 h7']
  have "map_option uc_LockedUntil
     (GetCredentialByUserID
        (Login_attempts example_deps example_cfg example_failures example_store)
        (u_Id example_user)) = Some (Some 950000000000)"
    using full l5 last5 by simp
  moreover have "map_option uc_LockedUntil
     (GetCredentialByUserID
        (Login_attempts example_deps example_cfg (take 4 example_failures) example_store)
        (u_Id example_user)) = Some None"
    using part l4 by blast
  moreover have "map_option uc_FailedLoginAttempts
     (GetCredentialByUserID
        (snd (Login example_deps example_cfg 45000000000 ''uuid-9'' (example_request ''correct horse'')
               (Login_attempts example_deps example_cfg (take 4 example_failures) example_store)))
        (u_Id example_user)) = Some 0"
    using part l4 ok by blast
  ultimately show ?thesis
    using h1 h2 h3 h4 h5 h6 h7 by (simp add: list_all_iff)
qed

text \<open>
  C10. An active user without a Credential row: Login returns
  ErrCredentialsNotFound, which is not ErrInvalidCredentials, the error of an
  unknown email and of a wrong password.
\<close>

theorem Login_credentials_not_found:
  assumes "GetUserByEmail s (lreq_Email req) = Some user"
    and "u_Status user = UserStatusActive"
    and "GetCredentialByUserID s (u_Id user) = None"
  shows "fst (Login d cfg now uuid req s) = Inl ErrCredentialsNotFound \<and>
         ErrCredentialsNotFound \<noteq> ErrInvalidCredentials \<and>
         (\<forall>req' :: LoginRequest. GetUserByEmail s (lreq_Email req') = None \<longrightarrow>
            fst (Login d cfg now uuid req' s) = Inl ErrInvalidCredentials) \<and>
         (\<forall>(req' :: LoginRequest) user' cred'.
            GetUserByEmail s (lreq_Email req') = Some user' \<and> u_Status user' = UserStatusActive \<and>
            GetCredentialByUserID s (u_Id user') = Some cred' \<and> \<not> IsLocked now cred' \<and>
            \<not> verifyPassword d (lreq_Password req') (uc_PasswordHash cred') \<longrightarrow>
            fst (Login d cfg now uuid req' s) = Inl ErrInvalidCredentials)"
proof (intro conjI allI impI)
  show "fst (Login d cfg now uuid req s) = Inl ErrCredentialsNotFound"
    using assms by (simp add: Login_def)
  show "ErrCredentialsNotFound \<noteq> ErrInvalidCredentials" by simp
next
  fix req' :: LoginRequest assume "GetUserByEmail s (lreq_Email req') = None"
  then show "fst (Login d cfg now uuid req' s) = Inl ErrInvalidCredentials"
    by (simp add: Login_def)
next
  fix req' :: LoginRequest and user' cred'
  assume "GetUserByEmail s (lreq_Email req') = Some user' \<and> u_Status user' = UserStatusActive \<and>
          GetCredentialByUserID s (u_Id user') = Some cred' \<and> \<not> IsLocked now cred' \<and>
          \<not> verifyPassword d (lreq_Password req') (uc_PasswordHash cred')"
  then show "fst (Login d cfg now uuid req' s) = Inl ErrInvalidCredentials"
    using Login_wrong_password(1)[of s req' user' cred' now d cfg uuid] by blast
qed

theorem Login_credentials_not_found_witness:
  "GetUserByEmail example_store2 (lreq_Email ((example_request ''correct horse'')\<lparr>lreq_Email := ''dorj@gerege.mn''\<rparr>)) = Some example_user2 \<and>
   u_Status example_user2 = UserStatusActive \<and>
   GetCredentialByUserID example_store2 (u_Id example_user2) = None \<and>
   fst (Login example_deps example_cfg 1000 ''uuid-1''
          ((example_request ''correct horse'')\<lparr>lreq_Email := ''dorj@gerege.mn''\<rparr>) example_store2)
     = Inl ErrCredentialsNotFound \<and>
   fst (Login example_deps example_cfg 1000 ''uuid-1''
          ((example_request ''correct horse'')\<lparr>lreq_Email := ''nobody@gerege.mn''\<rparr>) example_store2)
     = Inl ErrInvalidCredentials \<and>
   fst (Login example_deps example_cfg 1000 ''uuid-1'' (example_request ''wrong'') example_store2)
     = Inl ErrInvalidCredentials"
proof -
  let ?req = "(example_request ''correct horse'')\<lparr>lreq_Email := ''dorj@gerege.mn''\<rparr>"
  have h1: "GetUserByEmail example_store2 (lreq_Email ?req) = Some example_user2"
    by (simp add: GetUserByEmail_def example_store2_def example_store_def example_user_def
        example_user2_def example_request_def)
  have h2: "u_Status example_user2 = UserStatusActive"
    by (simp add: example_user2_def UserStatusActive_def)
  have h3: "GetCredentialByUserID example_store2 (u_Id example_user2) = None"
    by (simp add: GetCredentialByUserID_def example_store2_def example_store_def example_user2_def
        example_cred_def)
  have u0: "GetUserByEmail example_store2
              (lreq_Email ((example_request ''correct horse'')\<lparr>lreq_Email := ''nobody@gerege.mn''\<rparr>)) = None"
    by (simp add: GetUserByEmail_def example_store2_def example_store_def example_user_def
        example_user2_def)
  have u1: "GetUserByEmail example_store2 (lreq_Email (example_request ''wrong'')) = Some example_user \<and>
            u_Status example_user = UserStatusActive \<and>
            GetCredentialByUserID example_store2 (u_Id example_user) = Some example_cred \<and>
            \<not> IsLocked 1000 example_cred \<and>
            \<not> verifyPassword example_deps (lreq_Password (example_request ''wrong''))
                (uc_PasswordHash example_cred)"
    using example_wrong
    by (simp add: GetUserByEmail_def GetCredentialByUserID_def example_store2_def example_store_def
        example_user_def example_request_def example_cred_def UserStatusActive_def IsLocked_def)
  note inst = Login_credentials_not_found[OF h1 h2 h3, of example_deps example_cfg 1000 "''uuid-1''"]
  from inst u0 have "fst (Login example_deps example_cfg 1000 ''uuid-1''
          ((example_request ''correct horse'')\<lparr>lreq_Email := ''nobody@gerege.mn''\<rparr>) example_store2)
     = Inl ErrInvalidCredentials" by blast
  moreover from inst u1 have "fst (Login example_deps example_cfg 1000 ''uuid-1'' (example_request ''wrong'') example_store2)
     = Inl ErrInvalidCredentials" by blast
  ultimately show ?thesis using inst h1 h2 h3 by blast
qed

section \<open>The password hash round trip\<close>

text \<open>
  C4 as stated does not hold: whatever the key derivation function is, as long as
  its digests have the fixed length argon2KeyLen, there are two different
  passwords, both long enough for SetPassword, such that the hash of one verifies
  the other (there are infinitely many passwords and finitely many digests).
\<close>

lemma verifyPassword_collision:
  assumes "\<forall>x. length (IDKey d (bytes_of x) salt argon2Time argon2Memory argon2Threads argon2KeyLen)
             = argon2KeyLen"
  shows "\<exists>p p' h. p' \<noteq> p \<and> n \<le> length p \<and> n \<le> length p' \<and>
           hashPassword d (Inr salt) p = Inr h \<and> verifyPassword d p' h"
proof -
  let ?f = "\<lambda>x. IDKey d (bytes_of x) salt argon2Time argon2Memory argon2Threads argon2KeyLen"
  have "\<exists>p p'. p \<noteq> p' \<and> n \<le> length p \<and> n \<le> length p' \<and> ?f p = ?f p'"
    by (rule digest_collision[where f = ?f and k = argon2KeyLen]) (rule assms)
  then obtain p p' where pp: "p \<noteq> p'" "n \<le> length p" "n \<le> length p'" and eq: "?f p = ?f p'"
    by (elim exE conjE)
  define h where "h = ''$argon2id$v='' @ Itoa (int argon2_Version) @ ''$m='' @ Itoa (int argon2Memory)
                   @ '',t='' @ Itoa (int argon2Time) @ '',p='' @ Itoa (int argon2Threads)
                   @ ''$'' @ EncodeToString salt @ ''$'' @ EncodeToString (?f p)"
  have h: "hashPassword d (Inr salt) p = Inr h"
    by (simp add: hashPassword_def Let_def h_def)
  have len: "length (?f p) mod 2 ^ 32 = argon2KeyLen"
    using assms by (simp add: argon2KeyLen_def)
  have "verifyPassword d p' h \<longleftrightarrow> ?f p = IDKey d (bytes_of p') salt 1 65536 4 argon2KeyLen"
    using verifyPassword_encoded[OF h, of p'] by (simp only: len)
  also have "IDKey d (bytes_of p') salt 1 65536 4 argon2KeyLen = ?f p'"
    by (simp add: argon2Time_def argon2Memory_def argon2Threads_def)
  finally have "verifyPassword d p' h" using eq by simp
  with pp h show ?thesis by (intro exI[of _ p] exI[of _ p'] exI[of _ h]) simp
qed

theorem verifyPassword_rejects_others_counterexample:
  "\<not> (\<exists>(d :: deps) salt (cfg :: LocalAuthConfig).
         (\<forall>x. length (IDKey d (bytes_of x) salt argon2Time argon2Memory argon2Threads argon2KeyLen)
              = argon2KeyLen) \<and>
         (\<forall>p p' h. PasswordMinLength cfg \<le> int (length p) \<and> PasswordMinLength cfg \<le> int (length p') \<and>
              hashPassword d (Inr salt) p = Inr h \<and> p' \<noteq> p \<longrightarrow> \<not> verifyPassword d p' h))"
proof
  assume "\<exists>(d :: deps) salt (cfg :: LocalAuthConfig).
         (\<forall>x. length (IDKey d (bytes_of x) salt argon2Time argon2Memory argon2Threads argon2KeyLen)
              = argon2KeyLen) \<and>
         (\<forall>p p' h. PasswordMinLength cfg \<le> int (length p) \<and> PasswordMinLength cfg \<le> int (length p') \<and>
              hashPassword d (Inr salt) p = Inr h \<and> p' \<noteq> p \<longrightarrow> \<not> verifyPassword d p' h)"
  then obtain d :: deps and salt and cfg :: LocalAuthConfig where
    len: "\<forall>x. length (IDKey d (bytes_of x) salt argon2Time argon2Memory argon2Threads argon2KeyLen)
              = argon2KeyLen"
    and claim: "\<forall>p p' h. PasswordMinLength cfg \<le> int (length p) \<and> PasswordMinLength cfg \<le> int (length p') \<and>
              hashPassword d (Inr salt) p = Inr h \<and> p' \<noteq> p \<longrightarrow> \<not> verifyPassword d p' h"
    by blast
  obtain p p' h where c: "p' \<noteq> p" "nat (PasswordMinLength cfg) \<le> length p"
    "nat (PasswordMinLength cfg) \<le> length p'" "hashPassword d (Inr salt) p = Inr h"
    "verifyPassword d p' h"
    using verifyPassword_collision[OF len, of "nat (PasswordMinLength cfg)"] by blast
  then have "PasswordMinLength cfg \<le> int (length p)" "PasswordMinLength cfg \<le> int (length p')"
    by linarith+
  with claim c show False by blast
qed

text \<open>
  C4, amended. For the encoded hash h that hashPassword produced for p under a
  salt, verifyPassword reads the parameters, the salt and the digest back from h:
  it accepts p, and it accepts another password p' exactly when the digest of p'
  under the same salt and parameters equals the digest of p (so it rejects every
  p' whose digest differs).
\<close>

theorem verifyPassword_hashPassword:
  assumes "hashPassword d (Inr salt) p = Inr h"
    and "length (IDKey d (bytes_of p) salt argon2Time argon2Memory argon2Threads argon2KeyLen)
           = argon2KeyLen"
  shows "verifyPassword d p h \<and>
         (\<forall>p'. verifyPassword d p' h \<longleftrightarrow>
            IDKey d (bytes_of p') salt argon2Time argon2Memory argon2Threads argon2KeyLen
            = IDKey d (bytes_of p) salt argon2Time argon2Memory argon2Threads argon2KeyLen)"
proof -
  have "verifyPassword d p' h \<longleftrightarrow>
          IDKey d (bytes_of p') salt argon2Time argon2Memory argon2Threads argon2KeyLen
          = IDKey d (bytes_of p) salt argon2Time argon2Memory argon2Threads argon2KeyLen" for p'
    using verifyPassword_encoded[OF assms(1), of p'] assms(2)
    by (auto simp: argon2KeyLen_def argon2Time_def argon2Memory_def argon2Threads_def)
  then show ?thesis by simp
qed

theorem verifyPassword_hashPassword_witness:
  "hashPassword example_deps (Inr example_salt) ''correct horse'' = Inr example_hash \<and>
   length (IDKey example_deps (bytes_of ''correct horse'') example_salt
             argon2Time argon2Memory argon2Threads argon2KeyLen) = argon2KeyLen \<and>
   verifyPassword example_deps ''correct horse'' example_hash \<and>
   \<not> verifyPassword example_deps ''wrong'' example_hash"
proof -
  have h2: "length (IDKey example_deps (bytes_of ''correct horse'') example_salt
             argon2Time argon2Memory argon2Threads argon2KeyLen) = argon2KeyLen"
    by (simp add: example_deps_def)
  have ne: "IDKey example_deps (bytes_of ''wrong'') example_salt argon2Time argon2Memory argon2Threads argon2KeyLen
            \<noteq> IDKey example_deps (bytes_of ''correct horse'') example_salt argon2Time argon2Memory argon2Threads argon2KeyLen"
    by (simp add: example_deps_def bytes_of_def example_salt_def argon2KeyLen_def)
  note inst = verifyPassword_hashPassword[OF example_hash_eq h2]
  from inst have a: "verifyPassword example_deps ''correct horse'' example_hash" by (rule conjunct1)
  from inst ne have b: "\<not> verifyPassword example_deps ''wrong'' example_hash" by blast
  from a b h2 example_hash_eq show ?thesis by (intro conjI)
qed

section \<open>Completing a login with TOTP\<close>

lemmas store_defs =
  IncrementFailedAttempts_def LockAccount_def ResetFailedAttempts_def EnableMFA_def DisableMFA_def
  UpdateUserLoginStats_def CreateLoginHistory_def CreateAuditTrail_def UseBackupCode_def
  CreateBackupCodes_def DeleteBackupCodes_def CreatePasswordHistory_def UpdateCredential_def
  CreateCredential_def CreateSession_def RevokeAllUserSessions_def StoreMFAToken_def
  DeleteMFAToken_def SessionStore_Create_def DeleteAllUserSessions_def
  MarkPasswordResetTokenUsed_def DeleteUserPasswordResetTokens_def
  logFailedLogin_def logAudit_def logSuccessfulLogin_def

lemma map_of_filter_key: "map_of (filter (\<lambda>kv. fst kv \<noteq> k) xs) k = None"
  by (induction xs) auto

lemma GetMFAToken_Delete: "GetMFAToken now' (DeleteMFAToken token s) token = None"
  by (simp add: GetMFAToken_def DeleteMFAToken_def map_of_filter_key)

lemma GetMFAToken_cong:
  "kv_mfa_tokens s' = kv_mfa_tokens s \<Longrightarrow> GetMFAToken now s' token = GetMFAToken now s token"
  by (simp add: GetMFAToken_def)

lemma VerifyMFA_invalid_code:
  assumes "GetMFAToken now s (vreq_MFAToken req) = Some pending"
    and "GetMFAByUserID s (mp_UserID pending) = Some mfa" and "mfa_IsEnabled mfa"
    and "decryptTOTPSecret d (mfa_SecretEncrypted mfa) = Inr secret"
    and "\<not> totp_Validate d now (vreq_Code req) secret"
  shows "fst (VerifyMFA d cfg now uuid req s) = Inl ErrInvalidMFACode"
    and "kv_mfa_tokens (snd (VerifyMFA d cfg now uuid req s)) = kv_mfa_tokens s"
    and "kv_sessions (snd (VerifyMFA d cfg now uuid req s)) = kv_sessions s"
  using assms by (simp_all add: VerifyMFA_def store_defs)

lemma VerifyMFA_valid_no_user:
  assumes "GetMFAToken now s (vreq_MFAToken req) = Some pending"
    and "GetMFAByUserID s (mp_UserID pending) = Some mfa" and "mfa_IsEnabled mfa"
    and "decryptTOTPSecret d (mfa_SecretEncrypted mfa) = Inr secret"
    and "totp_Validate d now (vreq_Code req) secret"
    and "GetUserByEmail s (mp_Email pending) = None"
  shows "VerifyMFA d cfg now uuid req s = (Inl ErrUserNotFound, DeleteMFAToken (vreq_MFAToken req) s)"
proof -
  have u: "GetUserByEmail (DeleteMFAToken (vreq_MFAToken req) s) e = GetUserByEmail s e" for e
    by (simp add: GetUserByEmail_def DeleteMFAToken_def)
  show ?thesis using assms by (simp add: VerifyMFA_def Let_def u)
qed

lemma VerifyMFA_valid_user:
  assumes "GetMFAToken now s (vreq_MFAToken req) = Some pending"
    and "GetMFAByUserID s (mp_UserID pending) = Some mfa" and "mfa_IsEnabled mfa"
    and "decryptTOTPSecret d (mfa_SecretEncrypted mfa) = Inr secret"
    and "totp_Validate d now (vreq_Code req) secret"
    and "GetUserByEmail s (mp_Email pending) = Some user"
  shows "VerifyMFA d cfg now uuid req s =
             (let s1 = DeleteMFAToken (vreq_MFAToken req) s
              in case createSession d cfg now uuid user (vreq_IPAddress req) (vreq_UserAgent req) s1 of
                   (Inl err, s2) \<Rightarrow> (Inl err, s2)
                 | (Inr session, s2) \<Rightarrow>
                     (Inr \<lparr>lres_RequiresMFA = False, lres_MFAToken = [],
                           lres_Session = Some session, lres_User = Some user\<rparr>,
                      logSuccessfulLogin (u_Id user) (mp_Email pending) (vreq_IPAddress req)
                        (vreq_UserAgent req) True (UpdateUserLoginStats now (u_Id user) s2)))"
proof -
  have u: "GetUserByEmail (DeleteMFAToken (vreq_MFAToken req) s) e = GetUserByEmail s e" for e
    by (simp add: GetUserByEmail_def DeleteMFAToken_def)
  show ?thesis
    using assms by (simp add: VerifyMFA_def Let_def u split: prod.splits sum.splits)
qed

lemma VerifyMFA_valid_tokens:
  assumes "GetMFAToken now s (vreq_MFAToken req) = Some pending"
    and "GetMFAByUserID s (mp_UserID pending) = Some mfa" and "mfa_IsEnabled mfa"
    and "decryptTOTPSecret d (mfa_SecretEncrypted mfa) = Inr secret"
    and "totp_Validate d now (vreq_Code req) secret"
  shows "kv_mfa_tokens (snd (VerifyMFA d cfg now uuid req s))
           = kv_mfa_tokens (DeleteMFAToken (vreq_MFAToken req) s)"
proof (cases "GetUserByEmail s (mp_Email pending)")
  case None
  show ?thesis by (simp add: VerifyMFA_valid_no_user[OF assms None])
next
  case (Some user)
  show ?thesis
    by (simp add: VerifyMFA_valid_user[OF assms Some] Let_def createSession_def store_defs
        split: option.splits)
qed

text \<open>
  C7. For a pending MFA token of a user whose TOTP is enabled and whose secret
  decrypts: with an invalid code VerifyMFA returns ErrInvalidMFACode and leaves the
  pending record (and the sessions) untouched, so the token can be presented again
  until it expires; with a valid code the pending record is deleted and the session
  is created in the store that no longer holds it (when the fast store does not
  take the session, the error of createSession is returned from that store), the
  token resolves to nothing at any later instant, and every later VerifyMFA with
  that token fails with ErrInvalidSession.
\<close>

theorem VerifyMFA_pending_token:
  assumes "GetMFAToken now s (vreq_MFAToken req) = Some pending"
    and "GetMFAByUserID s (mp_UserID pending) = Some mfa"
    and "mfa_IsEnabled mfa"
    and "decryptTOTPSecret d (mfa_SecretEncrypted mfa) = Inr secret"
  shows "(\<not> totp_Validate d now (vreq_Code req) secret \<longrightarrow>
            fst (VerifyMFA d cfg now uuid req s) = Inl ErrInvalidMFACode \<and>
            kv_sessions (snd (VerifyMFA d cfg now uuid req s)) = kv_sessions s \<and>
            (\<forall>now'. GetMFAToken now' (snd (VerifyMFA d cfg now uuid req s)) (vreq_MFAToken req)
                     = GetMFAToken now' s (vreq_MFAToken req))) \<and>
         (totp_Validate d now (vreq_Code req) secret \<longrightarrow>
            (\<forall>now'. GetMFAToken now' (snd (VerifyMFA d cfg now uuid req s)) (vreq_MFAToken req) = None) \<and>
            (\<forall>now' uuid' req'. vreq_MFAToken req' = vreq_MFAToken req \<longrightarrow>
               VerifyMFA d cfg now' uuid' req' (snd (VerifyMFA d cfg now uuid req s))
                 = (Inl ErrInvalidSession, snd (VerifyMFA d cfg now uuid req s))) \<and>
            (\<forall>user. GetUserByEmail s (mp_Email pending) = Some user \<longrightarrow>
               VerifyMFA d cfg now uuid req s =
                 (let s1 = DeleteMFAToken (vreq_MFAToken req) s
                  in case createSession d cfg now uuid user (vreq_IPAddress req)
                            (vreq_UserAgent req) s1 of
                       (Inl err, s2) \<Rightarrow> (Inl err, s2)
                     | (Inr session, s2) \<Rightarrow>
                         (Inr \<lparr>lres_RequiresMFA = False, lres_MFAToken = [],
                               lres_Session = Some session, lres_User = Some user\<rparr>,
                          logSuccessfulLogin (u_Id user) (mp_Email pending) (vreq_IPAddress req)
                            (vreq_UserAgent req) True (UpdateUserLoginStats now (u_Id user) s2)))))"
proof (intro conjI impI allI)
  assume bad: "\<not> totp_Validate d now (vreq_Code req) secret"
  show "fst (VerifyMFA d cfg now uuid req s) = Inl ErrInvalidMFACode"
    using assms bad by (rule VerifyMFA_invalid_code(1))
  show "kv_sessions (snd (VerifyMFA d cfg now uuid req s)) = kv_sessions s"
    using assms bad by (rule VerifyMFA_invalid_code(3))
  fix now'
  have "kv_mfa_tokens (snd (VerifyMFA d cfg now uuid req s)) = kv_mfa_tokens s"
    using assms bad by (rule VerifyMFA_invalid_code(2))
  then show "GetMFAToken now' (snd (VerifyMFA d cfg now uuid req s)) (vreq_MFAToken req)
               = GetMFAToken now' s (vreq_MFAToken req)"
    by (rule GetMFAToken_cong)
next
  assume ok: "totp_Validate d now (vreq_Code req) secret"
  let ?s' = "snd (VerifyMFA d cfg now uuid req s)"
  have del: "kv_mfa_tokens ?s' = kv_mfa_tokens (DeleteMFAToken (vreq_MFAToken req) s)"
    using assms ok by (rule VerifyMFA_valid_tokens)
  have gone: "GetMFAToken now' ?s' (vreq_MFAToken req) = None" for now'
    using GetMFAToken_cong[OF del] by (simp add: GetMFAToken_Delete)
  show "GetMFAToken now' ?s' (vreq_MFAToken req) = None" for now'
    by (rule gone)
  show "VerifyMFA d cfg now' uuid' req' ?s' = (Inl ErrInvalidSession, ?s')"
    if "vreq_MFAToken req' = vreq_MFAToken req" for now' uuid' req'
    using gone[of now'] that by (simp add: VerifyMFA_def)
  show "VerifyMFA d cfg now uuid req s =
          (let s1 = DeleteMFAToken (vreq_MFAToken req) s
           in case createSession d cfg now uuid user (vreq_IPAddress req)
                     (vreq_UserAgent req) s1 of
                (Inl err, s2) \<Rightarrow> (Inl err, s2)
              | (Inr session, s2) \<Rightarrow>
                  (Inr \<lparr>lres_RequiresMFA = False, lres_MFAToken = [],
                        lres_Session = Some session, lres_User = Some user\<rparr>,
                   logSuccessfulLogin (u_Id user) (mp_Email pending) (vreq_IPAddress req)
                     (vreq_UserAgent req) True (UpdateUserLoginStats now (u_Id user) s2)))"
    if "GetUserByEmail s (mp_Email pending) = Some user" for user
    using assms ok that by (rule VerifyMFA_valid_user)
qed

theorem VerifyMFA_pending_token_witness:
  "GetMFAToken 100000000000 example_mfa_store (vreq_MFAToken (example_mfa_request ''000000'')) = Some example_pending \<and>
   GetMFAByUserID example_mfa_store (mp_UserID example_pending) = Some example_mfa \<and>
   mfa_IsEnabled example_mfa \<and>
   decryptTOTPSecret example_deps (mfa_SecretEncrypted example_mfa) = Inr ''JBSWY3DPEHPK3PXP'' \<and>
   fst (VerifyMFA example_deps example_cfg 100000000000 ''uuid-1'' (example_mfa_request ''000000'')
          example_mfa_store) = Inl ErrInvalidMFACode \<and>
   GetMFAToken 100000000000
     (snd (VerifyMFA example_deps example_cfg 100000000000 ''uuid-1'' (example_mfa_request ''000000'')
             example_mfa_store)) ''mfa-token-1'' = Some example_pending \<and>
   GetMFAToken 100000000000
     (snd (VerifyMFA example_deps example_cfg 100000000000 ''uuid-1''
             (example_mfa_request ''JBSWY3DPEHPK3PXP'') example_mfa_store)) ''mfa-token-1'' = None \<and>
   fst (VerifyMFA example_deps example_cfg 110000000000 ''uuid-2'' (example_mfa_request ''JBSWY3DPEHPK3PXP'')
          (snd (VerifyMFA example_deps example_cfg 100000000000 ''uuid-1''
                  (example_mfa_request ''JBSWY3DPEHPK3PXP'') example_mfa_store)))
     = Inl ErrInvalidSession"
proof -
  have h1: "GetMFAToken 100000000000 example_mfa_store (vreq_MFAToken (example_mfa_request c)) = Some example_pending" for c
    by (simp add: GetMFAToken_def example_mfa_store_def example_mfa_request_def example_pending_def)
  have h2: "GetMFAByUserID example_mfa_store (mp_UserID example_pending) = Some example_mfa"
    by (simp add: GetMFAByUserID_def example_mfa_store_def example_pending_def example_mfa_def)
  have h3: "mfa_IsEnabled example_mfa"
    by (simp add: example_mfa_def)
  have h4: "decryptTOTPSecret example_deps (mfa_SecretEncrypted example_mfa) = Inr ''JBSWY3DPEHPK3PXP''"
    by (simp add: decryptTOTPSecret_def example_deps_def example_mfa_def)
  have bad: "\<not> totp_Validate example_deps 100000000000 (vreq_Code (example_mfa_request ''000000'')) ''JBSWY3DPEHPK3PXP''"
    and ok: "totp_Validate example_deps 100000000000 (vreq_Code (example_mfa_request ''JBSWY3DPEHPK3PXP'')) ''JBSWY3DPEHPK3PXP''"
    and tok: "vreq_MFAToken (example_mfa_request c) = ''mfa-token-1''" for c
    by (simp_all add: example_deps_def example_mfa_request_def)
  note failed = VerifyMFA_pending_token[OF h1 h2 h3 h4, of "''000000''" example_cfg "''uuid-1''"]
  note passed = VerifyMFA_pending_token[OF h1 h2 h3 h4, of "''JBSWY3DPEHPK3PXP''" example_cfg "''uuid-1''"]
  have a: "fst (VerifyMFA example_deps example_cfg 100000000000 ''uuid-1'' (example_mfa_request ''000000'')
          example_mfa_store) = Inl ErrInvalidMFACode"
    using failed bad by blast
  have "GetMFAToken 100000000000
     (snd (VerifyMFA example_deps example_cfg 100000000000 ''uuid-1'' (example_mfa_request ''000000'')
             example_mfa_store)) (vreq_MFAToken (example_mfa_request ''000000''))
       = GetMFAToken 100000000000 example_mfa_store (vreq_MFAToken (example_mfa_request ''000000''))"
    using failed bad by blast
  then have b: "GetMFAToken 100000000000
     (snd (VerifyMFA example_deps example_cfg 100000000000 ''uuid-1'' (example_mfa_request ''000000'')
             example_mfa_store)) ''mfa-token-1'' = Some example_pending"
    using h1[of "''000000''"] by (simp add: tok)
  have "GetMFAToken 100000000000
     (snd (VerifyMFA example_deps example_cfg 100000000000 ''uuid-1''
             (example_mfa_request ''JBSWY3DPEHPK3PXP'') example_mfa_store))
       (vreq_MFAToken (example_mfa_request ''JBSWY3DPEHPK3PXP'')) = None"
    using passed ok by blast
  then have c: "GetMFAToken 100000000000
     (snd (VerifyMFA example_deps example_cfg 100000000000 ''uuid-1''
             (example_mfa_request ''JBSWY3DPEHPK3PXP'') example_mfa_store)) ''mfa-token-1'' = None"
    by (simp add: tok)
  have "VerifyMFA example_deps example_cfg 110000000000 ''uuid-2'' (example_mfa_request ''JBSWY3DPEHPK3PXP'')
          (snd (VerifyMFA example_deps example_cfg 100000000000 ''uuid-1''
                  (example_mfa_request ''JBSWY3DPEHPK3PXP'') example_mfa_store))
     = (Inl ErrInvalidSession, snd (VerifyMFA example_deps example_cfg 100000000000 ''uuid-1''
                  (example_mfa_request ''JBSWY3DPEHPK3PXP'') example_mfa_store))"
    using passed ok by blast
  then have e: "fst (VerifyMFA example_deps example_cfg 110000000000 ''uuid-2'' (example_mfa_request ''JBSWY3DPEHPK3PXP'')
          (snd (VerifyMFA example_deps example_cfg 100000000000 ''uuid-1''
                  (example_mfa_request ''JBSWY3DPEHPK3PXP'') example_mfa_store)))
     = Inl ErrInvalidSession"
    by simp
  show ?thesis
    using h1[of "''000000''"] h2 h3 h4 a b c e by (intro conjI)
qed

section \<open>Password reset\<close>

lemma find_None_notin: "x \<notin> set (map f xs) \<Longrightarrow> find (\<lambda>t. f t = x) xs = None"
  by (induction xs) auto

lemma GetUserByEmail_users:
  "users s' = users s \<Longrightarrow> GetUserByEmail s' e = GetUserByEmail s e"
  by (simp add: GetUserByEmail_def)

lemma ForgotPassword_unknown:
  "GetUserByEmail s email = None \<Longrightarrow> ForgotPassword now b email s = (None, s)"
  by (simp add: ForgotPassword_def)

lemma ForgotPassword_created:
  assumes "GetUserByEmail s email = Some user"
    and "URLEncoding_EncodeToString bytes \<notin>
           set (map prt_Token (filter (\<lambda>t. prt_UserID t \<noteq> u_Id user) (password_reset_tokens s)))"
  shows "ForgotPassword now (Inr bytes) email s =
      (None, s\<lparr>password_reset_tokens :=
                 filter (\<lambda>t. prt_UserID t \<noteq> u_Id user) (password_reset_tokens s) @
                 [\<lparr>prt_ID = reset_token_seq s + 1, prt_UserID = u_Id user,
                   prt_Token = URLEncoding_EncodeToString bytes,
                   prt_ExpiresAt = now + Hour, prt_UsedAt = None\<rparr>],
               reset_token_seq := reset_token_seq s + 1\<rparr>)"
proof -
  have fresh: "find (\<lambda>t. prt_Token t = URLEncoding_EncodeToString bytes)
                 (filter (\<lambda>t. prt_UserID t \<noteq> u_Id user) (password_reset_tokens s)) = None"
    using assms(2) by (rule find_None_notin)
  show ?thesis
    using assms(1) fresh
    by (simp add: ForgotPassword_def Let_def CreatePasswordResetToken_def generateSecureToken_def
        DeleteUserPasswordResetTokens_def)
qed

lemma ForgotPassword_refused:
  assumes "GetUserByEmail s email = Some user"
    and "URLEncoding_EncodeToString bytes \<in>
           set (map prt_Token (filter (\<lambda>t. prt_UserID t \<noteq> u_Id user) (password_reset_tokens s)))"
  shows "ForgotPassword now (Inr bytes) email s =
      (Some (ErrWrapped ''failed to create reset token''),
       s\<lparr>password_reset_tokens :=
           filter (\<lambda>t. prt_UserID t \<noteq> u_Id user) (password_reset_tokens s)\<rparr>)"
proof -
  have "find (\<lambda>t. prt_Token t = URLEncoding_EncodeToString bytes)
          (filter (\<lambda>t. prt_UserID t \<noteq> u_Id user) (password_reset_tokens s)) \<noteq> None"
    using assms(2) by (auto simp: find_None_iff)
  then show ?thesis
    using assms(1)
    by (simp add: ForgotPassword_def Let_def CreatePasswordResetToken_def generateSecureToken_def
        DeleteUserPasswordResetTokens_def)
qed

lemma ForgotPassword_no_token:
  assumes "GetUserByEmail s email = Some user"
  shows "ForgotPassword now (Inl err) email s =
      (Some (ErrWrapped ''failed to generate token''),
       s\<lparr>password_reset_tokens :=
           filter (\<lambda>t. prt_UserID t \<noteq> u_Id user) (password_reset_tokens s)\<rparr>)"
  using assms
  by (simp add: ForgotPassword_def Let_def generateSecureToken_def DeleteUserPasswordResetTokens_def)

text \<open>
  C8 as the specification states it does not hold: on the example store,
  ForgotPassword for an email of no account returns nil, while for the email of
  the existing account it returns an error when the random bytes of the token
  cannot be read, and also when the new token is already the token of a row of
  another identity.
\<close>

theorem ForgotPassword_same_result_counterexample:
  "GetUserByEmail example_collision_store ''nobody@gerege.mn'' = None \<and>
   GetUserByEmail example_collision_store ''bat@gerege.mn'' = Some example_user \<and>
   fst (ForgotPassword 1000 (Inl ErrRandRead) ''nobody@gerege.mn'' example_collision_store) = None \<and>
   fst (ForgotPassword 1000 (Inl ErrRandRead) ''bat@gerege.mn'' example_collision_store)
     = Some (ErrWrapped ''failed to generate token'') \<and>
   fst (ForgotPassword 1000 (Inr example_token_bytes) ''nobody@gerege.mn'' example_collision_store)
     = None \<and>
   fst (ForgotPassword 1000 (Inr example_token_bytes) ''bat@gerege.mn'' example_collision_store)
     = Some (ErrWrapped ''failed to create reset token'')"
  by (simp add: ForgotPassword_def Let_def GetUserByEmail_def generateSecureToken_def
      CreatePasswordResetToken_def DeleteUserPasswordResetTokens_def example_collision_store_def
      example_reset_store_def example_store_def example_user_def example_user2_def
      example_reset_token_def)

text \<open>
  C8. ForgotPassword with an email of no account returns nil and leaves the store
  as it was. With the email of an existing account it deletes that identity's
  reset tokens and then: when the random bytes of the token were read and no
  remaining row carries the token, it returns nil and has appended one new row with
  an expiry of one hour; when a remaining row carries the token, it returns the
  error \<^verbatim>\<open>failed to create reset token\<close> and has appended no row; when the random
  bytes could not be read, it returns the error \<^verbatim>\<open>failed to generate token\<close> and
  has appended no row.
\<close>

theorem ForgotPassword_anti_enumeration:
  assumes "GetUserByEmail s unknown = None"
    and "GetUserByEmail s known = Some user"
  shows "ForgotPassword now b unknown s = (None, s) \<and>
         (\<forall>bytes.
            b = Inr bytes \<and>
            URLEncoding_EncodeToString bytes \<notin>
              set (map prt_Token
                     (filter (\<lambda>t. prt_UserID t \<noteq> u_Id user) (password_reset_tokens s))) \<longrightarrow>
            fst (ForgotPassword now b known s) = None \<and>
            password_reset_tokens (snd (ForgotPassword now b known s)) =
              filter (\<lambda>t. prt_UserID t \<noteq> u_Id user) (password_reset_tokens s) @
              [\<lparr>prt_ID = reset_token_seq s + 1, prt_UserID = u_Id user,
                prt_Token = URLEncoding_EncodeToString bytes,
                prt_ExpiresAt = now + Hour, prt_UsedAt = None\<rparr>]) \<and>
         (\<forall>bytes.
            b = Inr bytes \<and>
            URLEncoding_EncodeToString bytes \<in>
              set (map prt_Token
                     (filter (\<lambda>t. prt_UserID t \<noteq> u_Id user) (password_reset_tokens s))) \<longrightarrow>
            fst (ForgotPassword now b known s) = Some (ErrWrapped ''failed to create reset token'') \<and>
            password_reset_tokens (snd (ForgotPassword now b known s)) =
              filter (\<lambda>t. prt_UserID t \<noteq> u_Id user) (password_reset_tokens s)) \<and>
         (\<forall>err.
            b = Inl err \<longrightarrow>
            fst (ForgotPassword now b known s) = Some (ErrWrapped ''failed to generate token'') \<and>
            password_reset_tokens (snd (ForgotPassword now b known s)) =
              filter (\<lambda>t. prt_UserID t \<noteq> u_Id user) (password_reset_tokens s))"
proof (intro conjI allI impI)
  show "ForgotPassword now b unknown s = (None, s)"
    using assms(1) by (rule ForgotPassword_unknown)
next
  fix bytes
  assume h: "b = Inr bytes \<and>
             URLEncoding_EncodeToString bytes \<notin>
               set (map prt_Token
                      (filter (\<lambda>t. prt_UserID t \<noteq> u_Id user) (password_reset_tokens s)))"
  then have fresh: "URLEncoding_EncodeToString bytes \<notin>
               set (map prt_Token
                      (filter (\<lambda>t. prt_UserID t \<noteq> u_Id user) (password_reset_tokens s)))"
    and b: "b = Inr bytes" by simp_all
  show "fst (ForgotPassword now b known s) = None"
    unfolding b ForgotPassword_created[OF assms(2) fresh] by simp
  show "password_reset_tokens (snd (ForgotPassword now b known s)) =
          filter (\<lambda>t. prt_UserID t \<noteq> u_Id user) (password_reset_tokens s) @
          [\<lparr>prt_ID = reset_token_seq s + 1, prt_UserID = u_Id user,
            prt_Token = URLEncoding_EncodeToString bytes,
            prt_ExpiresAt = now + Hour, prt_UsedAt = None\<rparr>]"
    unfolding b ForgotPassword_created[OF assms(2) fresh] by simp
next
  fix bytes
  assume h: "b = Inr bytes \<and>
             URLEncoding_EncodeToString bytes \<in>
               set (map prt_Token
                      (filter (\<lambda>t. prt_UserID t \<noteq> u_Id user) (password_reset_tokens s)))"
  then have taken: "URLEncoding_EncodeToString bytes \<in>
               set (map prt_Token
                      (filter (\<lambda>t. prt_UserID t \<noteq> u_Id user) (password_reset_tokens s)))"
    and b: "b = Inr bytes" by simp_all
  show "fst (ForgotPassword now b known s) = Some (ErrWrapped ''failed to create reset token'')"
    unfolding b ForgotPassword_refused[OF assms(2) taken] by simp
  show "password_reset_tokens (snd (ForgotPassword now b known s)) =
          filter (\<lambda>t. prt_UserID t \<noteq> u_Id user) (password_reset_tokens s)"
    unfolding b ForgotPassword_refused[OF assms(2) taken] by simp
next
  fix err
  assume b: "b = Inl err"
  show "fst (ForgotPassword now b known s) = Some (ErrWrapped ''failed to generate token'')"
    unfolding b ForgotPassword_no_token[OF assms(2)] by simp
  show "password_reset_tokens (snd (ForgotPassword now b known s)) =
          filter (\<lambda>t. prt_UserID t \<noteq> u_Id user) (password_reset_tokens s)"
    unfolding b ForgotPassword_no_token[OF assms(2)] by simp
qed

theorem ForgotPassword_anti_enumeration_witness:
  "GetUserByEmail example_reset_store ''nobody@gerege.mn'' = None \<and>
   GetUserByEmail example_reset_store ''bat@gerege.mn'' = Some example_user \<and>
   URLEncoding_EncodeToString example_token_bytes \<notin>
     set (map prt_Token (filter (\<lambda>t. prt_UserID t \<noteq> u_Id example_user)
                           (password_reset_tokens example_reset_store))) \<and>
   ForgotPassword 1000 (Inr example_token_bytes) ''nobody@gerege.mn'' example_reset_store
     = (None, example_reset_store) \<and>
   fst (ForgotPassword 1000 (Inr example_token_bytes) ''bat@gerege.mn'' example_reset_store) = None \<and>
   password_reset_tokens
     (snd (ForgotPassword 1000 (Inr example_token_bytes) ''bat@gerege.mn'' example_reset_store)) =
     [\<lparr>prt_ID = 2, prt_UserID = 1, prt_Token = URLEncoding_EncodeToString example_token_bytes,
       prt_ExpiresAt = 3600000001000, prt_UsedAt = None\<rparr>] \<and>
   fst (ForgotPassword 1000 (Inl ErrRandRead) ''bat@gerege.mn'' example_reset_store)
     = Some (ErrWrapped ''failed to generate token'') \<and>
   password_reset_tokens
     (snd (ForgotPassword 1000 (Inl ErrRandRead) ''bat@gerege.mn'' example_reset_store)) = []"
proof -
  have h1: "GetUserByEmail example_reset_store ''nobody@gerege.mn'' = None"
    and h2: "GetUserByEmail example_reset_store ''bat@gerege.mn'' = Some example_user"
    by (simp_all add: GetUserByEmail_def example_reset_store_def example_store_def example_user_def)
  have h4: "URLEncoding_EncodeToString example_token_bytes \<notin>
     set (map prt_Token (filter (\<lambda>t. prt_UserID t \<noteq> u_Id example_user)
                           (password_reset_tokens example_reset_store)))"
    by (simp add: example_reset_store_def example_reset_token_def example_user_def)
  have e: "filter (\<lambda>t. prt_UserID t \<noteq> u_Id example_user) (password_reset_tokens example_reset_store) = []"
    "filter (\<lambda>t. prt_UserID t \<noteq> 1) (password_reset_tokens example_reset_store) = []"
    "reset_token_seq example_reset_store + 1 = 2" "u_Id example_user = 1" "1000 + Hour = 3600000001000"
    by (simp_all add: example_reset_store_def example_reset_token_def example_user_def Hour_def)
  note read = ForgotPassword_anti_enumeration[OF h1 h2, of 1000 "Inr example_token_bytes"]
  note unread = ForgotPassword_anti_enumeration[OF h1 h2, of 1000 "Inl ErrRandRead"]
  have a: "ForgotPassword 1000 (Inr example_token_bytes) ''nobody@gerege.mn'' example_reset_store
     = (None, example_reset_store)"
    using read by (rule conjunct1)
  have b: "fst (ForgotPassword 1000 (Inr example_token_bytes) ''bat@gerege.mn'' example_reset_store) = None \<and>
    password_reset_tokens
     (snd (ForgotPassword 1000 (Inr example_token_bytes) ''bat@gerege.mn'' example_reset_store)) =
     [\<lparr>prt_ID = 2, prt_UserID = 1, prt_Token = URLEncoding_EncodeToString example_token_bytes,
       prt_ExpiresAt = 3600000001000, prt_UsedAt = None\<rparr>]"
    using read h4 by (simp add: e)
  have c: "fst (ForgotPassword 1000 (Inl ErrRandRead) ''bat@gerege.mn'' example_reset_store)
     = Some (ErrWrapped ''failed to generate token'') \<and>
   password_reset_tokens
     (snd (ForgotPassword 1000 (Inl ErrRandRead) ''bat@gerege.mn'' example_reset_store)) = []"
    using unread by (simp add: e)
  show ?thesis
    using h1 h2 h4 a b c by (intro conjI) simp_all
qed

section \<open>SetPassword and the consumption of a reset token\<close>

lemma find_map_replace:
  "find P cs = Some e \<Longrightarrow> P e' \<Longrightarrow>
   find P (map (\<lambda>c0. if g c0 = g e then e' else c0) cs) = Some e'"
  by (induction cs) (auto split: if_splits)

lemma find_append_new: "find P cs = None \<Longrightarrow> P c \<Longrightarrow> find P (cs @ [c]) = Some c"
  by (induction cs) (auto split: if_splits)

lemma SetPassword_result:
  assumes "PasswordMinLength cfg \<le> int (length password)"
    and "hashPassword d (Inr salt) password = Inr h"
  shows "fst (SetPassword d cfg now (Inr salt) userID password s) = None"
    and "map_option uc_PasswordHash
           (GetCredentialByUserID (snd (SetPassword d cfg now (Inr salt) userID password s)) userID) = Some h"
    and "map_option uc_MustChangePassword
           (GetCredentialByUserID (snd (SetPassword d cfg now (Inr salt) userID password s)) userID) = Some True"
    and "password_history (snd (SetPassword d cfg now (Inr salt) userID password s)) = password_history s"
    and "password_reset_tokens (snd (SetPassword d cfg now (Inr salt) userID password s)) = password_reset_tokens s"
    and "kv_sessions (snd (SetPassword d cfg now (Inr salt) userID password s)) = kv_sessions s"
    and "sessions (snd (SetPassword d cfg now (Inr salt) userID password s)) = sessions s"
proof -
  show "fst (SetPassword d cfg now (Inr salt) userID password s) = None"
    using assms by (simp add: SetPassword_def split: option.splits)
  show "password_history (snd (SetPassword d cfg now (Inr salt) userID password s)) = password_history s"
    "password_reset_tokens (snd (SetPassword d cfg now (Inr salt) userID password s)) = password_reset_tokens s"
    "kv_sessions (snd (SetPassword d cfg now (Inr salt) userID password s)) = kv_sessions s"
    "sessions (snd (SetPassword d cfg now (Inr salt) userID password s)) = sessions s"
    using assms by (simp_all add: SetPassword_def store_defs split: option.splits)
  have "map_option uc_PasswordHash
           (GetCredentialByUserID (snd (SetPassword d cfg now (Inr salt) userID password s)) userID) = Some h \<and>
        map_option uc_MustChangePassword
           (GetCredentialByUserID (snd (SetPassword d cfg now (Inr salt) userID password s)) userID) = Some True"
  proof (cases "GetCredentialByUserID s userID")
    case None
    then have f: "find (\<lambda>c. uc_UserID c = userID) (user_credentials s) = None"
      by (simp add: GetCredentialByUserID_def)
    show ?thesis
      using assms None
      by (simp add: SetPassword_def CreateCredential_def GetCredentialByUserID_def
          find_append_new[OF f])
  next
    case (Some existing)
    then have f: "find (\<lambda>c. uc_UserID c = userID) (user_credentials s) = Some existing"
      by (simp add: GetCredentialByUserID_def)
    then have u: "uc_UserID existing = userID"
      by (auto simp: find_Some_iff)
    let ?e = "existing\<lparr>uc_PasswordHash := h, uc_PasswordChangedAt := Some now,
                       uc_MustChangePassword := True\<rparr>"
    have "find (\<lambda>c. uc_UserID c = userID)
            (map (\<lambda>c0. if uc_ID c0 = uc_ID existing then ?e else c0) (user_credentials s)) = Some ?e"
      using f u by (intro find_map_replace) auto
    then show ?thesis
      using assms Some
      by (simp add: SetPassword_def UpdateCredential_def GetCredentialByUserID_def)
  qed
  then show "map_option uc_PasswordHash
           (GetCredentialByUserID (snd (SetPassword d cfg now (Inr salt) userID password s)) userID) = Some h"
    "map_option uc_MustChangePassword
           (GetCredentialByUserID (snd (SetPassword d cfg now (Inr salt) userID password s)) userID) = Some True"
    by simp_all
qed

lemma find_map_preserve:
  "(\<And>x. P (f x) = P x) \<Longrightarrow> find P (map f xs) = map_option f (find P xs)"
  by (induction xs) auto

lemma LogoutAll_frame:
  "password_reset_tokens (snd (LogoutAll d now uid ip ua s)) = password_reset_tokens s"
  "user_credentials (snd (LogoutAll d now uid ip ua s)) = user_credentials s"
  by (simp_all add: LogoutAll_def Let_def store_defs split: option.splits)

lemma LogoutAll_reachable:
  assumes "kv_DeleteAll_error d now uid = None"
  shows "fst (LogoutAll d now uid ip ua s) = None"
    and "kv_sessions (snd (LogoutAll d now uid ip ua s)) =
           filter (\<lambda>sd. sd_UserID sd \<noteq> uid) (kv_sessions s)"
    and "sessions (snd (LogoutAll d now uid ip ua s)) =
           map (\<lambda>r. if se_UserID r = uid
                     then r\<lparr>se_RevokedAt := Some now, se_RevokedReason := ''logout all''\<rparr> else r)
             (sessions s)"
  using assms by (simp_all add: LogoutAll_def Let_def store_defs)

lemma LogoutAll_unreachable:
  assumes "kv_DeleteAll_error d now uid = Some err"
  shows "LogoutAll d now uid ip ua s = (Some (ErrWrapped ''failed to delete sessions''), s)"
  using assms by (simp add: LogoutAll_def DeleteAllUserSessions_def)

lemma ResetPassword_validates:
  "fst (ResetPassword d cfg now salt tokenStr newPassword confirmPassword s) = None \<Longrightarrow>
   newPassword = confirmPassword \<and> PasswordMinLength cfg \<le> int (length newPassword)"
  by (auto simp: ResetPassword_def split: if_splits)

lemma ResetPassword_steps:
  assumes "newPassword = confirmPassword"
    and "PasswordMinLength cfg \<le> int (length newPassword)"
    and "GetPasswordResetToken s tokenStr = Some token"
    and "\<not> prt_IsExpired now token" and "\<not> prt_IsUsed token"
    and "hashPassword d (Inr salt) newPassword = Inr h"
  shows "ResetPassword d cfg now (Inr salt) tokenStr newPassword confirmPassword s =
           (None,
            snd (LogoutAll d now (prt_UserID token) [] ''password reset''
                   (DeleteUserPasswordResetTokens (prt_UserID token)
                      (snd (SetPassword d cfg now (Inr salt) (prt_UserID token) newPassword
                              (MarkPasswordResetTokenUsed now (prt_ID token) s))))))"
proof -
  let ?s1 = "MarkPasswordResetTokenUsed now (prt_ID token) s"
  obtain s2 where sp: "SetPassword d cfg now (Inr salt) (prt_UserID token) newPassword ?s1 = (None, s2)"
    using SetPassword_result(1)[OF assms(2,6), of now "prt_UserID token" ?s1]
    by (cases "SetPassword d cfg now (Inr salt) (prt_UserID token) newPassword ?s1") auto
  show ?thesis
    using assms(1-5) sp by (simp add: ResetPassword_def Let_def split_beta)
qed

text \<open>
  What ResetPassword does with an outstanding reset token (found, not expired, not
  used; tokens are unique in the table) and a new password that equals its
  confirmation and has the minimum length: it returns nil; it marks the token used,
  sets the password through SetPassword, deletes the reset tokens of the identity
  and calls LogoutAll, in this order. Afterwards the credential holds the new hash,
  no reset token of the identity remains, and every further ResetPassword with the
  same token fails with ErrInvalidResetToken. When the fast store deletes the
  sessions, none of the identity's sessions remains in it and its durable session
  rows are revoked; when the fast store returns an error, the sessions of both
  stores are as they were before the call.
\<close>

lemma ResetPassword_effect:
  assumes "newPassword = confirmPassword"
    and "PasswordMinLength cfg \<le> int (length newPassword)"
    and "GetPasswordResetToken s tokenStr = Some token"
    and "\<not> prt_IsExpired now token" and "\<not> prt_IsUsed token"
    and "distinct (map prt_Token (password_reset_tokens s))"
    and "hashPassword d (Inr salt) newPassword = Inr h"
  shows "fst (ResetPassword d cfg now (Inr salt) tokenStr newPassword confirmPassword s) = None"
    and "map_option prt_UsedAt
           (GetPasswordResetToken (MarkPasswordResetTokenUsed now (prt_ID token) s) tokenStr)
           = Some (Some now)"
    and "map_option uc_PasswordHash
           (GetCredentialByUserID
              (snd (ResetPassword d cfg now (Inr salt) tokenStr newPassword confirmPassword s))
              (prt_UserID token)) = Some h"
    and "\<forall>t \<in> set (password_reset_tokens
                      (snd (ResetPassword d cfg now (Inr salt) tokenStr newPassword confirmPassword s))).
            prt_UserID t \<noteq> prt_UserID token"
    and "\<forall>now' salt'.
            fst (ResetPassword d cfg now' salt' tokenStr newPassword confirmPassword
                   (snd (ResetPassword d cfg now (Inr salt) tokenStr newPassword confirmPassword s)))
              = Some ErrInvalidResetToken"
    and "kv_DeleteAll_error d now (prt_UserID token) = None \<Longrightarrow>
         kv_sessions (snd (ResetPassword d cfg now (Inr salt) tokenStr newPassword confirmPassword s))
           = filter (\<lambda>sd. sd_UserID sd \<noteq> prt_UserID token) (kv_sessions s) \<and>
         sessions (snd (ResetPassword d cfg now (Inr salt) tokenStr newPassword confirmPassword s))
           = map (\<lambda>r. if se_UserID r = prt_UserID token
                       then r\<lparr>se_RevokedAt := Some now, se_RevokedReason := ''logout all''\<rparr> else r)
               (sessions s)"
    and "kv_DeleteAll_error d now (prt_UserID token) = Some err \<Longrightarrow>
         kv_sessions (snd (ResetPassword d cfg now (Inr salt) tokenStr newPassword confirmPassword s))
           = kv_sessions s \<and>
         sessions (snd (ResetPassword d cfg now (Inr salt) tokenStr newPassword confirmPassword s))
           = sessions s"
proof -
  let ?uid = "prt_UserID token"
  let ?s1 = "MarkPasswordResetTokenUsed now (prt_ID token) s"
  let ?s2 = "snd (SetPassword d cfg now (Inr salt) ?uid newPassword ?s1)"
  let ?s3 = "DeleteUserPasswordResetTokens ?uid ?s2"
  let ?s4 = "snd (LogoutAll d now ?uid [] ''password reset'' ?s3)"
  let ?mark = "\<lambda>t. if prt_ID t = prt_ID token then t\<lparr>prt_UsedAt := Some now\<rparr> else t"
  have steps: "ResetPassword d cfg now (Inr salt) tokenStr newPassword confirmPassword s = (None, ?s4)"
    using assms(1-5,7) by (rule ResetPassword_steps)
  have tok: "token \<in> set (password_reset_tokens s)" "prt_Token token = tokenStr"
    using assms(3) by (auto simp: GetPasswordResetToken_def find_Some_iff)
  have marked: "GetPasswordResetToken ?s1 tokenStr = Some (?mark token)"
  proof -
    have "find (\<lambda>t. prt_Token t = tokenStr) (map ?mark (password_reset_tokens s))
            = map_option ?mark (find (\<lambda>t. prt_Token t = tokenStr) (password_reset_tokens s))"
      by (rule find_map_preserve) simp
    then show ?thesis
      using assms(3) by (simp add: GetPasswordResetToken_def MarkPasswordResetTokenUsed_def)
  qed
  have toks4: "password_reset_tokens ?s4 =
                 filter (\<lambda>t. prt_UserID t \<noteq> ?uid) (map ?mark (password_reset_tokens s))"
    using SetPassword_result(5)[OF assms(2,7), of now ?uid ?s1]
    by (simp add: LogoutAll_frame DeleteUserPasswordResetTokens_def MarkPasswordResetTokenUsed_def)
  have cred4: "user_credentials ?s4 = user_credentials ?s2"
    by (simp add: LogoutAll_frame DeleteUserPasswordResetTokens_def)
  have kv3: "kv_sessions ?s3 = kv_sessions s"
    using SetPassword_result(6)[OF assms(2,7), of now ?uid ?s1]
    by (simp add: DeleteUserPasswordResetTokens_def MarkPasswordResetTokenUsed_def)
  have se3: "sessions ?s3 = sessions s"
    using SetPassword_result(7)[OF assms(2,7), of now ?uid ?s1]
    by (simp add: DeleteUserPasswordResetTokens_def MarkPasswordResetTokenUsed_def)
  have none: "GetPasswordResetToken ?s4 tokenStr = None"
  proof -
    have "\<not> (\<exists>t. t \<in> set (password_reset_tokens ?s4) \<and> prt_Token t = tokenStr)"
    proof
      assume "\<exists>t. t \<in> set (password_reset_tokens ?s4) \<and> prt_Token t = tokenStr"
      then obtain t0 where t0: "t0 \<in> set (password_reset_tokens s)"
        "prt_UserID (?mark t0) \<noteq> ?uid" "prt_Token (?mark t0) = tokenStr"
        unfolding toks4 by auto
      then have "prt_Token t0 = prt_Token token" "prt_UserID t0 \<noteq> ?uid"
        using tok(2) by (auto split: if_splits)
      moreover have "inj_on prt_Token (set (password_reset_tokens s))"
        using assms(6) by (simp add: distinct_map)
      ultimately have "t0 = token"
        using t0(1) tok(1) by (auto dest: inj_onD)
      with \<open>prt_UserID t0 \<noteq> ?uid\<close> show False by simp
    qed
    then show ?thesis
      by (simp add: GetPasswordResetToken_def find_None_iff)
  qed
  show "fst (ResetPassword d cfg now (Inr salt) tokenStr newPassword confirmPassword s) = None"
    by (simp add: steps)
  show "map_option prt_UsedAt (GetPasswordResetToken ?s1 tokenStr) = Some (Some now)"
    by (simp add: marked)
  have "GetCredentialByUserID ?s4 ?uid = GetCredentialByUserID ?s2 ?uid"
    using cred4 by (rule GetCredential_cong)
  then show "map_option uc_PasswordHash
         (GetCredentialByUserID
            (snd (ResetPassword d cfg now (Inr salt) tokenStr newPassword confirmPassword s))
            ?uid) = Some h"
    using SetPassword_result(2)[OF assms(2,7), of now ?uid ?s1] by (simp add: steps)
  show "\<forall>t \<in> set (password_reset_tokens
                      (snd (ResetPassword d cfg now (Inr salt) tokenStr newPassword confirmPassword s))).
            prt_UserID t \<noteq> ?uid"
    by (simp add: steps toks4)
  show "\<forall>now' salt'.
            fst (ResetPassword d cfg now' salt' tokenStr newPassword confirmPassword
                   (snd (ResetPassword d cfg now (Inr salt) tokenStr newPassword confirmPassword s)))
              = Some ErrInvalidResetToken"
  proof (intro allI)
    fix now' salt'
    have "fst (ResetPassword d cfg now' salt' tokenStr newPassword confirmPassword ?s4)
            = Some ErrInvalidResetToken"
      using assms(1,2) none by (simp add: ResetPassword_def)
    then show "fst (ResetPassword d cfg now' salt' tokenStr newPassword confirmPassword
                 (snd (ResetPassword d cfg now (Inr salt) tokenStr newPassword confirmPassword s)))
            = Some ErrInvalidResetToken"
      by (simp add: steps)
  qed
  show "kv_sessions (snd (ResetPassword d cfg now (Inr salt) tokenStr newPassword confirmPassword s))
           = filter (\<lambda>sd. sd_UserID sd \<noteq> ?uid) (kv_sessions s) \<and>
         sessions (snd (ResetPassword d cfg now (Inr salt) tokenStr newPassword confirmPassword s))
           = map (\<lambda>r. if se_UserID r = ?uid
                       then r\<lparr>se_RevokedAt := Some now, se_RevokedReason := ''logout all''\<rparr> else r)
               (sessions s)"
    if up: "kv_DeleteAll_error d now ?uid = None"
    by (simp add: steps LogoutAll_reachable(2,3)[OF up] kv3 se3)
  show "kv_sessions (snd (ResetPassword d cfg now (Inr salt) tokenStr newPassword confirmPassword s))
           = kv_sessions s \<and>
         sessions (snd (ResetPassword d cfg now (Inr salt) tokenStr newPassword confirmPassword s))
           = sessions s"
    if down: "kv_DeleteAll_error d now ?uid = Some err"
    by (simp add: steps LogoutAll_unreachable[OF down] kv3 se3)
qed

lemma example_reset_facts:
  "PasswordMinLength example_cfg \<le> int (length ''new password'')"
  "GetPasswordResetToken example_reset_store ''b2xkLXRva2Vu'' = Some example_reset_token"
  "\<not> prt_IsExpired 1000 example_reset_token"
  "\<not> prt_IsUsed example_reset_token"
  "distinct (map prt_Token (password_reset_tokens example_reset_store))"
  "hashPassword example_deps (Inr example_salt) ''new password'' = Inr example_new_hash"
  "hashPassword example_deps_unreachable (Inr example_salt) ''new password'' = Inr example_new_hash"
  by (simp_all add: example_cfg_def GetPasswordResetToken_def example_reset_store_def
      example_reset_token_def prt_IsExpired_def prt_IsUsed_def example_new_hash_def
      hashPassword_def Let_def example_deps_unreachable_def)

text \<open>
  C6. ResetPassword on the example store, which holds an outstanding reset token of
  the user and one open session of the user in both stores, while the fast store
  cannot be reached: the call returns nil, the credential holds the new hash and no
  reset token of the user remains, but LogoutAll has returned its error (which
  ResetPassword drops) before it revoked anything: the session is still in the fast
  store and its durable row is not revoked. With a fast store that answers, the same
  call leaves no session of the user in the fast store and revokes the durable
  row.
\<close>

theorem ResetPassword_keeps_sessions:
  "fst (ResetPassword example_deps_unreachable example_cfg 1000 (Inr example_salt) ''b2xkLXRva2Vu''
          ''new password'' ''new password'' example_reset_store) = None \<and>
   map_option uc_PasswordHash
     (GetCredentialByUserID
        (snd (ResetPassword example_deps_unreachable example_cfg 1000 (Inr example_salt)
                ''b2xkLXRva2Vu'' ''new password'' ''new password'' example_reset_store)) 1)
     = Some example_new_hash \<and>
   kv_sessions
     (snd (ResetPassword example_deps_unreachable example_cfg 1000 (Inr example_salt)
             ''b2xkLXRva2Vu'' ''new password'' ''new password'' example_reset_store))
     = [example_session] \<and>
   sessions
     (snd (ResetPassword example_deps_unreachable example_cfg 1000 (Inr example_salt)
             ''b2xkLXRva2Vu'' ''new password'' ''new password'' example_reset_store))
     = [example_session_row] \<and>
   sd_UserID example_session = prt_UserID example_reset_token \<and>
   se_UserID example_session_row = prt_UserID example_reset_token \<and>
   se_RevokedAt example_session_row = None \<and>
   fst (LogoutAll example_deps_unreachable 1000 (prt_UserID example_reset_token) []
          ''password reset'' example_reset_store)
     = Some (ErrWrapped ''failed to delete sessions'') \<and>
   kv_sessions
     (snd (ResetPassword example_deps example_cfg 1000 (Inr example_salt)
             ''b2xkLXRva2Vu'' ''new password'' ''new password'' example_reset_store)) = [] \<and>
   map se_RevokedAt
     (sessions
        (snd (ResetPassword example_deps example_cfg 1000 (Inr example_salt)
                ''b2xkLXRva2Vu'' ''new password'' ''new password'' example_reset_store)))
     = [Some 1000]"
proof -
  note f = example_reset_facts
  have uid: "prt_UserID example_reset_token = 1"
    by (simp add: example_reset_token_def)
  have down: "kv_DeleteAll_error example_deps_unreachable 1000 (prt_UserID example_reset_token)
                = Some ErrUnreachable"
    and up: "kv_DeleteAll_error example_deps 1000 (prt_UserID example_reset_token) = None"
    by (simp_all add: example_deps_unreachable_def example_deps_def)
  note bad = ResetPassword_effect[OF refl f(1) f(2) f(3) f(4) f(5) f(7)]
  note good = ResetPassword_effect[OF refl f(1) f(2) f(3) f(4) f(5) f(6)]
  have st: "kv_sessions example_reset_store = [example_session]"
    "sessions example_reset_store = [example_session_row]"
    by (simp_all add: example_reset_store_def)
  have a: "fst (ResetPassword example_deps_unreachable example_cfg 1000 (Inr example_salt)
          ''b2xkLXRva2Vu'' ''new password'' ''new password'' example_reset_store) = None"
    by (rule bad(1))
  have b: "map_option uc_PasswordHash
     (GetCredentialByUserID
        (snd (ResetPassword example_deps_unreachable example_cfg 1000 (Inr example_salt)
                ''b2xkLXRva2Vu'' ''new password'' ''new password'' example_reset_store)) 1)
     = Some example_new_hash"
    using bad(3) by (simp add: uid)
  have c: "kv_sessions
     (snd (ResetPassword example_deps_unreachable example_cfg 1000 (Inr example_salt)
             ''b2xkLXRva2Vu'' ''new password'' ''new password'' example_reset_store))
     = [example_session]"
    "sessions
     (snd (ResetPassword example_deps_unreachable example_cfg 1000 (Inr example_salt)
             ''b2xkLXRva2Vu'' ''new password'' ''new password'' example_reset_store))
     = [example_session_row]"
    using bad(7)[OF down] by (simp_all add: st)
  have e: "sd_UserID example_session = prt_UserID example_reset_token"
    "se_UserID example_session_row = prt_UserID example_reset_token"
    "se_RevokedAt example_session_row = None"
    by (simp_all add: example_session_def example_session_row_def example_reset_token_def)
  have g: "fst (LogoutAll example_deps_unreachable 1000 (prt_UserID example_reset_token) []
          ''password reset'' example_reset_store)
     = Some (ErrWrapped ''failed to delete sessions'')"
    by (simp add: LogoutAll_unreachable[OF down])
  have h: "kv_sessions
     (snd (ResetPassword example_deps example_cfg 1000 (Inr example_salt)
             ''b2xkLXRva2Vu'' ''new password'' ''new password'' example_reset_store)) = []"
    "map se_RevokedAt
     (sessions
        (snd (ResetPassword example_deps example_cfg 1000 (Inr example_salt)
                ''b2xkLXRva2Vu'' ''new password'' ''new password'' example_reset_store)))
     = [Some 1000]"
    using good(6)[OF up]
    by (simp_all add: st uid example_session_def example_session_row_def)
  show ?thesis
    using a b c e g h by (intro conjI)
qed

section \<open>SetPassword and the password history\<close>

lemma SetPassword_keeps_history:
  "password_history (snd (SetPassword d cfg now salt userID password s)) = password_history s"
  by (simp add: SetPassword_def store_defs split: sum.splits option.splits)

lemma ChangePassword_pushes_history:
  assumes "fst (ChangePassword d cfg now salt userID currentPass newPass ip userAgent s) = None"
  shows "\<exists>cred. GetCredentialByUserID s userID = Some cred \<and>
           password_history (snd (ChangePassword d cfg now salt userID currentPass newPass ip userAgent s))
             = password_history s @ [\<lparr>ph_UserID = userID, ph_PasswordHash = uc_PasswordHash cred\<rparr>]"
  using assms
  by (auto simp: ChangePassword_def Let_def store_defs split: option.splits sum.splits if_splits)

lemma example_new_hash_eq:
  "hashPassword example_deps (Inr example_salt) ''new password'' = Inr example_new_hash"
  by (simp add: example_new_hash_def hashPassword_def Let_def)

lemma example_new_hash_differs: "example_new_hash \<noteq> example_hash"
proof
  assume eq: "example_new_hash = example_hash"
  have "verifyPassword example_deps ''correct horse'' example_new_hash \<longleftrightarrow>
        sum_list (bytes_of ''new password'' @ example_salt) = sum_list (bytes_of ''correct horse'' @ example_salt)"
    using verifyPassword_encoded[OF example_new_hash_eq, of "''correct horse''"]
    by (simp add: example_deps_def argon2KeyLen_def argon2Time_def argon2Memory_def argon2Threads_def)
  then have "\<not> verifyPassword example_deps ''correct horse'' example_new_hash"
    by (simp add: bytes_of_def)
  with example_right eq show False by simp
qed

text \<open>
  C3. The code does not do what the claim says: SetPassword never writes to the
  password history. On the example store, whose user has a Credential with the
  hash of ``correct horse'' and an empty history, SetPassword succeeds, the
  Credential holds the hash of the new password, which is another string, and the
  history is still empty: the previous hash is lost. (ChangePassword pushes the
  previous hash before it overwrites it, see ChangePassword_pushes_history.)
\<close>

theorem SetPassword_drops_previous_hash:
  "map_option uc_PasswordHash (GetCredentialByUserID example_store 1) = Some example_hash \<and>
   password_history example_store = [] \<and>
   fst (SetPassword example_deps example_cfg 1000 (Inr example_salt) 1 ''new password'' example_store) = None \<and>
   map_option uc_PasswordHash
     (GetCredentialByUserID
        (snd (SetPassword example_deps example_cfg 1000 (Inr example_salt) 1 ''new password'' example_store)) 1)
     = Some example_new_hash \<and>
   example_new_hash \<noteq> example_hash \<and>
   password_history
     (snd (SetPassword example_deps example_cfg 1000 (Inr example_salt) 1 ''new password'' example_store)) = []"
proof -
  have len: "PasswordMinLength example_cfg \<le> int (length ''new password'')"
    by (simp add: example_cfg_def)
  have "map_option uc_PasswordHash (GetCredentialByUserID example_store 1) = Some example_hash"
    by (simp add: GetCredentialByUserID_def example_store_def example_cred_def)
  moreover have "password_history example_store = []"
    by (simp add: example_store_def)
  moreover note SetPassword_result(1,2)[OF len example_new_hash_eq, of 1000 1 example_store]
    example_new_hash_differs
  moreover have "password_history
     (snd (SetPassword example_deps example_cfg 1000 (Inr example_salt) 1 ''new password'' example_store)) = []"
    by (simp add: SetPassword_keeps_history example_store_def)
  ultimately show ?thesis by (intro conjI)
qed

section \<open>ConfirmTOTP and the backup codes\<close>

lemma backupCodeRows_success:
  assumes "\<forall>x \<in> set ds. \<exists>salt. snd x = Inr salt"
  shows "backupCodeRows d userID ds =
           Inr (map (\<lambda>x. generateRandomCode (fst x)) ds,
                map (\<lambda>x. \<lparr>bc_ID = 0, bc_UserID = userID,
                           bc_CodeHash = hashBackupCodeWithSalt d (generateRandomCode (fst x)) (projr (snd x)),
                           bc_Salt = EncodeToString (projr (snd x)), bc_UsedAt = None\<rparr>) ds)"
  using assms
proof (induction ds)
  case Nil
  then show ?case by simp
next
  case (Cons x ds)
  obtain b saltRead where x: "x = (b, saltRead)" by (cases x)
  with Cons.prems obtain salt where s: "saltRead = Inr salt" by auto
  from Cons have "backupCodeRows d userID ds =
           Inr (map (\<lambda>x. generateRandomCode (fst x)) ds,
                map (\<lambda>x. \<lparr>bc_ID = 0, bc_UserID = userID,
                           bc_CodeHash = hashBackupCodeWithSalt d (generateRandomCode (fst x)) (projr (snd x)),
                           bc_Salt = EncodeToString (projr (snd x)), bc_UsedAt = None\<rparr>) ds)"
    by simp
  then show ?case
    by (simp add: x s generateBackupCodeSalt_def Let_def)
qed

lemma backupCodeRows_failure:
  "snd x = Inl err \<Longrightarrow> backupCodeRows d userID (x # ds) = Inl (ErrWrapped ''failed to generate salt'')"
  by (cases x) (simp add: generateBackupCodeSalt_def Let_def)

lemma length_assign_ids [simp]: "length (assign_ids n rows) = length rows"
  by (induction rows arbitrary: n) auto

lemma generateBackupCodes_success:
  assumes "\<forall>i < 10. \<exists>salt. snd (draws i) = Inr salt"
  shows "generateBackupCodes d userID draws s =
           (Inr (map (\<lambda>i. generateRandomCode (fst (draws i))) [0..<10]),
            CreateBackupCodes
              (map (\<lambda>i. \<lparr>bc_ID = 0, bc_UserID = userID,
                           bc_CodeHash = hashBackupCodeWithSalt d (generateRandomCode (fst (draws i)))
                                           (projr (snd (draws i))),
                           bc_Salt = EncodeToString (projr (snd (draws i))), bc_UsedAt = None\<rparr>)
                 [0..<10]) s)"
proof -
  have "\<forall>x \<in> set (map draws [0..<10]). \<exists>salt. snd x = Inr salt"
    using assms by auto
  then show ?thesis
    unfolding generateBackupCodes_def
    by (simp only: backupCodeRows_success map_map comp_def sum.case prod.case)
qed

lemma generateBackupCodes_failure:
  "snd (draws 0) = Inl err \<Longrightarrow>
   generateBackupCodes d userID draws s = (Inl (ErrWrapped ''failed to generate salt''), s)"
proof -
  assume a: "snd (draws 0) = Inl err"
  have "map draws [0..<10] = draws 0 # map draws [1..<10]"
    by (simp add: upt_conv_Cons)
  then show ?thesis
    by (simp add: generateBackupCodes_def backupCodeRows_failure[OF a])
qed

lemma ConfirmTOTP_result_independent:
  "fst (ConfirmTOTP d now userID code ip userAgent draws s) =
   fst (ConfirmTOTP d now userID code ip userAgent draws' s)"
  by (simp add: ConfirmTOTP_def Let_def split_beta split: option.splits sum.splits)

lemma ConfirmTOTP_invalid_code:
  assumes "GetMFAByUserID s userID = Some mfa" and "\<not> mfa_IsEnabled mfa"
    and "decryptTOTPSecret d (mfa_SecretEncrypted mfa) = Inr secret"
    and "\<not> totp_Validate d now code secret"
  shows "ConfirmTOTP d now userID code ip userAgent draws s = (Some ErrInvalidMFACode, s)"
  using assms by (simp add: ConfirmTOTP_def)

lemma GetMFA_Enable:
  "GetMFAByUserID (EnableMFA now uid s) uid =
   map_option (\<lambda>m. m\<lparr>mfa_IsEnabled := True, mfa_VerifiedAt := Some now\<rparr>) (GetMFAByUserID s uid)"
  by (simp add: GetMFAByUserID_def EnableMFA_def find_map_if)

lemma ConfirmTOTP_valid_code:
  assumes "GetMFAByUserID s userID = Some mfa" and "\<not> mfa_IsEnabled mfa"
    and "decryptTOTPSecret d (mfa_SecretEncrypted mfa) = Inr secret"
    and "totp_Validate d now code secret"
  shows "fst (ConfirmTOTP d now userID code ip userAgent draws s) = None"
    and "GetMFAByUserID (snd (ConfirmTOTP d now userID code ip userAgent draws s)) userID
           = Some (mfa\<lparr>mfa_IsEnabled := True, mfa_VerifiedAt := Some now\<rparr>)"
    and "user_mfa_backup_codes (snd (ConfirmTOTP d now userID code ip userAgent draws s))
           = user_mfa_backup_codes (snd (generateBackupCodes d userID draws (EnableMFA now userID s)))"
proof -
  obtain r s2 where g: "generateBackupCodes d userID draws (EnableMFA now userID s) = (r, s2)"
    by (cases "generateBackupCodes d userID draws (EnableMFA now userID s)")
  have m: "user_mfa_totp s2 = user_mfa_totp (EnableMFA now userID s)"
    using g by (auto simp: generateBackupCodes_def CreateBackupCodes_def split: sum.splits prod.splits)
  have c: "ConfirmTOTP d now userID code ip userAgent draws s =
        (None, logAudit (Some userID) ''mfa_enable'' ''user'' (Itoa userID) None
                   (Some [(''backup_codes_generated'',
                           JInt (int (length (case r of Inl err \<Rightarrow> [] | Inr codes \<Rightarrow> codes))))])
                   ip userAgent s2)"
    using assms g by (simp add: ConfirmTOTP_def Let_def)
  show "fst (ConfirmTOTP d now userID code ip userAgent draws s) = None"
    by (simp add: c)
  have "GetMFAByUserID (snd (ConfirmTOTP d now userID code ip userAgent draws s)) userID
          = GetMFAByUserID (EnableMFA now userID s) userID"
    using m by (simp add: c GetMFAByUserID_def store_defs)
  then show "GetMFAByUserID (snd (ConfirmTOTP d now userID code ip userAgent draws s)) userID
           = Some (mfa\<lparr>mfa_IsEnabled := True, mfa_VerifiedAt := Some now\<rparr>)"
    using assms(1) by (simp add: GetMFA_Enable)
  show "user_mfa_backup_codes (snd (ConfirmTOTP d now userID code ip userAgent draws s))
           = user_mfa_backup_codes (snd (generateBackupCodes d userID draws (EnableMFA now userID s)))"
    unfolding g by (simp add: c logAudit_def CreateAuditTrail_def)
qed

lemma GenerateBackupCodes_returns_codes:
  assumes "GetMFAByUserID s userID = Some mfa" and "mfa_IsEnabled mfa"
    and "\<forall>i < 10. \<exists>salt. snd (draws i) = Inr salt"
  shows "fst (GenerateBackupCodes d userID ip userAgent draws s) =
           Inr (map (\<lambda>i. generateRandomCode (fst (draws i))) [0..<10])"
proof -
  have "GetMFAByUserID s userID = Some mfa \<Longrightarrow> mfa_IsEnabled mfa \<Longrightarrow> ?thesis"
    unfolding GenerateBackupCodes_def Let_def generateBackupCodes_success[OF assms(3)]
    by simp
  with assms show ?thesis by simp
qed

text \<open>
  C2. The code does not do what the claim says. ConfirmTOTP has the result type
  error: on the example store after SetupTOTP, with the valid code, it enables the
  MFAConfig, stores ten backup-code rows and returns nil, so the caller never
  receives the ten plaintext codes (GenerateBackupCodes, called next with the same
  random material, does return its codes). And when the salt of a backup code
  cannot be read, ConfirmTOTP still returns nil with the MFAConfig enabled and no
  backup code stored.
\<close>

theorem ConfirmTOTP_returns_no_codes:
  "fst (ConfirmTOTP example_deps 1000 1 ''JBSWY3DPEHPK3PXP'' ''10.0.0.7'' ''curl'' example_draws
          example_totp_pending_store) = None \<and>
   map_option mfa_IsEnabled
     (GetMFAByUserID
        (snd (ConfirmTOTP example_deps 1000 1 ''JBSWY3DPEHPK3PXP'' ''10.0.0.7'' ''curl'' example_draws
                example_totp_pending_store)) 1) = Some True \<and>
   length (user_mfa_backup_codes
             (snd (ConfirmTOTP example_deps 1000 1 ''JBSWY3DPEHPK3PXP'' ''10.0.0.7'' ''curl'' example_draws
                     example_totp_pending_store))) = 10 \<and>
   fst (GenerateBackupCodes example_deps 1 ''10.0.0.7'' ''curl'' example_draws
          (snd (ConfirmTOTP example_deps 1000 1 ''JBSWY3DPEHPK3PXP'' ''10.0.0.7'' ''curl'' example_draws
                  example_totp_pending_store)))
     = Inr (map (\<lambda>i. generateRandomCode (fst (example_draws i))) [0..<10]) \<and>
   fst (ConfirmTOTP example_deps 1000 1 ''JBSWY3DPEHPK3PXP'' ''10.0.0.7'' ''curl'' example_failing_draws
          example_totp_pending_store) = None \<and>
   map_option mfa_IsEnabled
     (GetMFAByUserID
        (snd (ConfirmTOTP example_deps 1000 1 ''JBSWY3DPEHPK3PXP'' ''10.0.0.7'' ''curl''
                example_failing_draws example_totp_pending_store)) 1) = Some True \<and>
   user_mfa_backup_codes
     (snd (ConfirmTOTP example_deps 1000 1 ''JBSWY3DPEHPK3PXP'' ''10.0.0.7'' ''curl''
             example_failing_draws example_totp_pending_store)) = []"
proof -
  let ?mfa = "example_mfa\<lparr>mfa_IsEnabled := False, mfa_VerifiedAt := None\<rparr>"
  have h1: "GetMFAByUserID example_totp_pending_store 1 = Some ?mfa"
    by (simp add: GetMFAByUserID_def example_totp_pending_store_def example_mfa_def)
  have h2: "\<not> mfa_IsEnabled ?mfa" by simp
  have h3: "decryptTOTPSecret example_deps (mfa_SecretEncrypted ?mfa) = Inr ''JBSWY3DPEHPK3PXP''"
    by (simp add: decryptTOTPSecret_def example_deps_def example_mfa_def)
  have h4: "totp_Validate example_deps 1000 ''JBSWY3DPEHPK3PXP'' ''JBSWY3DPEHPK3PXP''"
    by (simp add: example_deps_def)
  have ok: "\<forall>i < 10. \<exists>salt. snd (example_draws i) = Inr salt"
    by (simp add: example_draws_def)
  have bad: "snd (example_failing_draws 0) = Inl ErrRandRead"
    by (simp add: example_failing_draws_def)
  note good = ConfirmTOTP_valid_code[OF h1 h2 h3 h4, of "''10.0.0.7''" "''curl''" example_draws]
  note fail = ConfirmTOTP_valid_code[OF h1 h2 h3 h4, of "''10.0.0.7''" "''curl''" example_failing_draws]
  have a: "map_option mfa_IsEnabled
     (GetMFAByUserID
        (snd (ConfirmTOTP example_deps 1000 1 ''JBSWY3DPEHPK3PXP'' ''10.0.0.7'' ''curl'' example_draws
                example_totp_pending_store)) 1) = Some True"
    by (simp add: good(2))
  have b: "length (user_mfa_backup_codes
             (snd (ConfirmTOTP example_deps 1000 1 ''JBSWY3DPEHPK3PXP'' ''10.0.0.7'' ''curl'' example_draws
                     example_totp_pending_store))) = 10"
    unfolding good(3) generateBackupCodes_success[OF ok]
    by (simp add: CreateBackupCodes_def EnableMFA_def example_totp_pending_store_def
        example_store_def)
  have c: "fst (GenerateBackupCodes example_deps 1 ''10.0.0.7'' ''curl'' example_draws
          (snd (ConfirmTOTP example_deps 1000 1 ''JBSWY3DPEHPK3PXP'' ''10.0.0.7'' ''curl'' example_draws
                  example_totp_pending_store)))
     = Inr (map (\<lambda>i. generateRandomCode (fst (example_draws i))) [0..<10])"
    by (rule GenerateBackupCodes_returns_codes[OF good(2) _ ok]) simp
  have e: "map_option mfa_IsEnabled
     (GetMFAByUserID
        (snd (ConfirmTOTP example_deps 1000 1 ''JBSWY3DPEHPK3PXP'' ''10.0.0.7'' ''curl''
                example_failing_draws example_totp_pending_store)) 1) = Some True"
    by (simp add: fail(2))
  have f: "user_mfa_backup_codes
     (snd (ConfirmTOTP example_deps 1000 1 ''JBSWY3DPEHPK3PXP'' ''10.0.0.7'' ''curl''
             example_failing_draws example_totp_pending_store)) = []"
    unfolding fail(3) generateBackupCodes_failure[of example_failing_draws, OF bad]
    by (simp add: EnableMFA_def example_totp_pending_store_def example_store_def)
  show ?thesis
    using good(1) a b c fail(1) e f by (intro conjI)
qed

section \<open>The consumption of a backup code\<close>

lemma matchBackupCode_find: "matchBackupCode d code cs = find (backupCodeMatches d code) cs"
  by (induction cs) auto

lemma map_ID_assign_ids: "map bc_ID (assign_ids m rows) = map (\<lambda>k. m + int k) [0..<length rows]"
proof (induction rows arbitrary: m)
  case Nil
  then show ?case by simp
next
  case (Cons r rows)
  have "map (\<lambda>k. m + int k) [0..<Suc (length rows)] =
        m # map (\<lambda>k. m + 1 + int k) [0..<length rows]"
    by (simp add: upt_conv_Cons map_Suc_upt[symmetric] del: upt_Suc)
  with Cons show ?case by simp
qed

lemma assign_ids_ids:
  "distinct (map bc_ID (assign_ids m rows))"
  "b \<in> set (assign_ids m rows) \<Longrightarrow> m \<le> bc_ID b \<and> bc_ID b < m + int (length rows)"
proof -
  show "distinct (map bc_ID (assign_ids m rows))"
    unfolding map_ID_assign_ids by (simp add: distinct_map inj_on_def)
  assume "b \<in> set (assign_ids m rows)"
  then have "bc_ID b \<in> set (map bc_ID (assign_ids m rows))" by simp
  then show "m \<le> bc_ID b \<and> bc_ID b < m + int (length rows)"
    unfolding map_ID_assign_ids by auto
qed

lemma distinct_ID_eq:
  "distinct (map bc_ID cs) \<Longrightarrow> a \<in> set cs \<Longrightarrow> b \<in> set cs \<Longrightarrow> bc_ID a = bc_ID b \<Longrightarrow> a = b"
  by (auto simp: distinct_map dest: inj_onD)

lemma descends_trans: "descends p q \<Longrightarrow> descends q r \<Longrightarrow> descends p r"
  unfolding descends_def list_all_iff list_ex_iff
  by (intro conjI ballI impI, force) (metis order_trans)

lemma descends_used:
  assumes "descends p q" and "codes_ok p"
    and "b \<in> set (fst p)" and "bc_UsedAt b \<noteq> None"
    and "b' \<in> set (fst q)" and "bc_ID b' = bc_ID b"
  shows "bc_UsedAt b' \<noteq> None"
proof -
  have "bc_ID b' \<le> snd p"
    using assms(2,3,6) by (auto simp: codes_ok_def list_all_iff)
  then obtain b0 where b0: "b0 \<in> set (fst p)" "bc_ID b0 = bc_ID b'"
    "bc_UsedAt b0 \<noteq> None \<longrightarrow> bc_UsedAt b' \<noteq> None"
    using assms(1,5) unfolding descends_def list_all_iff list_ex_iff by blast
  have "b0 = b"
    using assms(2,3,6) b0(1,2) by (auto simp: codes_ok_def intro: distinct_ID_eq)
  with b0(3) assms(4) show ?thesis by simp
qed

lemma codes_change_ok:
  "codes_change p q \<Longrightarrow> codes_ok p \<Longrightarrow> codes_ok q \<and> descends p q"
proof (induction rule: codes_change.induct)
  case (change_none p)
  then show ?case
    by (auto simp: codes_ok_def descends_def list_all_iff list_ex_iff)
next
  case (change_use cs n i t)
  let ?f = "\<lambda>b. if bc_ID b = i then b\<lparr>bc_UsedAt := Some t\<rparr> else b"
  have ids: "map bc_ID (map ?f cs) = map bc_ID cs" by (induction cs) auto
  have "codes_ok (map ?f cs, n)"
    using change_use ids unfolding codes_ok_def list_all_iff fst_conv snd_conv
    by (metis (no_types, lifting) image_set imageE image_eqI)
  moreover have "descends (cs, n) (map ?f cs, n)"
    unfolding descends_def list_all_iff list_ex_iff by auto
  ultimately show ?case by simp
next
  case (change_delete cs n u)
  have "codes_ok (filter (\<lambda>b. bc_UserID b \<noteq> u) cs, n)"
    using change_delete by (auto simp: codes_ok_def list_all_iff distinct_map_filter)
  moreover have "descends (cs, n) (filter (\<lambda>b. bc_UserID b \<noteq> u) cs, n)"
    unfolding descends_def list_all_iff list_ex_iff by auto
  ultimately show ?case by simp
next
  case (change_create cs n rows)
  have old: "\<forall>b \<in> set cs. bc_ID b \<le> n" and d: "distinct (map bc_ID cs)"
    using change_create by (auto simp: codes_ok_def list_all_iff)
  have new: "\<forall>b \<in> set (assign_ids (n + 1) rows). n < bc_ID b \<and> bc_ID b \<le> n + int (length rows)"
    by (auto dest: assign_ids_ids(2))
  have "bc_ID ` set cs \<inter> bc_ID ` set (assign_ids (n + 1) rows) = {}"
    using old new by fastforce
  then have "distinct (map bc_ID (cs @ assign_ids (n + 1) rows))"
    using d assign_ids_ids(1)[of "n + 1" rows] by simp
  moreover have "\<forall>b \<in> set (cs @ assign_ids (n + 1) rows). bc_ID b \<le> n + int (length rows)"
    using old new by fastforce
  moreover have "descends (cs, n) (cs @ assign_ids (n + 1) rows, n + int (length rows))"
    unfolding descends_def list_all_iff list_ex_iff using new by fastforce
  ultimately show ?case by (simp add: codes_ok_def list_all_iff)
next
  case (change_trans p q r)
  then show ?case using descends_trans by blast
qed

lemma log_codes:
  "user_mfa_backup_codes (logAudit u ac tt ti ov nv i a s) = user_mfa_backup_codes s"
  "backup_code_seq (logAudit u ac tt ti ov nv i a s) = backup_code_seq s"
  "user_mfa_backup_codes (logFailedLogin u e i a r s) = user_mfa_backup_codes s"
  "backup_code_seq (logFailedLogin u e i a r s) = backup_code_seq s"
  "user_mfa_backup_codes (logSuccessfulLogin uid e i a m s) = user_mfa_backup_codes s"
  "backup_code_seq (logSuccessfulLogin uid e i a m s) = backup_code_seq s"
  "user_mfa_backup_codes (UpdateUserLoginStats now uid s) = user_mfa_backup_codes s"
  "backup_code_seq (UpdateUserLoginStats now uid s) = backup_code_seq s"
  "user_mfa_backup_codes (DeleteMFAToken tok s) = user_mfa_backup_codes s"
  "backup_code_seq (DeleteMFAToken tok s) = backup_code_seq s"
  "user_mfa_backup_codes (EnableMFA now uid s) = user_mfa_backup_codes s"
  "backup_code_seq (EnableMFA now uid s) = backup_code_seq s"
  "user_mfa_backup_codes (DisableMFA uid s) = user_mfa_backup_codes s"
  "backup_code_seq (DisableMFA uid s) = backup_code_seq s"
  by (simp_all add: store_defs)

lemma createSession_codes:
  "user_mfa_backup_codes (snd (createSession d cfg now sid user ip ua s)) = user_mfa_backup_codes s"
  "backup_code_seq (snd (createSession d cfg now sid user ip ua s)) = backup_code_seq s"
  by (simp_all add: createSession_def Let_def store_defs split: option.splits)

lemma createSession_codes_pair:
  "createSession d cfg now sid user ip ua s = (r, s') \<Longrightarrow>
   user_mfa_backup_codes s' = user_mfa_backup_codes s \<and> backup_code_seq s' = backup_code_seq s"
  using createSession_codes[of d cfg now sid user ip ua s] by simp

lemma Login_codes:
  "user_mfa_backup_codes (snd (Login d cfg now uuid req s)) = user_mfa_backup_codes s"
  "backup_code_seq (snd (Login d cfg now uuid req s)) = backup_code_seq s"
  by (auto simp: Login_def Let_def log_codes store_defs dest: createSession_codes_pair
      split: option.splits prod.splits sum.splits)

lemma VerifyMFA_codes:
  "user_mfa_backup_codes (snd (VerifyMFA d cfg now uuid req s)) = user_mfa_backup_codes s"
  "backup_code_seq (snd (VerifyMFA d cfg now uuid req s)) = backup_code_seq s"
  by (auto simp: VerifyMFA_def Let_def log_codes dest: createSession_codes_pair
      split: option.splits prod.splits sum.splits)

lemma codes_frame:
  "user_mfa_backup_codes s' = user_mfa_backup_codes s \<Longrightarrow> backup_code_seq s' = backup_code_seq s \<Longrightarrow>
   codes_change (user_mfa_backup_codes s, backup_code_seq s)
     (user_mfa_backup_codes s', backup_code_seq s')"
  by (simp add: change_none)

lemma password_ops_codes:
  "user_mfa_backup_codes (snd (SetPassword d cfg now salt userID password s)) = user_mfa_backup_codes s"
  "backup_code_seq (snd (SetPassword d cfg now salt userID password s)) = backup_code_seq s"
  "user_mfa_backup_codes (snd (ChangePassword d cfg now salt userID cur new ip ua s)) = user_mfa_backup_codes s"
  "backup_code_seq (snd (ChangePassword d cfg now salt userID cur new ip ua s)) = backup_code_seq s"
  "user_mfa_backup_codes (snd (LogoutAll d now userID ip ua s)) = user_mfa_backup_codes s"
  "backup_code_seq (snd (LogoutAll d now userID ip ua s)) = backup_code_seq s"
  "user_mfa_backup_codes (snd (ForgotPassword now b email s)) = user_mfa_backup_codes s"
  "backup_code_seq (snd (ForgotPassword now b email s)) = backup_code_seq s"
  by (simp_all add: SetPassword_def ChangePassword_def LogoutAll_def ForgotPassword_def
      CreatePasswordResetToken_def Let_def store_defs split: option.splits sum.splits)

lemma ResetPassword_codes:
  "user_mfa_backup_codes (snd (ResetPassword d cfg now salt tok np cp s)) = user_mfa_backup_codes s"
  "backup_code_seq (snd (ResetPassword d cfg now salt tok np cp s)) = backup_code_seq s"
  by (simp_all add: ResetPassword_def Let_def split_beta password_ops_codes
      DeleteUserPasswordResetTokens_def MarkPasswordResetTokenUsed_def
      split: option.splits prod.splits)

lemma VerifyBackupCode_codes:
  "(user_mfa_backup_codes (snd (VerifyBackupCode d cfg now uuid tok code ip ua s)),
    backup_code_seq (snd (VerifyBackupCode d cfg now uuid tok code ip ua s))) =
   (case GetMFAToken now s tok of
      None \<Rightarrow> (user_mfa_backup_codes s, backup_code_seq s)
    | Some pending \<Rightarrow>
        (case matchBackupCode d code (GetUnusedBackupCodes s (mp_UserID pending)) of
           None \<Rightarrow> (user_mfa_backup_codes s, backup_code_seq s)
         | Some c \<Rightarrow>
             (map (\<lambda>b. if bc_ID b = bc_ID c then b\<lparr>bc_UsedAt := Some now\<rparr> else b)
                (user_mfa_backup_codes s), backup_code_seq s)))"
  by (auto simp: VerifyBackupCode_def Let_def log_codes UseBackupCode_def
      dest: createSession_codes_pair split: option.splits prod.splits sum.splits)

lemma generateBackupCodes_change:
  "codes_change (user_mfa_backup_codes s, backup_code_seq s)
     (user_mfa_backup_codes (snd (generateBackupCodes d u draws s)),
      backup_code_seq (snd (generateBackupCodes d u draws s)))"
  by (auto simp: generateBackupCodes_def CreateBackupCodes_def intro: codes_change.intros
      split: sum.splits)

lemma DeleteBackupCodes_change:
  "codes_change (user_mfa_backup_codes s, backup_code_seq s)
     (user_mfa_backup_codes (DeleteBackupCodes u s), backup_code_seq (DeleteBackupCodes u s))"
  by (simp add: DeleteBackupCodes_def change_delete)

lemma service_step_codes_change:
  assumes "service_step d cfg s s'"
  shows "codes_change (user_mfa_backup_codes s, backup_code_seq s)
           (user_mfa_backup_codes s', backup_code_seq s')"
  using assms
proof (cases rule: service_step.cases)
  case (step_Login now uuid req)
  then show ?thesis by (simp add: Login_codes change_none)
next
  case (step_VerifyMFA now uuid vreq)
  then show ?thesis by (simp add: VerifyMFA_codes change_none)
next
  case (step_VerifyBackupCode now uuid mfaToken code ip userAgent)
  then show ?thesis
    by (auto simp: VerifyBackupCode_codes intro: codes_change.intros split: option.splits)
next
  case (step_ConfirmTOTP now userID code ip userAgent draws)
  have "codes_change (user_mfa_backup_codes s, backup_code_seq s)
          (user_mfa_backup_codes (snd (generateBackupCodes d userID draws (EnableMFA now userID s))),
           backup_code_seq (snd (generateBackupCodes d userID draws (EnableMFA now userID s))))"
    using generateBackupCodes_change[of "EnableMFA now userID s" d userID draws]
    by (simp add: log_codes)
  then show ?thesis
    unfolding step_ConfirmTOTP
    by (auto simp: ConfirmTOTP_def Let_def split_beta log_codes intro: change_none
        split: option.splits sum.splits)
next
  case (step_DisableTOTP now userID code ip userAgent)
  have "codes_change (user_mfa_backup_codes s, backup_code_seq s)
          (user_mfa_backup_codes (DeleteBackupCodes userID (DisableMFA userID s)),
           backup_code_seq (DeleteBackupCodes userID (DisableMFA userID s)))"
    using DeleteBackupCodes_change[of "DisableMFA userID s" userID] by (simp add: log_codes)
  then show ?thesis
    unfolding step_DisableTOTP
    by (auto simp: DisableTOTP_def Let_def log_codes intro: change_none
        split: option.splits sum.splits)
next
  case (step_GenerateBackupCodes userID ip userAgent draws)
  let ?s1 = "DeleteBackupCodes userID s"
  let ?s2 = "snd (generateBackupCodes d userID draws ?s1)"
  have "codes_change (user_mfa_backup_codes s, backup_code_seq s)
          (user_mfa_backup_codes ?s2, backup_code_seq ?s2)"
    using DeleteBackupCodes_change[of s userID] generateBackupCodes_change[of ?s1 d userID draws]
    by (rule change_trans)
  then show ?thesis
    unfolding step_GenerateBackupCodes
    by (auto simp: GenerateBackupCodes_def Let_def split_beta log_codes intro: change_none
        split: option.splits sum.splits prod.splits)
next
  case (step_ChangePassword now salt userID currentPass newPass ip userAgent)
  then show ?thesis by (simp add: password_ops_codes change_none)
next
  case (step_SetPassword now salt userID password)
  then show ?thesis by (simp add: password_ops_codes change_none)
next
  case (step_LogoutAll now userID ip userAgent)
  then show ?thesis by (simp add: password_ops_codes change_none)
next
  case (step_ForgotPassword now b email)
  then show ?thesis by (simp add: password_ops_codes change_none)
next
  case (step_ResetPassword now salt tokenStr newPassword confirmPassword)
  then show ?thesis by (simp add: ResetPassword_codes change_none)
qed

lemma service_steps_ok:
  assumes "(service_step d cfg)\<^sup>*\<^sup>* s s'" and "backup_codes_wf s"
  shows "backup_codes_wf s' \<and>
         descends (user_mfa_backup_codes s, backup_code_seq s)
           (user_mfa_backup_codes s', backup_code_seq s')"
  using assms
proof (induction rule: rtranclp_induct)
  case base
  then show ?case
    using codes_change_ok[OF change_none] by (simp add: backup_codes_wf_def)
next
  case (step y z)
  then have y: "backup_codes_wf y"
    "descends (user_mfa_backup_codes s, backup_code_seq s) (user_mfa_backup_codes y, backup_code_seq y)"
    by auto
  have "codes_ok (user_mfa_backup_codes z, backup_code_seq z) \<and>
        descends (user_mfa_backup_codes y, backup_code_seq y) (user_mfa_backup_codes z, backup_code_seq z)"
    using codes_change_ok[OF service_step_codes_change[OF step.hyps(2)]] y(1)
    by (simp add: backup_codes_wf_def)
  then show ?case
    using y(2) descends_trans by (auto simp: backup_codes_wf_def)
qed

lemma VerifyBackupCode_marks:
  assumes "backup_codes_wf s"
    and "GetMFAToken now s mfaToken = Some pending"
    and "matchBackupCode d code (GetUnusedBackupCodes s (mp_UserID pending)) = Some c"
  shows "c \<in> set (user_mfa_backup_codes s)" and "bc_UsedAt c = None"
    and "bc_UserID c = mp_UserID pending" and "backupCodeMatches d code c"
    and "user_mfa_backup_codes (snd (VerifyBackupCode d cfg now uuid mfaToken code ip ua s)) =
           map (\<lambda>b. if b = c then c\<lparr>bc_UsedAt := Some now\<rparr> else b) (user_mfa_backup_codes s)"
proof -
  have f: "find (backupCodeMatches d code) (GetUnusedBackupCodes s (mp_UserID pending)) = Some c"
    using assms(3) by (simp add: matchBackupCode_find)
  then have "c \<in> set (GetUnusedBackupCodes s (mp_UserID pending))" and m: "backupCodeMatches d code c"
    by (auto simp: find_Some_iff)
  then show c: "c \<in> set (user_mfa_backup_codes s)" and "bc_UsedAt c = None"
    and "bc_UserID c = mp_UserID pending"
    by (auto simp: GetUnusedBackupCodes_def)
  show "backupCodeMatches d code c" by (rule m)
  have d: "distinct (map bc_ID (user_mfa_backup_codes s))"
    using assms(1) by (simp add: backup_codes_wf_def codes_ok_def)
  have "map (\<lambda>b. if bc_ID b = bc_ID c then b\<lparr>bc_UsedAt := Some now\<rparr> else b) (user_mfa_backup_codes s)
        = map (\<lambda>b. if b = c then c\<lparr>bc_UsedAt := Some now\<rparr> else b) (user_mfa_backup_codes s)"
    using distinct_ID_eq[OF d _ c] by (intro map_cong) auto
  moreover have "user_mfa_backup_codes (snd (VerifyBackupCode d cfg now uuid mfaToken code ip ua s))
     = map (\<lambda>b. if bc_ID b = bc_ID c then b\<lparr>bc_UsedAt := Some now\<rparr> else b) (user_mfa_backup_codes s)"
    using VerifyBackupCode_codes[of d cfg now uuid mfaToken code ip ua s] assms(2,3) by simp
  ultimately show "user_mfa_backup_codes (snd (VerifyBackupCode d cfg now uuid mfaToken code ip ua s)) =
           map (\<lambda>b. if b = c then c\<lparr>bc_UsedAt := Some now\<rparr> else b) (user_mfa_backup_codes s)"
    by simp
qed

lemma VerifyBackupCode_success_cases:
  assumes "fst (VerifyBackupCode d cfg now uuid mfaToken code ip ua s) = Inr r"
  shows "\<exists>pending c. GetMFAToken now s mfaToken = Some pending \<and>
           matchBackupCode d code (GetUnusedBackupCodes s (mp_UserID pending)) = Some c"
  using assms
  by (auto simp: VerifyBackupCode_def Let_def split: option.splits)

lemma VerifyBackupCode_no_token:
  "GetMFAToken now s mfaToken = None \<Longrightarrow>
   VerifyBackupCode d cfg now uuid mfaToken code ip ua s = (Inl ErrInvalidSession, s)"
  by (simp add: VerifyBackupCode_def)

lemma VerifyBackupCode_no_match:
  "GetMFAToken now s mfaToken = Some pending \<Longrightarrow>
   matchBackupCode d code (GetUnusedBackupCodes s (mp_UserID pending)) = None \<Longrightarrow>
   fst (VerifyBackupCode d cfg now uuid mfaToken code ip ua s) = Inl ErrInvalidMFACode"
  by (simp add: VerifyBackupCode_def)

lemma VerifyBackupCode_result:
  assumes "GetMFAToken now s mfaToken = Some pending"
    and "matchBackupCode d code (GetUnusedBackupCodes s (mp_UserID pending)) = Some c"
  shows "fst (VerifyBackupCode d cfg now uuid mfaToken code ip ua s) =
           (case GetUserByEmail s (mp_Email pending) of
              None \<Rightarrow> Inl ErrUserNotFound
            | Some user \<Rightarrow>
                (case kv_Create_error d
                        \<lparr>sd_SessionID = uuid, sd_UserID = u_Id user, sd_Email = u_Email user,
                         sd_IPAddress = ip, sd_UserAgent = ua, sd_CreatedAt = now,
                         sd_ExpiresAt = now + SessionTTL cfg, sd_LastActivityAt = now\<rparr> of
                   Some err \<Rightarrow> Inl (ErrWrapped ''failed to create session'')
                 | None \<Rightarrow>
                     Inr \<lparr>lres_RequiresMFA = False, lres_MFAToken = [],
                          lres_Session =
                            Some \<lparr>sd_SessionID = uuid, sd_UserID = u_Id user, sd_Email = u_Email user,
                                  sd_IPAddress = ip, sd_UserAgent = ua, sd_CreatedAt = now,
                                  sd_ExpiresAt = now + SessionTTL cfg, sd_LastActivityAt = now\<rparr>,
                          lres_User = Some user\<rparr>))"
    and "kv_mfa_tokens (snd (VerifyBackupCode d cfg now uuid mfaToken code ip ua s)) =
           filter (\<lambda>kv. fst kv \<noteq> mfaToken) (kv_mfa_tokens s)"
proof -
  let ?s3 = "DeleteMFAToken mfaToken
             (logAudit (Some (mp_UserID pending)) ''mfa_backup_used'' ''backup_code''
                (Itoa (bc_ID c)) None None ip ua (UseBackupCode now (bc_ID c) s))"
  have u: "GetUserByEmail ?s3 (mp_Email pending) = GetUserByEmail s (mp_Email pending)"
    by (simp add: GetUserByEmail_def store_defs)
  have k: "kv_mfa_tokens ?s3 = filter (\<lambda>kv. fst kv \<noteq> mfaToken) (kv_mfa_tokens s)"
    by (simp add: store_defs)
  show "fst (VerifyBackupCode d cfg now uuid mfaToken code ip ua s) =
           (case GetUserByEmail s (mp_Email pending) of
              None \<Rightarrow> Inl ErrUserNotFound
            | Some user \<Rightarrow>
                (case kv_Create_error d
                        \<lparr>sd_SessionID = uuid, sd_UserID = u_Id user, sd_Email = u_Email user,
                         sd_IPAddress = ip, sd_UserAgent = ua, sd_CreatedAt = now,
                         sd_ExpiresAt = now + SessionTTL cfg, sd_LastActivityAt = now\<rparr> of
                   Some err \<Rightarrow> Inl (ErrWrapped ''failed to create session'')
                 | None \<Rightarrow>
                     Inr \<lparr>lres_RequiresMFA = False, lres_MFAToken = [],
                          lres_Session =
                            Some \<lparr>sd_SessionID = uuid, sd_UserID = u_Id user, sd_Email = u_Email user,
                                  sd_IPAddress = ip, sd_UserAgent = ua, sd_CreatedAt = now,
                                  sd_ExpiresAt = now + SessionTTL cfg, sd_LastActivityAt = now\<rparr>,
                          lres_User = Some user\<rparr>))"
    using assms
    by (simp add: VerifyBackupCode_def Let_def u createSession_def SessionStore_Create_def
        split: option.splits)
  show "kv_mfa_tokens (snd (VerifyBackupCode d cfg now uuid mfaToken code ip ua s)) =
           filter (\<lambda>kv. fst kv \<noteq> mfaToken) (kv_mfa_tokens s)"
    using assms k
    by (simp add: VerifyBackupCode_def Let_def u createSession_def SessionStore_Create_def
        CreateSession_def UpdateUserLoginStats_def logSuccessfulLogin_def logAudit_def
        CreateAuditTrail_def CreateLoginHistory_def split: option.splits)
qed

lemma unused_after_mark:
  assumes "c \<in> set cs" and "bc_UsedAt c = None" and "bc_UserID c = uid"
  shows "filter (\<lambda>b. bc_UserID b = uid \<and> bc_UsedAt b = None)
           (map (\<lambda>b. if b = c then c\<lparr>bc_UsedAt := Some t\<rparr> else b) cs) =
         filter (\<lambda>b. b \<noteq> c) (filter (\<lambda>b. bc_UserID b = uid \<and> bc_UsedAt b = None) cs)"
  by (induction cs) auto

lemma VerifyBackupCode_again:
  assumes "c \<in> set (user_mfa_backup_codes s)" and "bc_UsedAt c = None" and "bc_UserID c = uid"
    and "user_mfa_backup_codes s2 =
           map (\<lambda>b. if b = c then c\<lparr>bc_UsedAt := Some t\<rparr> else b) (user_mfa_backup_codes s)"
    and "GetMFAToken now2 s2 tok2 = Some p2" and "mp_UserID p2 = uid"
  shows "(fst (VerifyBackupCode d cfg now2 uuid2 tok2 code ip2 ua2 s2) = Inl ErrInvalidMFACode) =
         (\<forall>b \<in> set (GetUnusedBackupCodes s uid). backupCodeMatches d code b \<longrightarrow> b = c)"
proof -
  have un: "GetUnusedBackupCodes s2 uid = filter (\<lambda>b. b \<noteq> c) (GetUnusedBackupCodes s uid)"
    unfolding GetUnusedBackupCodes_def assms(4) using assms(1,2,3) by (rule unused_after_mark)
  show ?thesis
  proof (cases "matchBackupCode d code (GetUnusedBackupCodes s2 uid)")
    case None
    then have "\<forall>b \<in> set (GetUnusedBackupCodes s uid). backupCodeMatches d code b \<longrightarrow> b = c"
      unfolding un matchBackupCode_find find_None_iff by auto
    moreover have "fst (VerifyBackupCode d cfg now2 uuid2 tok2 code ip2 ua2 s2) = Inl ErrInvalidMFACode"
      using assms(5) None unfolding assms(6)[symmetric] by (rule VerifyBackupCode_no_match)
    ultimately show ?thesis by simp
  next
    case (Some c2)
    then have "c2 \<in> set (GetUnusedBackupCodes s uid)" "c2 \<noteq> c" "backupCodeMatches d code c2"
      unfolding un matchBackupCode_find find_Some_iff by (auto dest: nth_mem)
    then have "\<not> (\<forall>b \<in> set (GetUnusedBackupCodes s uid). backupCodeMatches d code b \<longrightarrow> b = c)"
      by blast
    moreover have "fst (VerifyBackupCode d cfg now2 uuid2 tok2 code ip2 ua2 s2) \<noteq> Inl ErrInvalidMFACode"
      using VerifyBackupCode_result(1)[OF assms(5), of d code c2 cfg uuid2 ip2 ua2] Some
      unfolding assms(6) by (simp split: option.splits)
    ultimately show ?thesis by simp
  qed
qed

text \<open>
  C5. In a store whose backup-code table has distinct primary keys drawn from its
  sequence, with a live pending MFA token, let c be the code that VerifyBackupCode
  matches: the first unused backup code of the pending user that the presented code
  verifies against (hashed under the salt of c). Then the call changes the table in
  exactly the row c, from unused to used at now, and deletes the pending token. It
  returns the session when the user row is found and the fast store takes the
  session; otherwise it returns ErrUserNotFound or the error of createSession, with
  c consumed all the same. In any later state with this table and a live pending
  token of the user, VerifyBackupCode with the same code fails with
  ErrInvalidMFACode exactly when no other unused code of the user verifies against
  the presented code. After any further operations of the service every row that
  still carries the primary key of c is used. Moreover every successful
  VerifyBackupCode marks exactly one row, which was unused, and a call without a
  live pending token fails with ErrInvalidSession and changes nothing.
\<close>

theorem VerifyBackupCode_single_use:
  assumes "backup_codes_wf s"
    and "GetMFAToken now s mfaToken = Some pending"
    and "matchBackupCode d code (GetUnusedBackupCodes s (mp_UserID pending)) = Some c"
  shows "c \<in> set (user_mfa_backup_codes s) \<and> bc_UserID c = mp_UserID pending \<and>
         bc_UsedAt c = None \<and> backupCodeMatches d code c \<and>
         user_mfa_backup_codes (snd (VerifyBackupCode d cfg now uuid mfaToken code ip ua s)) =
           map (\<lambda>b. if b = c then c\<lparr>bc_UsedAt := Some now\<rparr> else b) (user_mfa_backup_codes s) \<and>
         (\<forall>now'. GetMFAToken now' (snd (VerifyBackupCode d cfg now uuid mfaToken code ip ua s))
                    mfaToken = None) \<and>
         fst (VerifyBackupCode d cfg now uuid mfaToken code ip ua s) =
           (case GetUserByEmail s (mp_Email pending) of
              None \<Rightarrow> Inl ErrUserNotFound
            | Some user \<Rightarrow>
                (case kv_Create_error d
                        \<lparr>sd_SessionID = uuid, sd_UserID = u_Id user, sd_Email = u_Email user,
                         sd_IPAddress = ip, sd_UserAgent = ua, sd_CreatedAt = now,
                         sd_ExpiresAt = now + SessionTTL cfg, sd_LastActivityAt = now\<rparr> of
                   Some err \<Rightarrow> Inl (ErrWrapped ''failed to create session'')
                 | None \<Rightarrow>
                     Inr \<lparr>lres_RequiresMFA = False, lres_MFAToken = [],
                          lres_Session =
                            Some \<lparr>sd_SessionID = uuid, sd_UserID = u_Id user, sd_Email = u_Email user,
                                  sd_IPAddress = ip, sd_UserAgent = ua, sd_CreatedAt = now,
                                  sd_ExpiresAt = now + SessionTTL cfg, sd_LastActivityAt = now\<rparr>,
                          lres_User = Some user\<rparr>)) \<and>
         (\<forall>now2 uuid2 tok2 ip2 ua2 s2 p2.
            user_mfa_backup_codes s2 =
              user_mfa_backup_codes (snd (VerifyBackupCode d cfg now uuid mfaToken code ip ua s)) \<and>
            GetMFAToken now2 s2 tok2 = Some p2 \<and> mp_UserID p2 = mp_UserID pending \<longrightarrow>
            (fst (VerifyBackupCode d cfg now2 uuid2 tok2 code ip2 ua2 s2) = Inl ErrInvalidMFACode) =
            (\<forall>b \<in> set (GetUnusedBackupCodes s (mp_UserID pending)).
               backupCodeMatches d code b \<longrightarrow> b = c)) \<and>
         (\<forall>s2. (service_step d cfg)\<^sup>*\<^sup>* (snd (VerifyBackupCode d cfg now uuid mfaToken code ip ua s)) s2 \<longrightarrow>
            (\<forall>b' \<in> set (user_mfa_backup_codes s2). bc_ID b' = bc_ID c \<longrightarrow> bc_UsedAt b' \<noteq> None)) \<and>
         (\<forall>now0 uuid0 tok0 code0 ip0 ua0 s0 r.
            backup_codes_wf s0 \<and>
            fst (VerifyBackupCode d cfg now0 uuid0 tok0 code0 ip0 ua0 s0) = Inr r \<longrightarrow>
            (\<exists>c0 \<in> set (user_mfa_backup_codes s0). bc_UsedAt c0 = None \<and>
               user_mfa_backup_codes (snd (VerifyBackupCode d cfg now0 uuid0 tok0 code0 ip0 ua0 s0)) =
                 map (\<lambda>b. if b = c0 then c0\<lparr>bc_UsedAt := Some now0\<rparr> else b)
                   (user_mfa_backup_codes s0))) \<and>
         (\<forall>now0 uuid0 tok0 code0 ip0 ua0 s0.
            GetMFAToken now0 s0 tok0 = None \<longrightarrow>
            VerifyBackupCode d cfg now0 uuid0 tok0 code0 ip0 ua0 s0 = (Inl ErrInvalidSession, s0))"
proof -
  let ?s' = "snd (VerifyBackupCode d cfg now uuid mfaToken code ip ua s)"
  let ?c' = "c\<lparr>bc_UsedAt := Some now\<rparr>"
  note marks = VerifyBackupCode_marks(1-4)[OF assms]
  note marks5 = VerifyBackupCode_marks(5)[OF assms, where cfg = cfg and uuid = uuid and ip = ip and ua = ua]
  note res = VerifyBackupCode_result[OF assms(2,3), where cfg = cfg and uuid = uuid and ip = ip and ua = ua]
  have gone: "GetMFAToken now' ?s' mfaToken = None" for now'
    by (simp add: GetMFAToken_def res(2) map_of_filter_key)
  have again: "(fst (VerifyBackupCode d cfg now2 uuid2 tok2 code ip2 ua2 s2) = Inl ErrInvalidMFACode) =
            (\<forall>b \<in> set (GetUnusedBackupCodes s (mp_UserID pending)).
               backupCodeMatches d code b \<longrightarrow> b = c)"
    if "user_mfa_backup_codes s2 = user_mfa_backup_codes ?s' \<and>
        GetMFAToken now2 s2 tok2 = Some p2 \<and> mp_UserID p2 = mp_UserID pending"
    for now2 uuid2 tok2 ip2 ua2 s2 p2
  proof -
    have e: "user_mfa_backup_codes s2 =
            map (\<lambda>b. if b = c then ?c' else b) (user_mfa_backup_codes s)"
      using that marks5 by simp
    have g: "GetMFAToken now2 s2 tok2 = Some p2" and u: "mp_UserID p2 = mp_UserID pending"
      using that by simp_all
    show ?thesis
      by (rule VerifyBackupCode_again[OF marks(1) marks(2) marks(3) e g u])
  qed
  have terminal: "bc_UsedAt b' \<noteq> None"
    if steps: "(service_step d cfg)\<^sup>*\<^sup>* ?s' s2"
      and b': "b' \<in> set (user_mfa_backup_codes s2)" "bc_ID b' = bc_ID c" for s2 b'
  proof -
    have "service_step d cfg s ?s'" by (rule step_VerifyBackupCode)
    then have "(service_step d cfg)\<^sup>*\<^sup>* s ?s'" by (rule r_into_rtranclp)
    then have wf': "backup_codes_wf ?s'"
      by (rule service_steps_ok[OF _ assms(1), THEN conjunct1])
    have desc: "descends (user_mfa_backup_codes ?s', backup_code_seq ?s')
                  (user_mfa_backup_codes s2, backup_code_seq s2)"
      using service_steps_ok[OF steps wf'] by simp
    have in': "?c' \<in> set (fst (user_mfa_backup_codes ?s', backup_code_seq ?s'))"
      unfolding marks5 fst_conv set_map using marks(1) by (rule rev_image_eqI) simp
    show ?thesis
      using desc _ in'
    proof (rule descends_used)
      show "codes_ok (user_mfa_backup_codes ?s', backup_code_seq ?s')"
        using wf' by (simp add: backup_codes_wf_def)
      show "bc_UsedAt ?c' \<noteq> None" by simp
      show "b' \<in> set (fst (user_mfa_backup_codes s2, backup_code_seq s2))" using b'(1) by simp
      show "bc_ID b' = bc_ID ?c'" using b'(2) by simp
    qed
  qed
  have every: "\<exists>c0 \<in> set (user_mfa_backup_codes s0). bc_UsedAt c0 = None \<and>
               user_mfa_backup_codes (snd (VerifyBackupCode d cfg now0 uuid0 tok0 code0 ip0 ua0 s0)) =
                 map (\<lambda>b. if b = c0 then c0\<lparr>bc_UsedAt := Some now0\<rparr> else b)
                   (user_mfa_backup_codes s0)"
    if "backup_codes_wf s0 \<and> fst (VerifyBackupCode d cfg now0 uuid0 tok0 code0 ip0 ua0 s0) = Inr r"
    for now0 uuid0 tok0 code0 ip0 ua0 s0 r
  proof -
    from that obtain p0 c0 where p0: "GetMFAToken now0 s0 tok0 = Some p0"
      "matchBackupCode d code0 (GetUnusedBackupCodes s0 (mp_UserID p0)) = Some c0"
      using VerifyBackupCode_success_cases by blast
    from that have wf0: "backup_codes_wf s0" by simp
    note m0 = VerifyBackupCode_marks(1,2)[OF wf0 p0]
    note m5 = VerifyBackupCode_marks(5)[OF wf0 p0, where cfg = cfg and uuid = uuid0 and ip = ip0 and ua = ua0]
    show ?thesis
      by (rule bexI[OF _ m0(1)]) (rule conjI[OF m0(2) m5])
  qed
  show ?thesis
  proof (intro conjI allI impI ballI)
    show "c \<in> set (user_mfa_backup_codes s)" by (rule marks(1))
    show "bc_UserID c = mp_UserID pending" by (rule marks(3))
    show "bc_UsedAt c = None" by (rule marks(2))
    show "backupCodeMatches d code c" by (rule marks(4))
    show "user_mfa_backup_codes ?s' =
           map (\<lambda>b. if b = c then ?c' else b) (user_mfa_backup_codes s)" by (rule marks5)
    show "GetMFAToken now' ?s' mfaToken = None" for now' by (rule gone)
    show "fst (VerifyBackupCode d cfg now uuid mfaToken code ip ua s) =
           (case GetUserByEmail s (mp_Email pending) of
              None \<Rightarrow> Inl ErrUserNotFound
            | Some user \<Rightarrow>
                (case kv_Create_error d
                        \<lparr>sd_SessionID = uuid, sd_UserID = u_Id user, sd_Email = u_Email user,
                         sd_IPAddress = ip, sd_UserAgent = ua, sd_CreatedAt = now,
                         sd_ExpiresAt = now + SessionTTL cfg, sd_LastActivityAt = now\<rparr> of
                   Some err \<Rightarrow> Inl (ErrWrapped ''failed to create session'')
                 | None \<Rightarrow>
                     Inr \<lparr>lres_RequiresMFA = False, lres_MFAToken = [],
                          lres_Session =
                            Some \<lparr>sd_SessionID = uuid, sd_UserID = u_Id user, sd_Email = u_Email user,
                                  sd_IPAddress = ip, sd_UserAgent = ua, sd_CreatedAt = now,
                                  sd_ExpiresAt = now + SessionTTL cfg, sd_LastActivityAt = now\<rparr>,
                          lres_User = Some user\<rparr>))"
      by (rule res(1))
  next
    fix now2 uuid2 tok2 ip2 ua2 s2 p2
    assume "user_mfa_backup_codes s2 = user_mfa_backup_codes ?s' \<and>
            GetMFAToken now2 s2 tok2 = Some p2 \<and> mp_UserID p2 = mp_UserID pending"
    then show "(fst (VerifyBackupCode d cfg now2 uuid2 tok2 code ip2 ua2 s2) = Inl ErrInvalidMFACode) =
            (\<forall>b \<in> set (GetUnusedBackupCodes s (mp_UserID pending)).
               backupCodeMatches d code b \<longrightarrow> b = c)"
      by (rule again)
  next
    fix s2 b'
    assume "(service_step d cfg)\<^sup>*\<^sup>* ?s' s2" "b' \<in> set (user_mfa_backup_codes s2)"
      "bc_ID b' = bc_ID c"
    then show "bc_UsedAt b' \<noteq> None" by (rule terminal)
  next
    fix now0 uuid0 tok0 code0 ip0 ua0 s0 r
    assume "backup_codes_wf s0 \<and>
            fst (VerifyBackupCode d cfg now0 uuid0 tok0 code0 ip0 ua0 s0) = Inr r"
    then show "\<exists>c0 \<in> set (user_mfa_backup_codes s0). bc_UsedAt c0 = None \<and>
               user_mfa_backup_codes (snd (VerifyBackupCode d cfg now0 uuid0 tok0 code0 ip0 ua0 s0)) =
                 map (\<lambda>b. if b = c0 then c0\<lparr>bc_UsedAt := Some now0\<rparr> else b)
                   (user_mfa_backup_codes s0)"
      by (rule every)
  next
    fix now0 uuid0 tok0 code0 ip0 ua0 s0
    assume "GetMFAToken now0 s0 tok0 = None"
    then show "VerifyBackupCode d cfg now0 uuid0 tok0 code0 ip0 ua0 s0 = (Inl ErrInvalidSession, s0)"
      by (rule VerifyBackupCode_no_token)
  qed
qed

lemma EncodeToString_inj: "(EncodeToString a = EncodeToString b) = (a = b)"
proof
  assume "EncodeToString a = EncodeToString b"
  then have "DecodeString (EncodeToString a) = DecodeString (EncodeToString b)"
    by (rule arg_cong)
  then have "Some a = Some b"
    unfolding DecodeString_EncodeToString .
  then show "a = b" by (rule option.inject[THEN iffD1])
next
  assume "a = b"
  then show "EncodeToString a = EncodeToString b" by (rule arg_cong)
qed

lemma example_backup_hash:
  "hashBackupCodeWithSalt example_deps code salt =
     EncodeToString (replicate 32 (sum_list (bytes_of code @ salt)))"
  "hashBackupCodeWithSalt example_deps_unreachable code salt =
     EncodeToString (replicate 32 (sum_list (bytes_of code @ salt)))"
  by (simp_all add: hashBackupCodeWithSalt_def example_deps_def example_deps_unreachable_def)

lemma example_backup_matches:
  "backupCodeMatches example_deps code (example_backup_code i code' salt) =
     (sum_list (bytes_of code' @ salt) = sum_list (bytes_of code @ salt))"
  "backupCodeMatches example_deps_unreachable code (example_backup_code i code' salt) =
     (sum_list (bytes_of code' @ salt) = sum_list (bytes_of code @ salt))"
  by (simp_all add: backupCodeMatches_def example_backup_code_def DecodeString_EncodeToString
      example_backup_hash EncodeToString_inj)

lemma example_code_sums:
  "sum_list (bytes_of ''AAAAAAAA'') \<noteq> sum_list (bytes_of ''BBBBBBBB'')"
  "sum_list (bytes_of ''BBBBBBBB'') \<noteq> sum_list (bytes_of ''AAAAAAAA'')"
  by (simp_all add: bytes_of_def)

lemma example_backup_rows:
  "bc_ID (example_backup_code i code salt) = i"
  "bc_UserID (example_backup_code i code salt) = 1"
  "bc_UsedAt (example_backup_code i code salt) = None"
  by (simp_all add: example_backup_code_def)

lemma example_backup_store_facts:
  "backup_codes_wf example_backup_store"
  "GetMFAToken 100000000000 example_backup_store ''mfa-token-1'' = Some example_pending"
  "GetUnusedBackupCodes example_backup_store (mp_UserID example_pending) =
     [example_backup_code 1 ''AAAAAAAA'' (replicate 16 1),
      example_backup_code 2 ''BBBBBBBB'' (replicate 16 2)]"
  "kv_mfa_tokens example_backup_store =
     [(''mfa-token-1'', example_pending), (''mfa-token-2'', example_pending)]"
  "GetUserByEmail example_backup_store (mp_Email example_pending) = Some example_user"
  by (simp_all add: backup_codes_wf_def codes_ok_def example_backup_store_def example_backup_rows
      GetMFAToken_def example_pending_def GetUnusedBackupCodes_def GetUserByEmail_def
      example_mfa_store_def example_store_def example_user_def)

lemma example_twice_store_facts:
  "backup_codes_wf example_twice_store"
  "GetMFAToken 100000000000 example_twice_store ''mfa-token-1'' = Some example_pending"
  "GetUnusedBackupCodes example_twice_store (mp_UserID example_pending) =
     [example_backup_code 1 ''AAAAAAAA'' (replicate 16 1),
      example_backup_code 2 ''AAAAAAAA'' (replicate 16 2)]"
  "kv_mfa_tokens example_twice_store =
     [(''mfa-token-1'', example_pending), (''mfa-token-2'', example_pending)]"
  "GetUserByEmail example_twice_store (mp_Email example_pending) = Some example_user"
  "users example_twice_store = [example_user]"
  by (simp_all add: backup_codes_wf_def codes_ok_def example_twice_store_def
      example_backup_store_def example_backup_rows
      GetMFAToken_def example_pending_def GetUnusedBackupCodes_def GetUserByEmail_def
      example_mfa_store_def example_store_def example_user_def)

lemma example_backup_match:
  "matchBackupCode example_deps ''AAAAAAAA''
     (GetUnusedBackupCodes example_backup_store (mp_UserID example_pending)) =
   Some (example_backup_code 1 ''AAAAAAAA'' (replicate 16 1))"
  "matchBackupCode example_deps_unreachable ''AAAAAAAA''
     (GetUnusedBackupCodes example_backup_store (mp_UserID example_pending)) =
   Some (example_backup_code 1 ''AAAAAAAA'' (replicate 16 1))"
  "matchBackupCode example_deps ''AAAAAAAA''
     (GetUnusedBackupCodes example_twice_store (mp_UserID example_pending)) =
   Some (example_backup_code 1 ''AAAAAAAA'' (replicate 16 1))"
  by (simp_all add: example_backup_store_facts(3) example_twice_store_facts(3)
      example_backup_matches)

lemma example_backup_unique:
  "\<forall>b \<in> set (GetUnusedBackupCodes example_backup_store (mp_UserID example_pending)).
     backupCodeMatches example_deps ''AAAAAAAA'' b \<longrightarrow>
     b = example_backup_code 1 ''AAAAAAAA'' (replicate 16 1)"
  by (simp add: example_backup_store_facts(3) example_backup_matches example_code_sums)

lemma VerifyBackupCode_users:
  assumes "GetMFAToken now s mfaToken = Some pending"
    and "matchBackupCode d code (GetUnusedBackupCodes s (mp_UserID pending)) = Some c"
    and "GetUserByEmail s (mp_Email pending) = Some user"
    and "kv_Create_error d
           \<lparr>sd_SessionID = uuid, sd_UserID = u_Id user, sd_Email = u_Email user,
            sd_IPAddress = ip, sd_UserAgent = ua, sd_CreatedAt = now,
            sd_ExpiresAt = now + SessionTTL cfg, sd_LastActivityAt = now\<rparr> = None"
  shows "users (snd (VerifyBackupCode d cfg now uuid mfaToken code ip ua s)) =
           map (\<lambda>u. if u_Id u = u_Id user
                     then u\<lparr>u_LastLoginAt := Some now, u_LoginCount := u_LoginCount u + 1\<rparr> else u)
             (users s)"
proof -
  let ?s3 = "DeleteMFAToken mfaToken
             (logAudit (Some (mp_UserID pending)) ''mfa_backup_used'' ''backup_code''
                (Itoa (bc_ID c)) None None ip ua (UseBackupCode now (bc_ID c) s))"
  have u: "GetUserByEmail ?s3 (mp_Email pending) = GetUserByEmail s (mp_Email pending)"
    by (simp add: GetUserByEmail_def store_defs)
  show ?thesis
    using assms
    by (simp add: VerifyBackupCode_def Let_def u createSession_def SessionStore_Create_def)
      (simp add: store_defs)
qed

text \<open>
  C5 as the specification states it does not hold. On the example store, while
  the fast store cannot be reached, VerifyBackupCode with the code AAAAAAAA fails
  with the error of createSession after it has marked the code used, so that the
  code has never succeeded and is rejected from then on. A second call with the
  code and the MFA token of a successful call fails with ErrInvalidSession, not
  with ErrInvalidMFACode. And where the code AAAAAAAA was issued twice, a second
  call with the same code under the user's other pending token succeeds, on the
  second row.
\<close>

theorem VerifyBackupCode_exactly_once_counterexample:
  "fst (VerifyBackupCode example_deps_unreachable example_cfg 100000000000 ''uuid-1''
          ''mfa-token-1'' ''AAAAAAAA'' ''10.0.0.7'' ''curl'' example_backup_store)
     = Inl (ErrWrapped ''failed to create session'') \<and>
   map bc_UsedAt
     (user_mfa_backup_codes
        (snd (VerifyBackupCode example_deps_unreachable example_cfg 100000000000 ''uuid-1''
                ''mfa-token-1'' ''AAAAAAAA'' ''10.0.0.7'' ''curl'' example_backup_store)))
     = [Some 100000000000, None] \<and>
   fst (VerifyBackupCode example_deps example_cfg 110000000000 ''uuid-2''
          ''mfa-token-2'' ''AAAAAAAA'' ''10.0.0.7'' ''curl''
          (snd (VerifyBackupCode example_deps_unreachable example_cfg 100000000000 ''uuid-1''
                  ''mfa-token-1'' ''AAAAAAAA'' ''10.0.0.7'' ''curl'' example_backup_store)))
     = Inl ErrInvalidMFACode \<and>
   fst (VerifyBackupCode example_deps example_cfg 110000000000 ''uuid-2''
          ''mfa-token-1'' ''AAAAAAAA'' ''10.0.0.7'' ''curl''
          (snd (VerifyBackupCode example_deps example_cfg 100000000000 ''uuid-1''
                  ''mfa-token-1'' ''AAAAAAAA'' ''10.0.0.7'' ''curl'' example_backup_store)))
     = Inl ErrInvalidSession \<and>
   fst (VerifyBackupCode example_deps example_cfg 100000000000 ''uuid-1''
          ''mfa-token-1'' ''AAAAAAAA'' ''10.0.0.7'' ''curl'' example_twice_store)
     = Inr \<lparr>lres_RequiresMFA = False, lres_MFAToken = [],
            lres_Session =
              Some \<lparr>sd_SessionID = ''uuid-1'', sd_UserID = 1, sd_Email = ''bat@gerege.mn'',
                    sd_IPAddress = ''10.0.0.7'', sd_UserAgent = ''curl'',
                    sd_CreatedAt = 100000000000, sd_ExpiresAt = 86500000000000,
                    sd_LastActivityAt = 100000000000\<rparr>,
            lres_User = Some example_user\<rparr> \<and>
   fst (VerifyBackupCode example_deps example_cfg 110000000000 ''uuid-2''
          ''mfa-token-2'' ''AAAAAAAA'' ''10.0.0.7'' ''curl''
          (snd (VerifyBackupCode example_deps example_cfg 100000000000 ''uuid-1''
                  ''mfa-token-1'' ''AAAAAAAA'' ''10.0.0.7'' ''curl'' example_twice_store)))
     = Inr \<lparr>lres_RequiresMFA = False, lres_MFAToken = [],
            lres_Session =
              Some \<lparr>sd_SessionID = ''uuid-2'', sd_UserID = 1, sd_Email = ''bat@gerege.mn'',
                    sd_IPAddress = ''10.0.0.7'', sd_UserAgent = ''curl'',
                    sd_CreatedAt = 110000000000, sd_ExpiresAt = 86510000000000,
                    sd_LastActivityAt = 110000000000\<rparr>,
            lres_User =
              Some (example_user\<lparr>u_LastLoginAt := Some 100000000000, u_LoginCount := 1\<rparr>)\<rparr>"
proof -
  let ?c = "example_backup_code 1 ''AAAAAAAA'' (replicate 16 1)"
  let ?c2 = "example_backup_code 2 ''AAAAAAAA'' (replicate 16 2)"
  let ?bad = "VerifyBackupCode example_deps_unreachable example_cfg 100000000000 ''uuid-1''
                ''mfa-token-1'' ''AAAAAAAA'' ''10.0.0.7'' ''curl'' example_backup_store"
  let ?first = "VerifyBackupCode example_deps example_cfg 100000000000 ''uuid-1''
                  ''mfa-token-1'' ''AAAAAAAA'' ''10.0.0.7'' ''curl'' example_backup_store"
  let ?twice = "VerifyBackupCode example_deps example_cfg 100000000000 ''uuid-1''
                  ''mfa-token-1'' ''AAAAAAAA'' ''10.0.0.7'' ''curl'' example_twice_store"
  note f = example_backup_store_facts
  note g = example_twice_store_facts
  have up: "kv_Create_error example_deps sd = None"
    and down: "kv_Create_error example_deps_unreachable sd = Some ErrUnreachable" for sd
    by (simp_all add: example_deps_def example_deps_unreachable_def)
  have user: "u_Id example_user = 1" "u_Email example_user = ''bat@gerege.mn''"
    "100000000000 + SessionTTL example_cfg = 86500000000000"
    "110000000000 + SessionTTL example_cfg = 86510000000000"
    by (simp_all add: example_user_def example_cfg_def)
  have a: "fst ?bad = Inl (ErrWrapped ''failed to create session'')"
    by (simp add: VerifyBackupCode_result(1)[OF f(2) example_backup_match(2)] f(5) down)
  note mb = VerifyBackupCode_marks(1-4)[OF f(1) f(2) example_backup_match(2)]
  note mb5 = VerifyBackupCode_marks(5)[OF f(1) f(2) example_backup_match(2),
      where cfg = example_cfg and uuid = "''uuid-1''" and ip = "''10.0.0.7''" and ua = "''curl''"]
  have b: "map bc_UsedAt (user_mfa_backup_codes (snd ?bad)) = [Some 100000000000, None]"
    unfolding mb5 by (simp add: example_backup_store_def example_backup_code_def)
  have tb: "GetMFAToken 110000000000 (snd ?bad) ''mfa-token-2'' = Some example_pending"
    by (simp add: GetMFAToken_def VerifyBackupCode_result(2)[OF f(2) example_backup_match(2)] f(4)
        example_pending_def)
  have "(fst (VerifyBackupCode example_deps example_cfg 110000000000 ''uuid-2''
          ''mfa-token-2'' ''AAAAAAAA'' ''10.0.0.7'' ''curl'' (snd ?bad)) = Inl ErrInvalidMFACode) =
        (\<forall>b \<in> set (GetUnusedBackupCodes example_backup_store (mp_UserID example_pending)).
           backupCodeMatches example_deps ''AAAAAAAA'' b \<longrightarrow> b = ?c)"
    using mb(1) mb(2) mb(3) mb5 tb refl by (rule VerifyBackupCode_again)
  then have c: "fst (VerifyBackupCode example_deps example_cfg 110000000000 ''uuid-2''
          ''mfa-token-2'' ''AAAAAAAA'' ''10.0.0.7'' ''curl'' (snd ?bad)) = Inl ErrInvalidMFACode"
    using example_backup_unique by simp
  have "GetMFAToken 110000000000 (snd ?first) ''mfa-token-1'' = None"
    by (simp add: GetMFAToken_def VerifyBackupCode_result(2)[OF f(2) example_backup_match(1)]
        map_of_filter_key)
  then have d: "fst (VerifyBackupCode example_deps example_cfg 110000000000 ''uuid-2''
          ''mfa-token-1'' ''AAAAAAAA'' ''10.0.0.7'' ''curl'' (snd ?first)) = Inl ErrInvalidSession"
    by (simp add: VerifyBackupCode_no_token)
  have e: "fst ?twice = Inr \<lparr>lres_RequiresMFA = False, lres_MFAToken = [],
            lres_Session =
              Some \<lparr>sd_SessionID = ''uuid-1'', sd_UserID = 1, sd_Email = ''bat@gerege.mn'',
                    sd_IPAddress = ''10.0.0.7'', sd_UserAgent = ''curl'',
                    sd_CreatedAt = 100000000000, sd_ExpiresAt = 86500000000000,
                    sd_LastActivityAt = 100000000000\<rparr>,
            lres_User = Some example_user\<rparr>"
    by (simp add: VerifyBackupCode_result(1)[OF g(2) example_backup_match(3)] g(5) up user)
  note mt = VerifyBackupCode_marks(1-4)[OF g(1) g(2) example_backup_match(3)]
  note mt5 = VerifyBackupCode_marks(5)[OF g(1) g(2) example_backup_match(3),
      where cfg = example_cfg and uuid = "''uuid-1''" and ip = "''10.0.0.7''" and ua = "''curl''"]
  have tt: "GetMFAToken 110000000000 (snd ?twice) ''mfa-token-2'' = Some example_pending"
    by (simp add: GetMFAToken_def VerifyBackupCode_result(2)[OF g(2) example_backup_match(3)] g(4)
        example_pending_def)
  have "GetUnusedBackupCodes (snd ?twice) (mp_UserID example_pending) =
          filter (\<lambda>b. b \<noteq> ?c) (GetUnusedBackupCodes example_twice_store (mp_UserID example_pending))"
    unfolding GetUnusedBackupCodes_def mt5 using mt(1) mt(2) mt(3) by (rule unused_after_mark)
  also have "\<dots> = [?c2]"
    by (simp add: g(3) example_backup_code_def)
  finally have mt2: "matchBackupCode example_deps ''AAAAAAAA''
                       (GetUnusedBackupCodes (snd ?twice) (mp_UserID example_pending)) = Some ?c2"
    by (simp add: example_backup_matches)
  have "users (snd ?twice) =
          map (\<lambda>u. if u_Id u = u_Id example_user
                    then u\<lparr>u_LastLoginAt := Some 100000000000, u_LoginCount := u_LoginCount u + 1\<rparr>
                    else u) (users example_twice_store)"
    using g(2) example_backup_match(3) g(5) up by (rule VerifyBackupCode_users)
  then have ut: "GetUserByEmail (snd ?twice) (mp_Email example_pending) =
                   Some (example_user\<lparr>u_LastLoginAt := Some 100000000000, u_LoginCount := 1\<rparr>)"
    by (simp add: GetUserByEmail_def g(6) example_user_def example_pending_def)
  have h: "fst (VerifyBackupCode example_deps example_cfg 110000000000 ''uuid-2''
          ''mfa-token-2'' ''AAAAAAAA'' ''10.0.0.7'' ''curl'' (snd ?twice))
     = Inr \<lparr>lres_RequiresMFA = False, lres_MFAToken = [],
            lres_Session =
              Some \<lparr>sd_SessionID = ''uuid-2'', sd_UserID = 1, sd_Email = ''bat@gerege.mn'',
                    sd_IPAddress = ''10.0.0.7'', sd_UserAgent = ''curl'',
                    sd_CreatedAt = 110000000000, sd_ExpiresAt = 86510000000000,
                    sd_LastActivityAt = 110000000000\<rparr>,
            lres_User =
              Some (example_user\<lparr>u_LastLoginAt := Some 100000000000, u_LoginCount := 1\<rparr>)\<rparr>"
    by (simp add: VerifyBackupCode_result(1)[OF tt mt2] ut up user)
  show ?thesis
    using a b c d e h by (intro conjI)
qed

theorem VerifyBackupCode_single_use_witness:
  "backup_codes_wf example_backup_store \<and>
   GetMFAToken 100000000000 example_backup_store ''mfa-token-1'' = Some example_pending \<and>
   matchBackupCode example_deps ''AAAAAAAA''
     (GetUnusedBackupCodes example_backup_store (mp_UserID example_pending)) =
     Some (example_backup_code 1 ''AAAAAAAA'' (replicate 16 1)) \<and>
   fst (VerifyBackupCode example_deps example_cfg 100000000000 ''uuid-1''
          ''mfa-token-1'' ''AAAAAAAA'' ''10.0.0.7'' ''curl'' example_backup_store)
     = Inr \<lparr>lres_RequiresMFA = False, lres_MFAToken = [],
            lres_Session =
              Some \<lparr>sd_SessionID = ''uuid-1'', sd_UserID = 1, sd_Email = ''bat@gerege.mn'',
                    sd_IPAddress = ''10.0.0.7'', sd_UserAgent = ''curl'',
                    sd_CreatedAt = 100000000000, sd_ExpiresAt = 86500000000000,
                    sd_LastActivityAt = 100000000000\<rparr>,
            lres_User = Some example_user\<rparr> \<and>
   map bc_UsedAt
     (user_mfa_backup_codes
        (snd (VerifyBackupCode example_deps example_cfg 100000000000 ''uuid-1''
                ''mfa-token-1'' ''AAAAAAAA'' ''10.0.0.7'' ''curl'' example_backup_store)))
     = [Some 100000000000, None] \<and>
   fst (VerifyBackupCode example_deps example_cfg 110000000000 ''uuid-2''
          ''mfa-token-2'' ''AAAAAAAA'' ''10.0.0.7'' ''curl''
          (snd (VerifyBackupCode example_deps example_cfg 100000000000 ''uuid-1''
                  ''mfa-token-1'' ''AAAAAAAA'' ''10.0.0.7'' ''curl'' example_backup_store)))
     = Inl ErrInvalidMFACode \<and>
   fst (VerifyBackupCode example_deps example_cfg 120000000000 ''uuid-3''
          ''mfa-token-1'' ''BBBBBBBB'' ''10.0.0.7'' ''curl''
          (snd (VerifyBackupCode example_deps example_cfg 100000000000 ''uuid-1''
                  ''mfa-token-1'' ''AAAAAAAA'' ''10.0.0.7'' ''curl'' example_backup_store)))
     = Inl ErrInvalidSession"
proof -
  let ?c = "example_backup_code 1 ''AAAAAAAA'' (replicate 16 1)"
  let ?first = "VerifyBackupCode example_deps example_cfg 100000000000 ''uuid-1''
                  ''mfa-token-1'' ''AAAAAAAA'' ''10.0.0.7'' ''curl'' example_backup_store"
  note f = example_backup_store_facts
  note w3 = example_backup_match(1)
  note inst = VerifyBackupCode_single_use[OF f(1) f(2) w3,
      of example_cfg "''uuid-1''" "''10.0.0.7''" "''curl''"]
  note c2 = conjunct2
  note table = inst[THEN c2, THEN c2, THEN c2, THEN c2, THEN conjunct1]
  note gone = inst[THEN c2, THEN c2, THEN c2, THEN c2, THEN c2, THEN conjunct1]
  note res = inst[THEN c2, THEN c2, THEN c2, THEN c2, THEN c2, THEN c2, THEN conjunct1]
  note later = inst[THEN c2, THEN c2, THEN c2, THEN c2, THEN c2, THEN c2, THEN c2, THEN conjunct1]
  note notoken = inst[THEN c2, THEN c2, THEN c2, THEN c2, THEN c2, THEN c2, THEN c2, THEN c2,
      THEN c2, THEN c2]
  have user: "u_Id example_user = 1" "u_Email example_user = ''bat@gerege.mn''"
    "100000000000 + SessionTTL example_cfg = 86500000000000"
    by (simp_all add: example_user_def example_cfg_def)
  have up: "kv_Create_error example_deps sd = None" for sd
    by (simp add: example_deps_def)
  have a: "fst ?first = Inr \<lparr>lres_RequiresMFA = False, lres_MFAToken = [],
            lres_Session =
              Some \<lparr>sd_SessionID = ''uuid-1'', sd_UserID = 1, sd_Email = ''bat@gerege.mn'',
                    sd_IPAddress = ''10.0.0.7'', sd_UserAgent = ''curl'',
                    sd_CreatedAt = 100000000000, sd_ExpiresAt = 86500000000000,
                    sd_LastActivityAt = 100000000000\<rparr>,
            lres_User = Some example_user\<rparr>"
    unfolding res by (simp add: f(5) up user)
  have b: "map bc_UsedAt (user_mfa_backup_codes (snd ?first)) = [Some 100000000000, None]"
    unfolding table by (simp add: example_backup_store_def example_backup_code_def)
  have tok2: "GetMFAToken 110000000000 (snd ?first) ''mfa-token-2'' = Some example_pending"
    by (simp add: GetMFAToken_def VerifyBackupCode_result(2)[OF f(2) w3] f(4) example_pending_def)
  have "(fst (VerifyBackupCode example_deps example_cfg 110000000000 ''uuid-2''
          ''mfa-token-2'' ''AAAAAAAA'' ''10.0.0.7'' ''curl'' (snd ?first)) = Inl ErrInvalidMFACode) =
        (\<forall>b \<in> set (GetUnusedBackupCodes example_backup_store (mp_UserID example_pending)).
           backupCodeMatches example_deps ''AAAAAAAA'' b \<longrightarrow> b = ?c)"
    by (rule later[rule_format, where ?p2.0 = example_pending]) (simp add: tok2)
  then have c: "fst (VerifyBackupCode example_deps example_cfg 110000000000 ''uuid-2''
          ''mfa-token-2'' ''AAAAAAAA'' ''10.0.0.7'' ''curl'' (snd ?first)) = Inl ErrInvalidMFACode"
    using example_backup_unique by simp
  have "GetMFAToken 120000000000 (snd ?first) ''mfa-token-1'' = None"
    by (rule gone[rule_format])
  then have "VerifyBackupCode example_deps example_cfg 120000000000 ''uuid-3''
          ''mfa-token-1'' ''BBBBBBBB'' ''10.0.0.7'' ''curl'' (snd ?first)
          = (Inl ErrInvalidSession, snd ?first)"
    by (rule notoken[rule_format])
  then have d: "fst (VerifyBackupCode example_deps example_cfg 120000000000 ''uuid-3''
          ''mfa-token-1'' ''BBBBBBBB'' ''10.0.0.7'' ''curl'' (snd ?first)) = Inl ErrInvalidSession"
    by simp
  show ?thesis
    using f(1) f(2) w3 a b c d by (intro conjI)
qed

end
